(* ===== verification/Go_Prelude.thy ===== *)
theory Go_Prelude
  imports Complex_Main "HOL-Library.Word" "HOL-Library.Multiset"
    "HOL-Library.List_Lexorder" "HOL-Library.Char_ord"
begin

text \<open>
  Shared vocabulary of the development: how values of the Go program are represented, and the
  generic facts about lists, runs of state machines and clamped numbers that several components
  use.

  \<^item> Go's \<open>int\<close>, \<open>int64\<close> and \<open>time.Duration\<close> counters are \<open>int\<close>, except where wrap-around is
    reachable from outside the process; those are \<open>64 word\<close>. A duration is a number of
    nanoseconds.
  \<^item> \<open>time.Time\<close> is \<open>int\<close> nanoseconds with \<open>0\<close> for the zero time that \<open>IsZero\<close> recognises.
  \<^item> A \<open>float64\<close> that the program computes from counts and clock readings is \<open>real\<close>: rounding is
    not modelled. A \<open>float64\<close> that is read from the outside (a vendor tool may print NaN) is
    \<open>f64\<close>, which keeps the non-finite values.
\<close>

named_theorems lm_defs \<open>unfolding rules for the branches of the lifecycle step\<close>
named_theorems clamp_simps \<open>bounds of clamped numbers\<close>

section \<open>Clock readings and numbers\<close>

type_synonym duration = int
type_synonym walltime = int

definition time_IsZero :: "walltime \<Rightarrow> bool" where
  "time_IsZero t \<longleftrightarrow> t = 0"

definition Second :: duration where
  "Second = 1000000000"

definition Millisecond :: duration where
  "Millisecond = 1000000"

definition Microsecond :: duration where
  "Microsecond = 1000"

text \<open>Go's integer division truncates towards zero; \<open>Duration.Milliseconds\<close> and
  \<open>Duration.Microseconds\<close> use it. Conversions of floats to integers truncate as well.\<close>

definition go_quot :: "int \<Rightarrow> int \<Rightarrow> int" where
  "go_quot a b = sgn a * sgn b * (\<bar>a\<bar> div \<bar>b\<bar>)"

definition go_trunc :: "real \<Rightarrow> int" where
  "go_trunc x = (if x < 0 then \<lceil>x\<rceil> else \<lfloor>x\<rfloor>)"

definition dur_Seconds :: "duration \<Rightarrow> real" where
  "dur_Seconds d = real_of_int d / 1000000000"

definition dur_Milliseconds :: "duration \<Rightarrow> int" where
  "dur_Milliseconds d = go_quot d Millisecond"

definition dur_Microseconds :: "duration \<Rightarrow> int" where
  "dur_Microseconds d = go_quot d Microsecond"

text \<open>\<open>time.Duration(sec * float64(time.Second))\<close>\<close>

definition dur_of_seconds :: "real \<Rightarrow> duration" where
  "dur_of_seconds s = go_trunc (s * 1000000000)"

datatype f64 = Fin real | PosInf | NegInf | NaN

fun f64_lt :: "f64 \<Rightarrow> f64 \<Rightarrow> bool" where
  "f64_lt NaN _ = False"
| "f64_lt _ NaN = False"
| "f64_lt (Fin a) (Fin b) = (a < b)"
| "f64_lt (Fin _) PosInf = True"
| "f64_lt (Fin _) NegInf = False"
| "f64_lt PosInf _ = False"
| "f64_lt NegInf NegInf = False"
| "f64_lt NegInf _ = True"

fun f64_le :: "f64 \<Rightarrow> f64 \<Rightarrow> bool" where
  "f64_le NaN _ = False"
| "f64_le _ NaN = False"
| "f64_le (Fin a) (Fin b) = (a \<le> b)"
| "f64_le (Fin _) PosInf = True"
| "f64_le (Fin _) NegInf = False"
| "f64_le PosInf PosInf = True"
| "f64_le PosInf _ = False"
| "f64_le NegInf _ = True"

fun f64_neg :: "f64 \<Rightarrow> f64" where
  "f64_neg (Fin a) = Fin (- a)"
| "f64_neg PosInf = NegInf"
| "f64_neg NegInf = PosInf"
| "f64_neg NaN = NaN"

fun f64_add :: "f64 \<Rightarrow> f64 \<Rightarrow> f64" where
  "f64_add NaN _ = NaN"
| "f64_add _ NaN = NaN"
| "f64_add (Fin a) (Fin b) = Fin (a + b)"
| "f64_add PosInf NegInf = NaN"
| "f64_add NegInf PosInf = NaN"
| "f64_add PosInf _ = PosInf"
| "f64_add NegInf _ = NegInf"
| "f64_add _ y = y"

text \<open>The sign of a product with an infinity; \<open>0 * Inf\<close> is NaN.\<close>

fun f64_sgn :: "f64 \<Rightarrow> real" where
  "f64_sgn (Fin a) = sgn a"
| "f64_sgn PosInf = 1"
| "f64_sgn NegInf = -1"
| "f64_sgn NaN = 0"

fun f64_mul :: "f64 \<Rightarrow> f64 \<Rightarrow> f64" where
  "f64_mul NaN _ = NaN"
| "f64_mul _ NaN = NaN"
| "f64_mul (Fin a) (Fin b) = Fin (a * b)"
| "f64_mul x y =
     (let s = f64_sgn x * f64_sgn y
      in if s = 0 then NaN else if 0 < s then PosInf else NegInf)"

definition f64_sub :: "f64 \<Rightarrow> f64 \<Rightarrow> f64" where
  "f64_sub x y = f64_add x (f64_neg y)"

section \<open>Lists\<close>

text \<open>The number of elements at the end of a list that satisfy a predicate.\<close>

definition trailing :: "('a \<Rightarrow> bool) \<Rightarrow> 'a list \<Rightarrow> nat" where
  "trailing P xs = length (takeWhile P (rev xs))"

lemma trailing_Nil [simp]: "trailing P [] = 0"
  by (simp add: trailing_def)

lemma trailing_snoc [simp]:
  "trailing P (xs @ [x]) = (if P x then Suc (trailing P xs) else 0)"
  by (simp add: trailing_def)

lemma trailing_le_length: "trailing P xs \<le> length xs"
  unfolding trailing_def by (metis length_rev length_takeWhile_le)

text \<open>\<open>trailing\<close> counts what it says: the last \<open>trailing P xs\<close> elements satisfy \<open>P\<close>.\<close>

lemma trailing_all:
  assumes "n \<le> trailing P xs" and "x \<in> set (drop (length xs - n) xs)"
  shows "P x"
proof -
  have len: "n \<le> length xs" using assms(1) trailing_le_length le_trans by blast
  have "drop (length xs - n) xs = rev (take n (rev xs))"
    using len by (simp add: take_rev)
  then have "x \<in> set (take n (rev xs))" using assms(2) by simp
  moreover have "take n (rev xs) = take n (takeWhile P (rev xs))"
    using assms(1) unfolding trailing_def
    by (metis append_eq_conv_conj append_take_drop_id takeWhile_eq_take take_take min_absorb1)
  ultimately show ?thesis
    by (metis in_set_takeD set_takeWhileD)
qed

text \<open>The last \<open>n\<close> elements.\<close>

definition lastn :: "nat \<Rightarrow> 'a list \<Rightarrow> 'a list" where
  "lastn n xs = drop (length xs - n) xs"

lemma length_lastn [simp]: "length (lastn n xs) = min n (length xs)"
  by (simp add: lastn_def)

lemma lastn_short [simp]: "length xs \<le> n \<Longrightarrow> lastn n xs = xs"
  by (simp add: lastn_def)

lemma set_lastn_subset: "set (lastn n xs) \<subseteq> set xs"
  unfolding lastn_def by (rule set_drop_subset)

lemma lastn_suffix: "\<exists>ys. xs = ys @ lastn n xs"
  unfolding lastn_def by (metis append_take_drop_id)

lemma lastn_snoc:
  "0 < n \<Longrightarrow> lastn n (xs @ [x]) = (if length xs < n then xs @ [x] else tl (lastn n xs) @ [x])"
  by (auto simp: lastn_def tl_drop drop_Suc Suc_diff_le simp flip: drop_Suc_Cons)

section \<open>Runs of a state machine\<close>

text \<open>
  The contract every stateful component discharges: an invariant that holds at the start and that
  each operation keeps holds after every sequence of operations. The operations of a component are
  one datatype, and a sequence of calls under the component's mutex is a list of them.
\<close>

locale inv_machine =
  fixes start :: 's
    and step :: "'s \<Rightarrow> 'e \<Rightarrow> 's"
    and inv :: "'s \<Rightarrow> bool"
  assumes inv_start: "inv start"
    and inv_step: "inv s \<Longrightarrow> inv (step s e)"
begin

lemma inv_from: "inv s \<Longrightarrow> inv (foldl step s es)"
  by (induction es arbitrary: s) (auto intro: inv_step)

lemma inv_run: "inv (foldl step start es)"
  by (rule inv_from) (rule inv_start)

lemma inv_prefixes: "\<forall>k. inv (foldl step start (take k es))"
  by (simp add: inv_run)

end

text \<open>The same for operations whose arguments the caller must keep legal.\<close>

locale guarded_machine =
  fixes start :: 's
    and step :: "'s \<Rightarrow> 'e \<Rightarrow> 's"
    and inv :: "'s \<Rightarrow> bool"
    and legal :: "'e \<Rightarrow> bool"
  assumes guarded_start: "inv start"
    and guarded_step: "inv s \<Longrightarrow> legal e \<Longrightarrow> inv (step s e)"
begin

lemma guarded_from: "inv s \<Longrightarrow> list_all legal es \<Longrightarrow> inv (foldl step s es)"
  by (induction es arbitrary: s) (auto intro: guarded_step)

lemma guarded_run: "list_all legal es \<Longrightarrow> inv (foldl step start es)"
  by (rule guarded_from [OF guarded_start])

end

sublocale inv_machine \<subseteq> unguarded: guarded_machine start step inv "\<lambda>_. True"
  by unfold_locales (auto intro: inv_start inv_step)

section \<open>Clamping to the unit interval\<close>

text \<open>\<open>core.clamp01\<close>: NaN and the infinities go to 0.\<close>

fun clamp01 :: "f64 \<Rightarrow> real" where
  "clamp01 NaN = 0"
| "clamp01 PosInf = 0"
| "clamp01 NegInf = 0"
| "clamp01 (Fin x) = (if x < 0 then 0 else if x > 1 then 1 else x)"

lemma clamp01_ge0 [simp, clamp_simps]: "0 \<le> clamp01 x"
  by (cases x) auto

lemma clamp01_le1 [simp, clamp_simps]: "clamp01 x \<le> 1"
  by (cases x) auto

lemma clamp01_id [simp]: "0 \<le> x \<Longrightarrow> x \<le> 1 \<Longrightarrow> clamp01 (Fin x) = x"
  by simp

lemma clamp01_mono: "x \<le> y \<Longrightarrow> clamp01 (Fin x) \<le> clamp01 (Fin y)"
  by simp

lemma go_trunc_int [simp]: "go_trunc (real_of_int n) = n"
  by (simp add: go_trunc_def)

lemma go_trunc_nonneg: "0 \<le> x \<Longrightarrow> 0 \<le> go_trunc x"
  by (simp add: go_trunc_def)

lemma go_trunc_le: "0 \<le> x \<Longrightarrow> real_of_int (go_trunc x) \<le> x"
  by (simp add: go_trunc_def)

lemma go_trunc_gt: "0 \<le> x \<Longrightarrow> x < real_of_int (go_trunc x) + 1"
  by (simp add: go_trunc_def)

lemma go_quot_nonneg: "0 \<le> a \<Longrightarrow> 0 < b \<Longrightarrow> go_quot a b = a div b"
  by (cases "a = 0") (auto simp: go_quot_def)

end
