(* ===== verification/Go_Strings.thy ===== *)
theory Go_Strings
  imports Go_Prelude "HOL-Library.Sublist"
begin

text \<open>
  The parts of Go's \<open>strings\<close>, \<open>strconv\<close> and \<open>fmt\<close> packages that the sources use. A Go string is a
  list of bytes, here a list of characters; white space is the ASCII white space of
  \<open>unicode.IsSpace\<close>. Parsing of floating point numbers is a parameter of the definitions that use it.
\<close>

section \<open>Searching and splitting\<close>

definition is_space :: "char \<Rightarrow> bool" where
  "is_space c \<longleftrightarrow> c \<in> {CHR '' '', CHR 0x09, CHR 0x0A, CHR 0x0B, CHR 0x0C, CHR 0x0D}"

definition TrimSpace :: "string \<Rightarrow> string" where
  "TrimSpace s = rev (dropWhile is_space (rev (dropWhile is_space s)))"

definition TrimRight :: "string \<Rightarrow> string \<Rightarrow> string" where
  "TrimRight s cutset = rev (dropWhile (\<lambda>c. c \<in> set cutset) (rev s))"

abbreviation HasPrefix :: "string \<Rightarrow> string \<Rightarrow> bool" where
  "HasPrefix s p \<equiv> prefix p s"

abbreviation Contains :: "string \<Rightarrow> string \<Rightarrow> bool" where
  "Contains s t \<equiv> sublist t s"

definition TrimPrefix :: "string \<Rightarrow> string \<Rightarrow> string" where
  "TrimPrefix s p = (if HasPrefix s p then drop (length p) s else s)"

text \<open>\<open>IndexByte\<close> and \<open>IndexAny\<close>: the part before the first occurrence and the rest from it on.\<close>

definition break_at :: "(char \<Rightarrow> bool) \<Rightarrow> string \<Rightarrow> (string \<times> string) option" where
  "break_at P s =
     (if (\<exists>c \<in> set s. P c) then Some (takeWhile (\<lambda>c. \<not> P c) s, dropWhile (\<lambda>c. \<not> P c) s) else None)"

text \<open>\<open>strings.Split\<close> with a separator of one byte.\<close>

fun split_on :: "char \<Rightarrow> string \<Rightarrow> string list" where
  "split_on sep [] = [[]]"
| "split_on sep (c # cs) =
     (if c = sep then [] # split_on sep cs
      else case split_on sep cs of [] \<Rightarrow> [[c]] | w # ws \<Rightarrow> (c # w) # ws)"

text \<open>\<open>strings.Fields\<close>: the maximal runs without white space.\<close>

fun fields_acc :: "(char \<Rightarrow> bool) \<Rightarrow> string \<Rightarrow> string \<Rightarrow> string list" where
  "fields_acc sp cur [] = (if cur = [] then [] else [cur])"
| "fields_acc sp cur (c # cs) =
     (if sp c then (if cur = [] then fields_acc sp [] cs else cur # fields_acc sp [] cs)
      else fields_acc sp (cur @ [c]) cs)"

definition Fields :: "string \<Rightarrow> string list" where
  "Fields s = fields_acc is_space [] s"

text \<open>\<open>bufio.Scanner\<close> with the default line split: lines end at a newline, a carriage return before it
  is dropped, and there is no empty last line.\<close>

definition drop_cr :: "string \<Rightarrow> string" where
  "drop_cr s = (if s \<noteq> [] \<and> last s = CHR 0x0D then butlast s else s)"

text \<open>The scanner's buffer is bounded: a line that does not fit ends the scan.\<close>

definition scan_limited :: "nat \<Rightarrow> string \<Rightarrow> string list" where
  "scan_limited n s =
     (let ls = split_on (CHR 0x0A) s
      in map drop_cr (takeWhile (\<lambda>l. length l < n) (if last ls = [] then butlast ls else ls)))"

text \<open>\<open>strings.Index\<close>: what follows the first occurrence of a substring.\<close>

fun after_first :: "string \<Rightarrow> string \<Rightarrow> string option" where
  "after_first sub [] = (if sub = [] then Some [] else None)"
| "after_first sub (c # cs) =
     (if HasPrefix (c # cs) sub then Some (drop (length sub) (c # cs)) else after_first sub cs)"

definition to_lower :: "char \<Rightarrow> char" where
  "to_lower c = (let n = of_char c :: nat in if 65 \<le> n \<and> n \<le> 90 then char_of (n + 32) else c)"

definition ToLower :: "string \<Rightarrow> string" where
  "ToLower s = map to_lower s"

section \<open>Numbers\<close>

definition digit_char :: "nat \<Rightarrow> char" where
  "digit_char d = char_of (48 + d)"

definition is_digit :: "char \<Rightarrow> bool" where
  "is_digit c \<longleftrightarrow> 48 \<le> (of_char c :: nat) \<and> (of_char c :: nat) \<le> 57"

definition digit_val :: "char \<Rightarrow> nat" where
  "digit_val c = of_char c - 48"

fun utoa :: "nat \<Rightarrow> string" where
  "utoa n = (if n < 10 then [digit_char n] else utoa (n div 10) @ [digit_char (n mod 10)])"

declare utoa.simps [simp del]

definition Itoa :: "int \<Rightarrow> string" where
  "Itoa i = (if i < 0 then CHR ''-'' # utoa (nat (- i)) else utoa (nat i))"

definition digits_val :: "string \<Rightarrow> nat" where
  "digits_val s = foldl (\<lambda>n c. 10 * n + digit_val c) 0 s"

text \<open>\<open>strconv.ParseUint(s, 10, 64)\<close> and \<open>strconv.Atoi\<close>: \<open>None\<close> is an error.\<close>

definition ParseUint :: "string \<Rightarrow> nat option" where
  "ParseUint s =
     (if s = [] \<or> \<not> list_all is_digit s \<or> digits_val s \<ge> 2 ^ 64 then None else Some (digits_val s))"

definition Atoi :: "string \<Rightarrow> int option" where
  "Atoi s =
     (let (neg, ds) = (case s of [] \<Rightarrow> (False, [])
                       | c # cs \<Rightarrow> if c = CHR ''-'' then (True, cs)
                                  else if c = CHR ''+'' then (False, cs) else (False, s));
          v = (if neg then - int (digits_val ds) else int (digits_val ds))
      in if ds = [] \<or> \<not> list_all is_digit ds \<or> v < - (2 ^ 63) \<or> v \<ge> 2 ^ 63 then None else Some v)"

section \<open>Facts\<close>

lemma fields_acc_words:
  assumes "list_all (\<lambda>c. \<not> sp c) cur"
  shows "list_all (\<lambda>w. w \<noteq> [] \<and> list_all (\<lambda>c. \<not> sp c) w) (fields_acc sp cur s)"
  using assms by (induction sp cur s rule: fields_acc.induct) simp_all

lemma Fields_words: "list_all (\<lambda>w. w \<noteq> [] \<and> list_all (\<lambda>c. \<not> is_space c) w) (Fields s)"
  using fields_acc_words [of is_space "[]" s] by (simp add: Fields_def)

lemma fields_acc_word:
  "\<forall>c \<in> set w. \<not> sp c \<Longrightarrow> fields_acc sp cur (w @ s) = fields_acc sp (cur @ w) s"
  by (induction w arbitrary: cur) auto

lemma Fields_single: "w \<noteq> [] \<Longrightarrow> \<forall>c \<in> set w. \<not> is_space c \<Longrightarrow> Fields w = [w]"
  using fields_acc_word [of w is_space "[]" "[]"] by (simp add: Fields_def)

lemma TrimSpace_id:
  "s = [] \<or> \<not> is_space (hd s) \<and> \<not> is_space (last s) \<Longrightarrow> TrimSpace s = s"
  by (cases s) (auto simp: TrimSpace_def hd_append hd_rev dropWhile_eq_self_iff split: if_splits)

lemma split_on_nonempty [simp]: "split_on sep s \<noteq> []"
  by (induction s) (auto split: list.split)

lemma split_on_word: "sep \<notin> set w \<Longrightarrow> split_on sep w = [w]"
  by (induction w) auto

lemma split_on_append:
  "sep \<notin> set w \<Longrightarrow> split_on sep (w @ sep # s) = w # split_on sep s"
  by (induction w) auto

lemma digit_char_props [simp]:
  assumes "d < 10"
  shows "is_digit (digit_char d)" "digit_val (digit_char d) = d"
  using assms by (simp_all add: is_digit_def digit_val_def digit_char_def)

lemma digits_val_snoc [simp]: "digits_val (s @ [c]) = 10 * digits_val s + digit_val c"
  by (simp add: digits_val_def)

lemma utoa_digits: "utoa n \<noteq> [] \<and> list_all is_digit (utoa n) \<and> digits_val (utoa n) = n"
proof (induction n rule: utoa.induct)
  case (1 n)
  show ?case
  proof (cases "n < 10")
    case True
    then show ?thesis by (simp add: utoa.simps [of n] digits_val_def)
  next
    case False
    then have "utoa n = utoa (n div 10) @ [digit_char (n mod 10)]" by (simp add: utoa.simps [of n])
    with 1 [OF False] show ?thesis by simp
  qed
qed

lemma utoa_inject [simp]: "utoa m = utoa n \<longleftrightarrow> m = n"
  using utoa_digits by metis

lemma utoa_not_minus: "hd (utoa n) \<noteq> CHR ''-''"
proof -
  have "is_digit (hd (utoa n))" using utoa_digits [of n] by (cases "utoa n") auto
  then show ?thesis by (auto simp: is_digit_def)
qed

lemma Itoa_inject [simp]: "Itoa i = Itoa j \<longleftrightarrow> i = j"
proof
  assume e: "Itoa i = Itoa j"
  have "(i < 0) = (j < 0)"
    using e utoa_not_minus [of "nat i"] utoa_not_minus [of "nat j"] utoa_digits [of "nat i"]
      utoa_digits [of "nat j"]
    by (cases "utoa (nat i)"; cases "utoa (nat j)") (auto simp: Itoa_def split: if_splits)
  with e show "i = j" by (auto simp: Itoa_def split: if_splits)
qed simp

end
