(* ===== verification/Http_Writer.thy ===== *)
theory Http_Writer
  imports Go_Strings "HOL-Library.AList"
begin

text \<open>
  What the handlers use of Go's \<open>http.ResponseWriter\<close>: a header map that can be changed until the
  status line is written, a status that the first \<open>WriteHeader\<close> fixes, and a body. Header names are
  in canonical form (\<open>X-Request-Id\<close>), as \<open>http.Header\<close> keeps them. The second half has what the
  gateway and the data plane share: requests, the reads of a relayed stream, and what the standard
  library decodes from a request body.
\<close>

section \<open>Headers\<close>

type_synonym header = "(string \<times> string list) list"

definition hdr_set :: "string \<Rightarrow> string \<Rightarrow> header \<Rightarrow> header" where
  "hdr_set k v h = AList.update k [v] h"

definition hdr_add :: "string \<Rightarrow> string \<Rightarrow> header \<Rightarrow> header" where
  "hdr_add k v h = AList.update k ((case map_of h k of None \<Rightarrow> [] | Some vs \<Rightarrow> vs) @ [v]) h"

definition hdr_del :: "string \<Rightarrow> header \<Rightarrow> header" where
  "hdr_del k h = AList.delete k h"

text \<open>\<open>Header.Get\<close>: the first value, or the empty string.\<close>

definition hdr_get :: "string \<Rightarrow> header \<Rightarrow> string" where
  "hdr_get k h = (case map_of h k of Some (v # _) \<Rightarrow> v | _ \<Rightarrow> [])"

section \<open>The writer\<close>

text \<open>\<open>wr_sent\<close> is the status and the header as sent, once the status line is written.\<close>

record Writer =
  wr_header :: header
  wr_sent :: "(int \<times> header) option"
  wr_body :: string

definition new_writer :: Writer where
  "new_writer = \<lparr>wr_header = [], wr_sent = None, wr_body = []\<rparr>"

definition WriteHeader :: "int \<Rightarrow> Writer \<Rightarrow> Writer" where
  "WriteHeader status w =
     (case wr_sent w of None \<Rightarrow> w\<lparr>wr_sent := Some (status, wr_header w)\<rparr> | Some _ \<Rightarrow> w)"

definition wr_write :: "string \<Rightarrow> Writer \<Rightarrow> Writer" where
  "wr_write bytes w = (let w1 = WriteHeader 200 w in w1\<lparr>wr_body := wr_body w1 @ bytes\<rparr>)"

definition wr_set :: "string \<Rightarrow> string \<Rightarrow> Writer \<Rightarrow> Writer" where
  "wr_set k v w = w\<lparr>wr_header := hdr_set k v (wr_header w)\<rparr>"

definition wr_add :: "string \<Rightarrow> string \<Rightarrow> Writer \<Rightarrow> Writer" where
  "wr_add k v w = w\<lparr>wr_header := hdr_add k v (wr_header w)\<rparr>"

definition wr_status :: "Writer \<Rightarrow> int option" where
  "wr_status w = map_option fst (wr_sent w)"

section \<open>The status is written once\<close>

lemma wr_status_simps [simp]:
  "wr_status (WriteHeader st w) = (case wr_status w of None \<Rightarrow> Some st | Some s \<Rightarrow> Some s)"
  "wr_status (wr_write b w) = (case wr_status w of None \<Rightarrow> Some 200 | Some s \<Rightarrow> Some s)"
  "wr_status (wr_set k v w) = wr_status w" "wr_status (wr_add k v w) = wr_status w"
  "wr_status new_writer = None"
  by (auto simp: wr_status_def WriteHeader_def wr_write_def wr_set_def wr_add_def new_writer_def Let_def
      split: option.split)

lemma wr_body_simps [simp]:
  "wr_body (WriteHeader st w) = wr_body w" "wr_body (wr_write b w) = wr_body w @ b"
  "wr_body (wr_set k v w) = wr_body w" "wr_body (wr_add k v w) = wr_body w" "wr_body new_writer = []"
  by (auto simp: WriteHeader_def wr_write_def wr_set_def wr_add_def new_writer_def Let_def
      split: option.split)

lemma hdr_get_simps [simp]:
  "hdr_get k (hdr_set k v h) = v" "k \<noteq> j \<Longrightarrow> hdr_get k (hdr_set j v h) = hdr_get k h"
  "hdr_get k (hdr_del k h) = []" "k \<noteq> j \<Longrightarrow> hdr_get k (hdr_del j h) = hdr_get k h"
  by (simp_all add: hdr_get_def hdr_set_def hdr_del_def update_conv' delete_conv')

text \<open>The relation ``what was already sent stays'': the contract every handler keeps.\<close>

definition extends :: "Writer \<Rightarrow> Writer \<Rightarrow> bool" where
  "extends w w' \<longleftrightarrow> prefix (wr_body w) (wr_body w') \<and> (wr_sent w \<noteq> None \<longrightarrow> wr_sent w' = wr_sent w)"

lemma extends_refl [simp, intro]: "extends w w"
  by (simp add: extends_def)

lemma extends_trans [trans]: "extends a b \<Longrightarrow> extends b c \<Longrightarrow> extends a c"
  by (auto simp: extends_def intro: prefix_order.trans)

lemma extends_ops [simp, intro]:
  "extends w (WriteHeader st w)" "extends w (wr_write b w)" "extends w (wr_set k v w)"
  "extends w (wr_add k v w)"
  by (auto simp: extends_def WriteHeader_def wr_write_def wr_set_def wr_add_def Let_def
      split: option.split)

lemma fold_extends: "(\<And>w x. extends w (f w x)) \<Longrightarrow> extends w (foldl f w xs)"
  by (induction xs arbitrary: w) (auto intro: extends_trans)

lemma extends_status: "extends w w' \<Longrightarrow> wr_status w = Some st \<Longrightarrow> wr_status w' = Some st"
  by (auto simp: extends_def wr_status_def)

text \<open>Copying the headers of a reply, without those named in \<open>skip\<close>.\<close>

definition copy_except :: "string list \<Rightarrow> header \<Rightarrow> Writer \<Rightarrow> Writer" where
  "copy_except skip h w =
     foldl (\<lambda>w (k, vals). if k \<in> set skip then w else foldl (\<lambda>w v. wr_add k v w) w vals) w h"

lemma copy_except_extends [simp]: "extends w (copy_except skip h w)"
  unfolding copy_except_def by (rule fold_extends) (auto split: prod.split intro: fold_extends)

section \<open>Requests and streams\<close>

text \<open>\<open>json.Unmarshal\<close> into the four small structs: what the fields hold afterwards. \<open>bd_stream\<close> is
  \<open>None\<close> for an error or a missing field, \<open>bd_contents\<close> is \<open>None\<close> for an error.\<close>

record body_decoder =
  bd_stream :: "string \<Rightarrow> bool option"
  bd_model :: "string \<Rightarrow> string"
  bd_maxTokens :: "string \<Rightarrow> int"
  bd_contents :: "string \<Rightarrow> string list option"

record ClientRequest =
  cr_header :: header
  cr_body :: string
  cr_readErr :: "string option"

datatype read_err = NoErr | EOF | ReadErr string

text \<open>One read of a line from the sidecar: the bytes, the error, whether writing them to the client
  fails, and whether the client's context is done when it is looked at.\<close>

record stream_read =
  sr_line :: string
  sr_err :: read_err
  sr_writeFails :: bool
  sr_ctxDone :: bool

datatype upstream_reply = ConnErr string | Reply int header string "stream_read list"

text \<open>The characters of a correlation identifier.\<close>

definition id_char :: "char \<Rightarrow> bool" where
  "id_char c \<longleftrightarrow> c = CHR ''-'' \<or> c = CHR ''_'' \<or> c = CHR ''.'' \<or>
     (let n = of_char c :: nat in (48 \<le> n \<and> n \<le> 57) \<or> (97 \<le> n \<and> n \<le> 122) \<or> (65 \<le> n \<and> n \<le> 90))"

end
