(* ===== verification/Core_Model.thy ===== *)
theory Core_Model
  imports Go_Prelude
begin

text \<open>
  The normalized cross-vendor data contract of \<open>internal/core/model.go\<close>: vendors, lifecycle
  states, \<open>Field\<close>, and the records that the other components exchange. A record field carries the
  Go field's name behind a short prefix that names the struct, because Isabelle's selectors are
  global (\<open>h_GPUVisible\<close> is \<open>Health.GPUVisible\<close>). A Go pointer to a time is an \<open>option\<close>.
\<close>

section \<open>Enumerations\<close>

datatype Vendor = VendorNVIDIA | VendorAMD | VendorUnknown

datatype LifecycleState =
    StateUnknown | StateReady | StateBusy | StateDegraded | StateDraining | StateOffline
  | StateRecovering

text \<open>The strings that the states are on the wire.\<close>

fun state_string :: "LifecycleState \<Rightarrow> string" where
  "state_string StateUnknown = ''UNKNOWN''"
| "state_string StateReady = ''READY''"
| "state_string StateBusy = ''BUSY''"
| "state_string StateDegraded = ''DEGRADED''"
| "state_string StateDraining = ''DRAINING''"
| "state_string StateOffline = ''OFFLINE''"
| "state_string StateRecovering = ''RECOVERING''"

lemma state_string_inject [simp]: "state_string a = state_string b \<longleftrightarrow> a = b"
  by (cases a; cases b) auto

datatype FailureClass = FailureNone | FailureHard | FailureSoft

section \<open>Values that may be unsupported\<close>

record 'a Field =
  fValue :: 'a
  fSupported :: bool

definition Sup :: "'a \<Rightarrow> 'a Field" where
  "Sup v = \<lparr>fValue = v, fSupported = True\<rparr>"

text \<open>\<open>Unsup[T]()\<close> carries the zero value of \<open>T\<close>, given here as an argument.\<close>

definition Unsup :: "'a \<Rightarrow> 'a Field" where
  "Unsup z = \<lparr>fValue = z, fSupported = False\<rparr>"

lemma Sup_simps [simp]: "fValue (Sup v) = v" "fSupported (Sup v)"
  by (simp_all add: Sup_def)

lemma Unsup_simps [simp]: "fValue (Unsup v) = v" "\<not> fSupported (Unsup v)"
  by (simp_all add: Unsup_def)

section \<open>Records\<close>

record Identity =
  id_SidecarInstanceID :: string
  id_Hostname :: string
  id_BackendID :: string
  id_Vendor :: Vendor
  id_DeviceID :: string
  id_GPUModel :: string
  id_GPUUUID :: string
  id_DriverVersion :: string
  id_RuntimeVersion :: string
  id_BootID :: string
  id_SidecarVersion :: string

record ProbeFailure =
  pf_Class :: FailureClass
  pf_Reason :: string
  pf_Detail :: string

record Health =
  h_Timestamp :: walltime
  h_HeartbeatOK :: bool
  h_GPUVisible :: bool
  h_GPUAccessible :: bool
  h_UtilizationGPU :: "f64 Field"
  h_MemUsedBytes :: "64 word Field"
  h_MemFreeBytes :: "64 word Field"
  h_MemTotalBytes :: "64 word Field"
  h_TemperatureC :: "f64 Field"
  h_PowerWatts :: "f64 Field"
  h_PowerLimitWatts :: "f64 Field"
  h_SMClockMHz :: "f64 Field"
  h_MemClockMHz :: "f64 Field"
  h_ComputeProcs :: "int Field"
  h_EffectiveFreeMemRatio :: real
  h_ProbeLatencyMs :: real
  h_ProbeFailure :: ProbeFailure
  h_ECCUncorrectable :: "64 word Field"
  h_ECCCorrectable :: "64 word Field"
  h_XIDErrors :: "int list Field"
  h_RASUncorrectable :: "64 word Field"
  h_RASCorrectable :: "64 word Field"
  h_UnsupportedFields :: "string list"

text \<open>The zero value of \<open>Health\<close>, which \<open>deviceState.lastStatus\<close> holds before the first poll.\<close>

definition zero_Health :: Health where
  "zero_Health = \<lparr>
     h_Timestamp = 0, h_HeartbeatOK = False, h_GPUVisible = False, h_GPUAccessible = False,
     h_UtilizationGPU = Unsup (Fin 0), h_MemUsedBytes = Unsup 0, h_MemFreeBytes = Unsup 0,
     h_MemTotalBytes = Unsup 0, h_TemperatureC = Unsup (Fin 0), h_PowerWatts = Unsup (Fin 0),
     h_PowerLimitWatts = Unsup (Fin 0), h_SMClockMHz = Unsup (Fin 0),
     h_MemClockMHz = Unsup (Fin 0), h_ComputeProcs = Unsup 0, h_EffectiveFreeMemRatio = 0,
     h_ProbeLatencyMs = 0,
     h_ProbeFailure = \<lparr>pf_Class = FailureNone, pf_Reason = [], pf_Detail = []\<rparr>,
     h_ECCUncorrectable = Unsup 0, h_ECCCorrectable = Unsup 0, h_XIDErrors = Unsup [],
     h_RASUncorrectable = Unsup 0, h_RASCorrectable = Unsup 0, h_UnsupportedFields = []\<rparr>"

record Reliability =
  r_LastSuccessfulProbe :: "walltime option"
  r_LastFailedProbe :: "walltime option"
  r_ConsecutiveFailures :: int
  r_SidecarStartCount :: int
  r_WorkerStarts :: int
  r_WorkerStops :: int
  r_DisconnectCount :: int
  r_RejoinCount :: int
  r_LastRecoveryMs :: real
  r_RecentAvailability :: real
  r_RecentFailureRate :: real
  r_ProbeLatencyP50Ms :: real
  r_ProbeLatencyP95Ms :: real
  r_ThroughputVariance :: "f64 Field"

definition zero_Reliability :: Reliability where
  "zero_Reliability = \<lparr>
     r_LastSuccessfulProbe = None, r_LastFailedProbe = None, r_ConsecutiveFailures = 0,
     r_SidecarStartCount = 0, r_WorkerStarts = 0, r_WorkerStops = 0, r_DisconnectCount = 0,
     r_RejoinCount = 0, r_LastRecoveryMs = 0, r_RecentAvailability = 0, r_RecentFailureRate = 0,
     r_ProbeLatencyP50Ms = 0, r_ProbeLatencyP95Ms = 0, r_ThroughputVariance = Unsup (Fin 0)\<rparr>"

text \<open>\<open>Components map[string]float64\<close> is an association list: its keys are fixed literals.\<close>

record StabilityScore =
  ss_Score :: real
  ss_Components :: "(string \<times> real) list"
  ss_UpdatedAt :: walltime

record LifecycleInfo =
  li_State :: LifecycleState
  li_ReasonCodes :: "string list"
  li_ConsecutiveSoftFailures :: int
  li_OfflineFailureThreshold :: int
  li_HealthyStreak :: int
  li_RecoveryStreakRequired :: int
  li_HardOffline :: bool
  li_RecoveryLatched :: bool
  li_RecoveryHealthyStreak :: int

text \<open>The host sidecar never fills \<open>RuntimeServingCapacity\<close>: the pointer stays nil and the
  record has no field for it.\<close>

record CapacityHint =
  ch_HostCapacityHint :: real
  ch_CapacitySemantics :: string
  ch_Components :: "(string \<times> real) list"
  ch_RuntimeServingCapacitySupported :: bool

record DeviceStatus =
  ds_Identity :: Identity
  ds_Health :: Health
  ds_LifecycleState :: LifecycleState
  ds_Lifecycle :: LifecycleInfo
  ds_Reliability :: Reliability
  ds_Stability :: StabilityScore
  ds_Capacity :: CapacityHint

text \<open>A device that was not polled yet reports the zero \<open>DeviceStatus\<close>, here \<open>None\<close>.\<close>

record HostStatus =
  hs_SidecarInstanceID :: string
  hs_Hostname :: string
  hs_Vendor :: Vendor
  hs_SidecarVersion :: string
  hs_BootID :: string
  hs_Timestamp :: walltime
  hs_UptimeSeconds :: real
  hs_Devices :: "DeviceStatus option list"

datatype EventKind =
    EventStateTransition | EventProbeFailure | EventProbeRecovered | EventDisconnect
  | EventRejoin | EventErrorCounter | EventWorkerObserved | EventWorkerStarted
  | EventWorkerDisappeared | EventWorkerExitObserved | EventWorkerCrashConfirmed
  | EventWorkerOOMConfirmed | EventWorkerTerminationUnknown

datatype TerminationCause = CauseNone | CauseUnknown | CauseGraceful | CauseCrash | CauseOOM

text \<open>The \<open>any\<close>-valued evidence map, as an association list of tagged values.\<close>

datatype EvidenceValue = EvBool bool | EvInt int | EvReal real | EvString string

record Event =
  ev_Timestamp :: walltime
  ev_DeviceID :: string
  ev_Kind :: EventKind
  ev_From :: "LifecycleState option"
  ev_To :: "LifecycleState option"
  ev_Detail :: string
  ev_Evidence :: "(string \<times> EvidenceValue) list"
  ev_TerminationCause :: TerminationCause
  ev_GroundTruthSource :: string
  ev_ReasonCodes :: "string list"

record HistoryPoint =
  hp_Timestamp :: walltime
  hp_DeviceID :: string
  hp_LifecycleState :: LifecycleState
  hp_StabilityScore :: real
  hp_UtilGPU :: f64
  hp_MemUsedBytes :: "64 word"
  hp_TemperatureC :: f64
  hp_ProbeOK :: bool
  hp_ProbeLatencyMs :: real

end
