(* ===== verification/Lifecycle.thy ===== *)
theory Lifecycle
  imports Core_Model
begin

text \<open>
  The per-device lifecycle state machine of \<open>internal/core/lifecycle.go\<close>. \<open>LifecycleMachine\<close> is
  the Go struct without its mutex: every exported method takes the mutex for its whole body, so a
  history of calls is a sequence of operations, the datatype \<open>LifecycleOp\<close>. \<open>Step\<close> is split along
  its own early returns: hard evidence, soft failure, and the healthy path with its recovery latch
  and its confirmation counter.

  The lemmas show the invariant of the latch, what the counters count, and from these: exactly
  when a device goes OFFLINE, that no path leaves recovery without the hold time and the streak,
  how many samples a READY/BUSY change takes, and that a drain takes effect on one probe.
\<close>

section \<open>Reason codes and configuration\<close>

definition ReasonHealthy :: string where "ReasonHealthy = ''HEALTHY''"
definition ReasonGPUNotVisible :: string where "ReasonGPUNotVisible = ''GPU_NOT_VISIBLE''"
definition ReasonGPUAccessProbeFail :: string where
  "ReasonGPUAccessProbeFail = ''GPU_ACCESS_PROBE_FAILED''"
definition ReasonProbeTimeout :: string where "ReasonProbeTimeout = ''PROBE_TIMEOUT''"
definition ReasonProbeFailure :: string where "ReasonProbeFailure = ''PROBE_FAILURE''"
definition ReasonOfflineThreshold :: string where
  "ReasonOfflineThreshold = ''OFFLINE_FAILURE_THRESHOLD_REACHED''"
definition ReasonAdapterInitFailed :: string where
  "ReasonAdapterInitFailed = ''ADAPTER_INIT_FAILED''"
definition ReasonDeviceDisappeared :: string where
  "ReasonDeviceDisappeared = ''DEVICE_DISAPPEARED''"
definition ReasonLowStability :: string where "ReasonLowStability = ''LOW_STABILITY_SCORE''"
definition ReasonUncorrErrors :: string where "ReasonUncorrErrors = ''UNCORRECTABLE_ERRORS''"
definition ReasonHighUtil :: string where "ReasonHighUtil = ''HIGH_UTILIZATION''"
definition ReasonLowFreeMem :: string where "ReasonLowFreeMem = ''LOW_FREE_MEMORY''"
definition ReasonOperatorDrain :: string where "ReasonOperatorDrain = ''OPERATOR_DRAIN''"
definition ReasonRecoveryHold :: string where "ReasonRecoveryHold = ''RECOVERY_HOLD''"
definition ReasonRecoveryStreakMet :: string where
  "ReasonRecoveryStreakMet = ''RECOVERY_STREAK_MET''"

record LifecycleConfig =
  lc_BusyUtilPct :: real
  lc_BusyMemRatio :: real
  lc_DegradedScore :: real
  lc_OfflineFailures :: int
  lc_ConfirmSamples :: int
  lc_RecoveringHoldSec :: real
  lc_RecoveryStreak :: int

definition DefaultLifecycleConfig :: LifecycleConfig where
  "DefaultLifecycleConfig = \<lparr>lc_BusyUtilPct = 80, lc_BusyMemRatio = 10 / 100,
     lc_DegradedScore = 55 / 100, lc_OfflineFailures = 3, lc_ConfirmSamples = 2,
     lc_RecoveringHoldSec = 5, lc_RecoveryStreak = 3\<rparr>"

section \<open>The machine and its input\<close>

record LifecycleMachine =
  lm_cfg :: LifecycleConfig
  lm_state :: LifecycleState
  lm_pending :: LifecycleState
  lm_pendingCount :: int
  lm_draining :: bool
  lm_softFailures :: int
  lm_healthyStreak :: int
  lm_hardOffline :: bool
  lm_recoveryLatched :: bool
  lm_recoveryStartedAt :: duration
  lm_recoveryHealthyStreak :: int
  lm_offlineSince :: duration
  lm_recoverStart :: duration
  lm_hasBeenOffline :: bool
  lm_reasonCodes :: "string list"

definition NewLifecycleMachine :: "LifecycleConfig \<Rightarrow> LifecycleMachine" where
  "NewLifecycleMachine cfg = \<lparr>lm_cfg = cfg, lm_state = StateUnknown, lm_pending = StateUnknown,
     lm_pendingCount = 0, lm_draining = False, lm_softFailures = 0, lm_healthyStreak = 0,
     lm_hardOffline = False, lm_recoveryLatched = False, lm_recoveryStartedAt = 0,
     lm_recoveryHealthyStreak = 0, lm_offlineSince = 0, lm_recoverStart = 0,
     lm_hasBeenOffline = False, lm_reasonCodes = []\<rparr>"

record LifecycleObservation =
  o_ProbeOK :: bool
  o_GPUVisible :: bool
  o_GPUAccessible :: bool
  o_HardOfflineEvidence :: bool
  o_SoftFailure :: bool
  o_UtilPct :: f64
  o_UtilSupported :: bool
  o_FreeMemRatio :: real
  o_StabilityScore :: real
  o_NewUncorrErrors :: "64 word"
  o_Mono :: duration
  o_ProbeFailReason :: string

definition SetDraining :: "bool \<Rightarrow> LifecycleMachine \<Rightarrow> LifecycleMachine" where
  "SetDraining d m = m\<lparr>lm_draining := d\<rparr>"

definition SetDrainingChecked ::
  "bool \<Rightarrow> LifecycleMachine \<Rightarrow> LifecycleMachine \<times> LifecycleState \<times> bool" where
  "SetDrainingChecked d m =
     (if lm_draining m = d then (m, lm_state m, False)
      else (m\<lparr>lm_draining := d\<rparr>, lm_state m, True))"

definition Info :: "LifecycleMachine \<Rightarrow> LifecycleInfo" where
  "Info m = \<lparr>li_State = lm_state m,
     li_ReasonCodes = (if lm_reasonCodes m = [] then [ReasonHealthy] else lm_reasonCodes m),
     li_ConsecutiveSoftFailures = lm_softFailures m,
     li_OfflineFailureThreshold = lc_OfflineFailures (lm_cfg m),
     li_HealthyStreak = lm_healthyStreak m,
     li_RecoveryStreakRequired = lc_RecoveryStreak (lm_cfg m),
     li_HardOffline = lm_hardOffline m,
     li_RecoveryLatched = lm_recoveryLatched m,
     li_RecoveryHealthyStreak = lm_recoveryHealthyStreak m\<rparr>"

definition classifyHealthy ::
  "LifecycleMachine \<Rightarrow> LifecycleObservation \<Rightarrow> LifecycleState \<times> string list" where
  "classifyHealthy m ob =
     (if lm_draining m then (StateDraining, [ReasonOperatorDrain])
      else if o_StabilityScore ob < lc_DegradedScore (lm_cfg m)
        then (StateDegraded, [ReasonLowStability])
      else if o_NewUncorrErrors ob > 0 then (StateDegraded, [ReasonUncorrErrors])
      else if o_UtilSupported ob \<and> f64_le (Fin (lc_BusyUtilPct (lm_cfg m))) (o_UtilPct ob)
        then (StateBusy, [ReasonHighUtil])
      else if o_FreeMemRatio ob \<le> lc_BusyMemRatio (lm_cfg m)
        then (StateBusy, [ReasonLowFreeMem])
      else (StateReady, [ReasonHealthy]))"

definition hardReasons :: "LifecycleObservation \<Rightarrow> string list" where
  "hardReasons ob =
     (let r1 = (if \<not> o_GPUVisible ob then [ReasonGPUNotVisible] else []);
          r2 = (if o_HardOfflineEvidence ob
                then r1 @ [if o_ProbeFailReason ob \<noteq> [] then o_ProbeFailReason ob
                           else ReasonDeviceDisappeared]
                else r1)
      in if r2 = [] then [ReasonDeviceDisappeared] else r2)"

definition softReason :: "LifecycleObservation \<Rightarrow> string" where
  "softReason ob =
     (if o_ProbeFailReason ob \<noteq> [] then o_ProbeFailReason ob
      else if \<not> o_GPUAccessible ob then ReasonGPUAccessProbeFail
      else ReasonProbeFailure)"

section \<open>The step\<close>

definition obs_hard :: "LifecycleObservation \<Rightarrow> bool" where
  "obs_hard ob \<longleftrightarrow> o_HardOfflineEvidence ob \<or> (\<not> o_GPUVisible ob \<and> \<not> o_SoftFailure ob)"

definition obs_soft :: "LifecycleObservation \<Rightarrow> bool" where
  "obs_soft ob \<longleftrightarrow>
     \<not> obs_hard ob \<and> (o_SoftFailure ob \<or> \<not> o_GPUAccessible ob \<or> \<not> o_ProbeOK ob)"

definition obs_healthy :: "LifecycleObservation \<Rightarrow> bool" where
  "obs_healthy ob \<longleftrightarrow> \<not> obs_hard ob \<and> \<not> obs_soft ob"

type_synonym step_result = "LifecycleMachine \<times> LifecycleState \<times> bool"

definition go_offline :: "duration \<Rightarrow> LifecycleMachine \<Rightarrow> LifecycleMachine" where
  "go_offline t m =
     (if lm_state m \<noteq> StateOffline then m\<lparr>lm_offlineSince := t, lm_hasBeenOffline := True\<rparr>
      else m)"

definition step_hard :: "LifecycleMachine \<Rightarrow> LifecycleObservation \<Rightarrow> step_result" where
  [lm_defs]: "step_hard m ob =
     (let m1 = go_offline (o_Mono ob)
                 (m\<lparr>lm_softFailures := 0, lm_healthyStreak := 0, lm_recoveryHealthyStreak := 0,
                    lm_reasonCodes := hardReasons ob\<rparr>);
          m2 = m1\<lparr>lm_hardOffline := True, lm_recoveryLatched := True, lm_state := StateOffline,
                  lm_pending := StateOffline, lm_pendingCount := 0\<rparr>
      in (m2, lm_state m2, lm_state m \<noteq> lm_state m2))"

definition step_soft :: "LifecycleMachine \<Rightarrow> LifecycleObservation \<Rightarrow> step_result" where
  [lm_defs]: "step_soft m ob =
     (let m1 = m\<lparr>lm_softFailures := lm_softFailures m + 1, lm_healthyStreak := 0,
                 lm_recoveryHealthyStreak := 0\<rparr>
      in if lm_softFailures m1 \<ge> lc_OfflineFailures (lm_cfg m) then
           (let m2 = go_offline (o_Mono ob)
                       (m1\<lparr>lm_reasonCodes := [ReasonOfflineThreshold, softReason ob]\<rparr>);
                m3 = m2\<lparr>lm_hardOffline := False, lm_recoveryLatched := True,
                        lm_state := StateOffline, lm_pending := StateOffline,
                        lm_pendingCount := 0\<rparr>
            in (m3, lm_state m3, lm_state m \<noteq> lm_state m3))
         else if lm_state m1 = StateOffline then
           (let m2 = m1\<lparr>lm_reasonCodes := [softReason ob]\<rparr> in (m2, lm_state m2, False))
         else if lm_recoveryLatched m1 then
           (let m2 = m1\<lparr>lm_state := StateRecovering,
                        lm_reasonCodes := [ReasonRecoveryHold, softReason ob]\<rparr>
            in (m2, lm_state m2, lm_state m \<noteq> lm_state m2))
         else
           (let m2 = m1\<lparr>lm_reasonCodes := [softReason ob], lm_state := StateDegraded,
                        lm_pending := StateDegraded, lm_pendingCount := 0\<rparr>
            in (m2, lm_state m2, lm_state m1 \<noteq> StateDegraded)))"

text \<open>The healthy path, after \<open>softFailures = 0\<close> and \<open>healthyStreak++\<close>: leaving OFFLINE, under
  the recovery latch, and the normal hysteresis.\<close>

definition step_rejoin :: "LifecycleMachine \<Rightarrow> LifecycleObservation \<Rightarrow> step_result" where
  [lm_defs]: "step_rejoin m ob =
     (let m1 = m\<lparr>lm_state := StateRecovering, lm_recoverStart := o_Mono ob,
                 lm_recoveryStartedAt := o_Mono ob, lm_recoveryHealthyStreak := 1,
                 lm_pending := StateRecovering, lm_pendingCount := 0,
                 lm_reasonCodes := [ReasonRecoveryHold]\<rparr>
      in (m1, lm_state m1, True))"

definition step_latched :: "LifecycleMachine \<Rightarrow> LifecycleObservation \<Rightarrow> step_result" where
  [lm_defs]: "step_latched m ob =
     (let m1 = m\<lparr>lm_recoveryHealthyStreak := lm_recoveryHealthyStreak m + 1\<rparr>;
          held = dur_Seconds (o_Mono ob - lm_recoveryStartedAt m1);
          target = fst (classifyHealthy m1 ob);
          reasons = snd (classifyHealthy m1 ob)
      in if held \<ge> lc_RecoveringHoldSec (lm_cfg m1)
            \<and> lm_recoveryHealthyStreak m1 \<ge> lc_RecoveryStreak (lm_cfg m1) then
           (let m2 = m1\<lparr>lm_recoveryLatched := False, lm_state := target, lm_pending := target,
                        lm_pendingCount := 0,
                        lm_reasonCodes := [ReasonRecoveryStreakMet] @ reasons\<rparr>
            in (m2, lm_state m2, lm_state m \<noteq> lm_state m2))
         else
           (let m2 = m1\<lparr>lm_state := StateRecovering,
                        lm_reasonCodes :=
                          [ReasonRecoveryHold] @
                          (if target = StateDegraded \<or> target = StateBusy then reasons else [])\<rparr>
            in (m2, lm_state m2, lm_state m \<noteq> lm_state m2)))"

definition step_normal :: "LifecycleMachine \<Rightarrow> LifecycleObservation \<Rightarrow> step_result" where
  [lm_defs]: "step_normal m ob =
     (let target = fst (classifyHealthy m ob);
          reasons = snd (classifyHealthy m ob)
      in if target = lm_state m then
           (let m1 = m\<lparr>lm_pending := target, lm_pendingCount := 0, lm_reasonCodes := reasons\<rparr>
            in (m1, lm_state m1, False))
         else if lm_state m = StateDegraded \<and> (target = StateReady \<or> target = StateBusy) then
           (let m1 = m\<lparr>lm_state := target, lm_pending := target, lm_pendingCount := 0,
                       lm_reasonCodes := reasons\<rparr>
            in (m1, lm_state m1, True))
         else
           (let m1 = (if target = lm_pending m
                      then m\<lparr>lm_pendingCount := lm_pendingCount m + 1\<rparr>
                      else m\<lparr>lm_pending := target, lm_pendingCount := 1\<rparr>);
                need = (if target = StateDegraded \<or> target = StateDraining then 1
                        else lc_ConfirmSamples (lm_cfg m))
            in if lm_pendingCount m1 \<ge> need then
                 (let m2 = m1\<lparr>lm_state := target, lm_pendingCount := 0,
                              lm_reasonCodes := reasons\<rparr>
                  in (m2, lm_state m2, True))
               else
                 (let m2 = m1\<lparr>lm_reasonCodes := reasons\<rparr> in (m2, lm_state m2, False))))"

definition step_healthy :: "LifecycleMachine \<Rightarrow> LifecycleObservation \<Rightarrow> step_result" where
  [lm_defs]: "step_healthy m ob =
     (let m1 = m\<lparr>lm_softFailures := 0, lm_healthyStreak := lm_healthyStreak m + 1\<rparr>
      in if lm_state m1 = StateOffline then step_rejoin m1 ob
         else if lm_recoveryLatched m1 then step_latched m1 ob
         else step_normal m1 ob)"

definition Step :: "LifecycleMachine \<Rightarrow> LifecycleObservation \<Rightarrow> step_result" where
  "Step m ob =
     (if obs_hard ob then step_hard m ob
      else if obs_soft ob then step_soft m ob
      else step_healthy m ob)"

section \<open>Histories of calls\<close>

datatype LifecycleOp = OpStep LifecycleObservation | OpSetDraining bool

fun lm_apply :: "LifecycleMachine \<Rightarrow> LifecycleOp \<Rightarrow> LifecycleMachine" where
  "lm_apply m (OpStep ob) = fst (Step m ob)"
| "lm_apply m (OpSetDraining d) = fst (SetDrainingChecked d m)"

definition lm_run :: "LifecycleConfig \<Rightarrow> LifecycleOp list \<Rightarrow> LifecycleMachine" where
  "lm_run cfg ops = foldl lm_apply (NewLifecycleMachine cfg) ops"

fun observations :: "LifecycleOp list \<Rightarrow> LifecycleObservation list" where
  "observations [] = []"
| "observations (OpStep ob # ops) = ob # observations ops"
| "observations (OpSetDraining d # ops) = observations ops"

text \<open>What the latch promises: recovery is latched exactly in OFFLINE and RECOVERING.\<close>

definition latch_inv :: "LifecycleMachine \<Rightarrow> bool" where
  "latch_inv m \<longleftrightarrow>
     (lm_recoveryLatched m \<longleftrightarrow> lm_state m = StateOffline \<or> lm_state m = StateRecovering) \<and>
     (lm_recoveryLatched m \<longrightarrow> lm_hasBeenOffline m) \<and>
     (lm_state m = StateOffline \<longrightarrow> lm_recoveryHealthyStreak m = 0) \<and>
     0 \<le> lm_softFailures m \<and> 0 \<le> lm_healthyStreak m \<and>
     (0 < lm_softFailures m \<longrightarrow> lm_healthyStreak m = 0) \<and>
     0 \<le> lm_pendingCount m"

section \<open>Facts shared by the proofs\<close>

lemma classify_range:
  "fst (classifyHealthy m ob) \<in> {StateDraining, StateDegraded, StateBusy, StateReady}"
  by (auto simp: classifyHealthy_def)

lemma classify_not_recovery [simp]:
  "fst (classifyHealthy m ob) \<noteq> StateOffline" "fst (classifyHealthy m ob) \<noteq> StateRecovering"
  "fst (classifyHealthy m ob) \<noteq> StateUnknown"
  using classify_range [of m ob] by auto

text \<open>\<open>classifyHealthy\<close> reads the configuration and the drain flag only.\<close>

lemma classify_cong:
  "lm_cfg m = lm_cfg m' \<Longrightarrow> lm_draining m = lm_draining m' \<Longrightarrow>
   classifyHealthy m ob = classifyHealthy m' ob"
  by (simp add: classifyHealthy_def)

lemma classify_draining: "lm_draining m \<Longrightarrow> fst (classifyHealthy m ob) = StateDraining"
  by (simp add: classifyHealthy_def)

lemma go_offline_simps [simp]:
  "lm_cfg (go_offline t m) = lm_cfg m" "lm_state (go_offline t m) = lm_state m"
  "lm_pending (go_offline t m) = lm_pending m" "lm_draining (go_offline t m) = lm_draining m"
  "lm_softFailures (go_offline t m) = lm_softFailures m"
  "lm_healthyStreak (go_offline t m) = lm_healthyStreak m"
  "lm_recoveryHealthyStreak (go_offline t m) = lm_recoveryHealthyStreak m"
  "lm_recoveryStartedAt (go_offline t m) = lm_recoveryStartedAt m"
  "lm_reasonCodes (go_offline t m) = lm_reasonCodes m"
  "lm_hasBeenOffline (go_offline t m) = (lm_state m \<noteq> StateOffline \<or> lm_hasBeenOffline m)"
  by (auto simp: go_offline_def)

text \<open>The three ways through \<open>Step\<close>.\<close>

lemma Step_cases:
  obtains (hard) "obs_hard ob" "\<not> obs_soft ob" "\<not> obs_healthy ob" "Step m ob = step_hard m ob"
  | (soft) "obs_soft ob" "\<not> obs_hard ob" "\<not> obs_healthy ob" "Step m ob = step_soft m ob"
  | (healthy) "obs_healthy ob" "\<not> obs_hard ob" "\<not> obs_soft ob" "Step m ob = step_healthy m ob"
  by (auto simp: Step_def obs_healthy_def obs_soft_def)

lemma Step_cfg [simp]: "lm_cfg (fst (Step m ob)) = lm_cfg m"
  by (cases rule: Step_cases [of ob m]) (auto simp: lm_defs Let_def)

lemma Step_draining [simp]: "lm_draining (fst (Step m ob)) = lm_draining m"
  by (cases rule: Step_cases [of ob m]) (auto simp: lm_defs Let_def)

lemma lm_apply_cfg [simp]: "lm_cfg (lm_apply m op) = lm_cfg m"
  by (cases op) (auto simp: SetDrainingChecked_def)

lemma SetDrainingChecked_state [simp]:
  "fst (SetDrainingChecked d m) = m\<lparr>lm_draining := d\<rparr>"
  by (simp add: SetDrainingChecked_def)

lemma lm_run_snoc [simp]: "lm_run cfg (ops @ [op]) = lm_apply (lm_run cfg ops) op"
  by (simp add: lm_run_def)

lemma lm_run_Nil [simp]: "lm_run cfg [] = NewLifecycleMachine cfg"
  by (simp add: lm_run_def)

lemma lm_run_cfg [simp]: "lm_cfg (lm_run cfg ops) = cfg"
  by (induction ops rule: rev_induct) (auto simp: NewLifecycleMachine_def)

lemma observations_append [simp]:
  "observations (xs @ ys) = observations xs @ observations ys"
  by (induction xs rule: observations.induct) auto

section \<open>The latch invariant\<close>

lemma latch_inv_new: "latch_inv (NewLifecycleMachine cfg)"
  by (simp add: latch_inv_def NewLifecycleMachine_def)

lemma latch_inv_Step: "latch_inv m \<Longrightarrow> latch_inv (fst (Step m ob))"
  by (cases rule: Step_cases [of ob m]) (auto simp: latch_inv_def lm_defs Let_def)

lemma latch_inv_apply: "latch_inv m \<Longrightarrow> latch_inv (lm_apply m op)"
  by (cases op) (simp_all add: latch_inv_Step, simp add: latch_inv_def)

interpretation lm: inv_machine "NewLifecycleMachine cfg" lm_apply latch_inv
  by unfold_locales (simp_all add: latch_inv_new latch_inv_apply)

lemma latch_inv_run: "latch_inv (lm_run cfg ops)"
  unfolding lm_run_def by (rule lm.inv_run)

lemma latched_iff:
  "lm_recoveryLatched (lm_run cfg ops) \<longleftrightarrow>
   lm_state (lm_run cfg ops) = StateOffline \<or> lm_state (lm_run cfg ops) = StateRecovering"
  using latch_inv_run [of cfg ops] by (simp add: latch_inv_def)

section \<open>What the counters count\<close>

text \<open>\<open>softFailures\<close> is the number of soft failures at the end of the history of probes.\<close>

lemma softFailures_counts:
  "lm_softFailures (lm_run cfg ops) = int (trailing obs_soft (observations ops))"
proof (induction ops rule: rev_induct)
  case Nil
  then show ?case by (simp add: NewLifecycleMachine_def)
next
  case (snoc op ops)
  show ?case
  proof (cases op)
    case (OpStep ob)
    then show ?thesis
      using snoc.IH by (cases rule: Step_cases [of ob "lm_run cfg ops"]) (auto simp: lm_defs Let_def)
  next
    case (OpSetDraining d)
    then show ?thesis using snoc.IH by simp
  qed
qed

text \<open>While recovery is latched, \<open>recoveryHealthyStreak\<close> is the number of healthy probes at the end
  of the history.\<close>

lemma recoveryStreak_counts:
  "lm_recoveryLatched (lm_run cfg ops) \<Longrightarrow>
   lm_recoveryHealthyStreak (lm_run cfg ops) = int (trailing obs_healthy (observations ops))"
proof (induction ops rule: rev_induct)
  case Nil
  then show ?case by (simp add: NewLifecycleMachine_def)
next
  case (snoc op ops)
  show ?case
  proof (cases op)
    case (OpStep ob)
    have "latch_inv (lm_run cfg ops)" by (rule latch_inv_run)
    then show ?thesis
      using snoc OpStep
      by (cases rule: Step_cases [of ob "lm_run cfg ops"])
         (auto simp: lm_defs Let_def latch_inv_def split: if_splits)
  next
    case (OpSetDraining d)
    then show ?thesis using snoc by simp
  qed
qed

text \<open>Where a device in RECOVERING came from: a healthy probe in OFFLINE, since when it has been
  RECOVERING all the time, and whose clock reading is the start of the hold.\<close>

definition rejoined_at :: "LifecycleConfig \<Rightarrow> LifecycleOp list \<Rightarrow> LifecycleObservation \<Rightarrow> bool" where
  "rejoined_at cfg ops r \<longleftrightarrow>
     (\<exists>pre post. ops = pre @ OpStep r # post \<and> lm_state (lm_run cfg pre) = StateOffline \<and>
        obs_healthy r \<and>
        (\<forall>k \<le> length post.
           lm_state (lm_run cfg (pre @ OpStep r # take k post)) = StateRecovering))"

lemma rejoined_at_extend:
  assumes "rejoined_at cfg ops r" and "lm_state (lm_run cfg (ops @ [op])) = StateRecovering"
  shows "rejoined_at cfg (ops @ [op]) r"
proof -
  obtain pre post where *: "ops = pre @ OpStep r # post" "lm_state (lm_run cfg pre) = StateOffline"
      "obs_healthy r"
      "\<forall>k \<le> length post. lm_state (lm_run cfg (pre @ OpStep r # take k post)) = StateRecovering"
    using assms(1) unfolding rejoined_at_def by blast
  have "lm_state (lm_run cfg (pre @ OpStep r # take k (post @ [op]))) = StateRecovering"
    if "k \<le> length (post @ [op])" for k
    using that * assms(2) by (cases "k = Suc (length post)") auto
  then show ?thesis
    using * unfolding rejoined_at_def by (intro exI [of _ pre] exI [of _ "post @ [op]"]) simp
qed

lemma rejoined_at_start:
  assumes "lm_state (lm_run cfg ops) = StateOffline" and "obs_healthy r"
    and "lm_state (lm_run cfg (ops @ [OpStep r])) = StateRecovering"
  shows "rejoined_at cfg (ops @ [OpStep r]) r"
  using assms unfolding rejoined_at_def
  by (intro exI [of _ ops] exI [of _ "[]"]) simp

lemma recovering_step_cases:
  assumes "latch_inv m" and "lm_state (fst (Step m ob)) = StateRecovering"
  shows "(lm_state m = StateOffline \<and> obs_healthy ob \<and>
            lm_recoveryStartedAt (fst (Step m ob)) = o_Mono ob) \<or>
         (lm_state m = StateRecovering \<and>
            lm_recoveryStartedAt (fst (Step m ob)) = lm_recoveryStartedAt m)"
  using assms
  by (cases rule: Step_cases [of ob m])
     (auto simp: lm_defs Let_def latch_inv_def split: if_splits)

lemma recovering_history:
  "lm_state (lm_run cfg ops) = StateRecovering \<Longrightarrow>
   \<exists>r. rejoined_at cfg ops r \<and> lm_recoveryStartedAt (lm_run cfg ops) = o_Mono r"
proof (induction ops rule: rev_induct)
  case Nil
  then show ?case by (simp add: NewLifecycleMachine_def)
next
  case (snoc op ops)
  show ?case
  proof (cases op)
    case (OpStep ob)
    with snoc.prems have st: "lm_state (fst (Step (lm_run cfg ops) ob)) = StateRecovering"
      by simp
    from recovering_step_cases [OF latch_inv_run st] show ?thesis
      using snoc OpStep rejoined_at_start [of cfg ops ob] rejoined_at_extend [of cfg ops _ op]
      by fastforce
  next
    case (OpSetDraining d)
    with snoc rejoined_at_extend [of cfg ops _ op] show ?thesis by auto
  qed
qed

lemma unlatch_healthy:
  assumes "latch_inv m" and "lm_recoveryLatched m" and "\<not> lm_recoveryLatched (fst (Step m ob))"
  shows "obs_healthy ob" and "lm_state m = StateRecovering" and "Step m ob = step_latched
    (m\<lparr>lm_softFailures := 0, lm_healthyStreak := lm_healthyStreak m + 1\<rparr>) ob"
proof -
  have h: "obs_healthy ob \<and> Step m ob = step_healthy m ob"
    by (cases rule: Step_cases [of ob m]) (use assms in \<open>simp_all add: step_hard_def step_soft_def Let_def split: if_splits\<close>)
  then show "obs_healthy ob" by simp
  have "lm_state m \<noteq> StateOffline"
  proof
    assume "lm_state m = StateOffline"
    then show False using h assms(2,3) by (simp add: step_healthy_def step_rejoin_def Let_def)
  qed
  then show "lm_state m = StateRecovering" using assms(1,2) by (simp add: latch_inv_def)
  then show "Step m ob = step_latched (m\<lparr>lm_softFailures := 0, lm_healthyStreak := lm_healthyStreak m + 1\<rparr>) ob"
    using h assms(2) by (simp add: step_healthy_def Let_def)
qed

lemma unlatch_step:
  assumes "latch_inv m" and "lm_recoveryLatched m" and "\<not> lm_recoveryLatched (fst (Step m ob))"
  shows "lc_RecoveringHoldSec (lm_cfg m) \<le> dur_Seconds (o_Mono ob - lm_recoveryStartedAt m)"
    and "lc_RecoveryStreak (lm_cfg m) \<le> lm_recoveryHealthyStreak m + 1"
  using assms(2,3) by (simp_all add: unlatch_healthy(3) [OF assms] step_latched_def Let_def split: if_splits)

text \<open>A run of healthy probes that all classify alike, from a state without the latch.\<close>

definition probe_all :: "LifecycleMachine \<Rightarrow> LifecycleObservation list \<Rightarrow> LifecycleMachine" where
  "probe_all m obs = foldl (\<lambda>m ob. fst (Step m ob)) m obs"

lemma probe_all_simps [simp]:
  "probe_all m [] = m" "probe_all m (obs @ [ob]) = fst (Step (probe_all m obs) ob)"
  by (simp_all add: probe_all_def)

lemma probe_all_cfg [simp]:
  "lm_cfg (probe_all m obs) = lm_cfg m" "lm_draining (probe_all m obs) = lm_draining m"
  by (induction obs rule: rev_induct) auto

lemma step_normal_same:
  assumes "obs_healthy ob" and "\<not> lm_recoveryLatched m" and "lm_state m \<noteq> StateOffline"
    and "fst (classifyHealthy m ob) = lm_state m"
  shows "lm_state (fst (Step m ob)) = lm_state m" and "\<not> lm_recoveryLatched (fst (Step m ob))"
proof -
  let ?m1 = "m\<lparr>lm_softFailures := 0, lm_healthyStreak := lm_healthyStreak m + 1\<rparr>"
  have "Step m ob = step_normal ?m1 ob"
    using assms by (simp add: Step_def obs_healthy_def step_healthy_def)
  moreover have "fst (classifyHealthy ?m1 ob) = lm_state ?m1"
    using assms(4) classify_cong [of ?m1 m ob] by simp
  ultimately show "lm_state (fst (Step m ob)) = lm_state m"
      "\<not> lm_recoveryLatched (fst (Step m ob))"
    using assms(2) by (simp_all add: step_normal_def Let_def)
qed

lemma step_normal_pending:
  assumes "obs_healthy ob" and "\<not> lm_recoveryLatched m" and "lm_state m \<noteq> StateOffline"
    and "lm_state m \<noteq> StateDegraded" and "fst (classifyHealthy m ob) = t"
    and "t = StateReady \<or> t = StateBusy" and "t \<noteq> lm_state m"
  defines "k \<equiv> (if lm_pending m = t then lm_pendingCount m else 0)"
  shows "lm_state (fst (Step m ob)) =
           (if k + 1 < lc_ConfirmSamples (lm_cfg m) then lm_state m else t)"
    and "lm_pending (fst (Step m ob)) = t"
    and "k + 1 < lc_ConfirmSamples (lm_cfg m) \<Longrightarrow> lm_pendingCount (fst (Step m ob)) = k + 1"
    and "\<not> lm_recoveryLatched (fst (Step m ob))"
proof -
  let ?m1 = "m\<lparr>lm_softFailures := 0, lm_healthyStreak := lm_healthyStreak m + 1\<rparr>"
  have S: "Step m ob = step_normal ?m1 ob"
    using assms by (simp add: Step_def obs_healthy_def step_healthy_def)
  have C: "fst (classifyHealthy ?m1 ob) = t"
    using assms(5) classify_cong [of ?m1 m ob] by simp
  have t: "t \<noteq> StateDegraded" "t \<noteq> StateDraining" "lm_state m \<noteq> t"
    using assms(6,7) by auto
  note simps = step_normal_def Let_def S C k_def t assms(2,4)
  show "lm_state (fst (Step m ob)) =
           (if k + 1 < lc_ConfirmSamples (lm_cfg m) then lm_state m else t)"
    by (simp add: simps)
  show "lm_pending (fst (Step m ob)) = t"
    by (simp add: simps)
  show "lm_pendingCount (fst (Step m ob)) = k + 1" if "k + 1 < lc_ConfirmSamples (lm_cfg m)"
    using that assms(7) by (cases "lm_pending m = t") (simp_all add: simps)
  show "\<not> lm_recoveryLatched (fst (Step m ob))"
    by (simp add: simps)
qed

lemma probe_all_hysteresis:
  assumes "\<not> lm_recoveryLatched m"
    and "lm_state m \<notin> {StateOffline, StateDegraded}" and "t \<in> {StateReady, StateBusy}"
    and "t \<noteq> lm_state m" and "lm_pending m = t \<longrightarrow> lm_pendingCount m = 0"
    and "\<forall>ob \<in> set obs. obs_healthy ob \<and> fst (classifyHealthy m ob) = t"
  defines "need \<equiv> lc_ConfirmSamples (lm_cfg m)"
  shows "\<not> lm_recoveryLatched (probe_all m obs) \<and>
         (obs \<noteq> [] \<and> need \<le> int (length obs) \<longrightarrow> lm_state (probe_all m obs) = t) \<and>
         (obs = [] \<or> int (length obs) < need \<longrightarrow> lm_state (probe_all m obs) = lm_state m \<and>
            (if lm_pending (probe_all m obs) = t then lm_pendingCount (probe_all m obs) else 0)
              = int (length obs))"
  using assms(6)
proof (induction obs rule: rev_induct)
  case Nil
  then show ?case using assms(1,5) by simp
next
  case (snoc ob obs)
  let ?p = "probe_all m obs"
  from snoc have IH: "\<not> lm_recoveryLatched ?p"
      "obs \<noteq> [] \<and> need \<le> int (length obs) \<Longrightarrow> lm_state ?p = t"
      "obs = [] \<or> int (length obs) < need \<Longrightarrow> lm_state ?p = lm_state m \<and>
         (if lm_pending ?p = t then lm_pendingCount ?p else 0) = int (length obs)"
    and ob: "obs_healthy ob" "fst (classifyHealthy ?p ob) = t"
    using classify_cong [of ?p m ob] by auto
  show ?case
  proof (cases "obs \<noteq> [] \<and> need \<le> int (length obs)")
    case True
    with IH(2) have "lm_state ?p = t" by simp
    then show ?thesis
      using step_normal_same [OF ob(1) IH(1)] ob(2) assms(3) True by auto
  next
    case False
    with IH(3) have *: "lm_state ?p = lm_state m"
      "(if lm_pending ?p = t then lm_pendingCount ?p else 0) = int (length obs)" by auto
    then show ?thesis
      using step_normal_pending [OF ob(1) IH(1) _ _ ob(2)] assms(2-4)
      by (auto simp: need_def)
  qed
qed

section \<open>Properties\<close>

text \<open>C3: A device that is not OFFLINE goes OFFLINE on a probe exactly when the probe carries hard
  evidence, or is a soft failure that completes \<open>OfflineFailures\<close> consecutive soft failures,
  counted over the whole history of probes and operator calls.\<close>

theorem offline_entry_exact:
  assumes "lm_state (lm_run cfg ops) \<noteq> StateOffline"
  shows "lm_state (lm_run cfg (ops @ [OpStep ob])) = StateOffline \<longleftrightarrow>
           obs_hard ob \<or>
           (obs_soft ob \<and>
            lc_OfflineFailures cfg \<le> int (trailing obs_soft (observations (ops @ [OpStep ob]))))"
proof (cases rule: Step_cases [of ob "lm_run cfg ops"])
  case hard
  then show ?thesis by (simp add: step_hard_def Let_def)
next
  case soft
  then show ?thesis
    using assms softFailures_counts [of cfg ops] by (simp add: step_soft_def Let_def)
next
  case healthy
  then show ?thesis using assms by (auto simp: lm_defs Let_def)
qed

text \<open>C2: No path bypasses the recovery latch. When an operation takes a device out of
  OFFLINE/RECOVERING, it is a healthy probe that completes \<open>RecoveryStreak\<close> consecutive healthy
  probes, and at least \<open>RecoveringHoldSec\<close> seconds have passed on the monotonic clock since the
  probe that moved it from OFFLINE to RECOVERING, between which it was RECOVERING throughout.\<close>

theorem recovery_not_bypassed:
  assumes "lm_state (lm_run cfg ops) \<in> {StateOffline, StateRecovering}"
    and "lm_state (lm_run cfg (ops @ [op])) \<notin> {StateOffline, StateRecovering}"
  shows "\<exists>ob r. op = OpStep ob \<and> obs_healthy ob \<and>
           lc_RecoveryStreak cfg \<le> int (trailing obs_healthy (observations (ops @ [op]))) \<and>
           rejoined_at cfg ops r \<and>
           lc_RecoveringHoldSec cfg \<le> dur_Seconds (o_Mono ob - o_Mono r)"
proof (cases op)
  case (OpStep ob)
  let ?m = "lm_run cfg ops"
  have inv: "latch_inv ?m" "latch_inv (fst (Step ?m ob))"
    using latch_inv_run latch_inv_Step by blast+
  have l: "lm_recoveryLatched ?m" "\<not> lm_recoveryLatched (fst (Step ?m ob))"
    using assms OpStep inv by (auto simp: latch_inv_def)
  note u = unlatch_healthy(1,2) [OF inv(1) l] unlatch_step [OF inv(1) l]
  obtain r where r: "rejoined_at cfg ops r" "lm_recoveryStartedAt ?m = o_Mono r"
    using recovering_history [OF u(2)] by blast
  have "lc_RecoveryStreak cfg \<le> int (trailing obs_healthy (observations (ops @ [op])))"
    using u(1,4) recoveryStreak_counts [OF l(1)] OpStep by simp
  then show ?thesis using u(1,3) r OpStep by auto
next
  case (OpSetDraining d)
  then show ?thesis using assms by auto
qed

text \<open>C13: Hysteresis of healthy states. From a state other than OFFLINE, RECOVERING or DEGRADED
  with no pending change, a series of healthy probes that all classify as another state READY or
  BUSY leaves the state alone until \<open>ConfirmSamples\<close> of them have been seen, and changes it from
  then on.\<close>

theorem confirm_samples_exact:
  assumes "latch_inv m" and "lm_state m \<notin> {StateOffline, StateRecovering, StateDegraded}"
    and "t \<in> {StateReady, StateBusy}" and "t \<noteq> lm_state m"
    and "lm_pending m = t \<longrightarrow> lm_pendingCount m = 0"
    and "obs \<noteq> []" and "\<forall>ob \<in> set obs. obs_healthy ob \<and> fst (classifyHealthy m ob) = t"
  shows "lm_state (probe_all m obs) =
           (if int (length obs) < lc_ConfirmSamples (lm_cfg m) then lm_state m else t)"
proof -
  have "\<not> lm_recoveryLatched m" using assms(1,2) by (auto simp: latch_inv_def)
  from probe_all_hysteresis [OF this, of t obs] assms(2-7) show ?thesis by auto
qed

text \<open>\<open>Step\<close> reports truthfully: the state it returns is the machine's new state, and its
  second result says exactly whether the state changed.\<close>

lemma step_reports_transition:
  "snd (Step m ob) = (lm_state (fst (Step m ob)), lm_state m \<noteq> lm_state (fst (Step m ob)))"
  by (cases rule: Step_cases [of ob m]) (auto simp: lm_defs Let_def)

text \<open>A drain takes effect on the next healthy probe. Whatever happened before, while the
  operator drains the device a healthy probe leaves it DRAINING, or RECOVERING if recovery is
  still latched; in particular it is never reported READY or BUSY.\<close>

lemma drain_takes_effect:
  assumes "lm_draining (lm_run cfg ops)" and "obs_healthy ob"
  shows "lm_state (lm_run cfg (ops @ [OpStep ob])) =
           (if lm_recoveryLatched (lm_run cfg (ops @ [OpStep ob])) then StateRecovering
            else StateDraining)"
    (is "lm_state ?m' = _")
proof -
  let ?m = "lm_run cfg ops"
  have inv: "latch_inv ?m" by (rule latch_inv_run)
  have d: "\<And>m1. lm_draining m1 \<Longrightarrow> fst (classifyHealthy m1 ob) = StateDraining"
    by (rule classify_draining)
  have S: "Step ?m ob = step_healthy ?m ob"
    using assms(2) by (simp add: Step_def obs_healthy_def)
  show ?thesis
    using S assms(1) inv d by (auto simp: lm_defs Let_def latch_inv_def)
qed

section \<open>Witnesses\<close>

text \<open>Sample observations: a healthy probe, a probe that timed out, a device that is gone.\<close>

definition obs_ok :: "duration \<Rightarrow> LifecycleObservation" where
  "obs_ok t = \<lparr>o_ProbeOK = True, o_GPUVisible = True, o_GPUAccessible = True,
     o_HardOfflineEvidence = False, o_SoftFailure = False, o_UtilPct = Fin 10,
     o_UtilSupported = True, o_FreeMemRatio = 1 / 2, o_StabilityScore = 1,
     o_NewUncorrErrors = 0, o_Mono = t, o_ProbeFailReason = []\<rparr>"

definition obs_timeout :: "duration \<Rightarrow> LifecycleObservation" where
  "obs_timeout t = (obs_ok t)\<lparr>o_ProbeOK := False, o_SoftFailure := True,
     o_ProbeFailReason := ReasonProbeTimeout\<rparr>"

definition obs_gone :: "duration \<Rightarrow> LifecycleObservation" where
  "obs_gone t = (obs_ok t)\<lparr>o_ProbeOK := False, o_GPUVisible := False,
     o_HardOfflineEvidence := True\<rparr>"

lemma sample_obs [simp]:
  "obs_healthy (obs_ok t)" "\<not> obs_hard (obs_ok t)" "\<not> obs_soft (obs_ok t)"
  "obs_soft (obs_timeout t)" "\<not> obs_hard (obs_timeout t)" "\<not> obs_healthy (obs_timeout t)"
  "obs_hard (obs_gone t)" "\<not> obs_soft (obs_gone t)" "\<not> obs_healthy (obs_gone t)"
  "o_Mono (obs_ok t) = t" "o_Mono (obs_timeout t) = t" "o_Mono (obs_gone t) = t"
  "o_StabilityScore (obs_ok t) = 1" "o_NewUncorrErrors (obs_ok t) = 0"
  "o_UtilPct (obs_ok t) = Fin 10" "o_FreeMemRatio (obs_ok t) = 1 / 2"
  by (simp_all add: obs_healthy_def obs_hard_def obs_soft_def obs_ok_def obs_timeout_def
      obs_gone_def classifyHealthy_def)

lemmas sample_run = lm_run_def Step_def lm_defs Let_def NewLifecycleMachine_def
  DefaultLifecycleConfig_def go_offline_def classifyHealthy_def dur_Seconds_def

abbreviation two_timeouts :: "LifecycleOp list" where
  "two_timeouts \<equiv> [OpStep (obs_timeout 1), OpStep (obs_timeout 2)]"

theorem offline_entry_exact_witness:
  "lm_state (lm_run DefaultLifecycleConfig two_timeouts) \<noteq> StateOffline \<and>
   lm_state (lm_run DefaultLifecycleConfig (two_timeouts @ [OpStep (obs_timeout 3)]))
     = StateOffline"
proof -
  have 1: "lm_state (lm_run DefaultLifecycleConfig two_timeouts) \<noteq> StateOffline"
    by (simp add: sample_run)
  have "trailing obs_soft [obs_timeout 1, obs_timeout 2, obs_timeout 3] = 3"
    by (simp add: trailing_def)
  with 1 offline_entry_exact [OF 1, of "obs_timeout 3"] show ?thesis
    by (simp add: DefaultLifecycleConfig_def)
qed

abbreviation recovering_ops :: "LifecycleOp list" where
  "recovering_ops \<equiv>
     [OpStep (obs_gone 0), OpStep (obs_ok 1000000000), OpStep (obs_ok 4000000000)]"

theorem recovery_not_bypassed_witness:
  "lm_state (lm_run DefaultLifecycleConfig recovering_ops) = StateRecovering \<and>
   lm_state (lm_run DefaultLifecycleConfig (recovering_ops @ [OpStep (obs_ok 7000000000)]))
     = StateReady \<and>
   (\<exists>r. rejoined_at DefaultLifecycleConfig recovering_ops r \<and>
        5 \<le> dur_Seconds (7000000000 - o_Mono r))"
proof -
  have 1: "lm_state (lm_run DefaultLifecycleConfig recovering_ops) = StateRecovering"
    by (simp add: sample_run)
  have 2: "lm_state (lm_run DefaultLifecycleConfig
             (recovering_ops @ [OpStep (obs_ok 7000000000)])) = StateReady"
    by (simp add: sample_run)
  from recovery_not_bypassed [of DefaultLifecycleConfig recovering_ops
      "OpStep (obs_ok 7000000000)"] 1 2
  obtain r where "rejoined_at DefaultLifecycleConfig recovering_ops r"
      "5 \<le> dur_Seconds (7000000000 - o_Mono r)"
    by (auto simp: DefaultLifecycleConfig_def)
  with 1 2 show ?thesis by blast
qed

definition ready_machine :: LifecycleMachine where
  "ready_machine = (NewLifecycleMachine DefaultLifecycleConfig)
     \<lparr>lm_state := StateReady, lm_pending := StateReady\<rparr>"

definition obs_busy :: "duration \<Rightarrow> LifecycleObservation" where
  "obs_busy t = (obs_ok t)\<lparr>o_UtilPct := Fin 95\<rparr>"

theorem confirm_samples_exact_witness:
  "lm_state (probe_all ready_machine [obs_busy 1]) = StateReady \<and>
   lm_state (probe_all ready_machine [obs_busy 1, obs_busy 2]) = StateBusy"
proof -
  have m: "latch_inv ready_machine" "lm_state ready_machine = StateReady"
      "lm_pending ready_machine = StateReady" "lc_ConfirmSamples (lm_cfg ready_machine) = 2"
    by (simp_all add: ready_machine_def latch_inv_def NewLifecycleMachine_def
        DefaultLifecycleConfig_def)
  have ob: "obs_healthy (obs_busy t) \<and> fst (classifyHealthy ready_machine (obs_busy t)) = StateBusy"
    for t
    by (simp add: obs_busy_def obs_ok_def obs_healthy_def obs_hard_def obs_soft_def
        classifyHealthy_def ready_machine_def NewLifecycleMachine_def DefaultLifecycleConfig_def)
  show ?thesis
    using confirm_samples_exact [OF m(1), of StateBusy "[obs_busy 1]"]
      confirm_samples_exact [OF m(1), of StateBusy "[obs_busy 1, obs_busy 2]"] m ob by simp
qed

end
