(* ===== verification/Stability_Score.thy ===== *)
theory Stability_Score
  imports Core_Model
begin

text \<open>
  The stability score of \<open>internal/core/stability.go\<close>: a weighted sum of seven signals in the unit
  interval, smoothed by an exponential average that falls fast and recovers slowly. \<open>math.Exp\<close> is
  the real exponential; rounding is not modelled.

  The lemmas show that the score stays in the unit interval for every input a probe can produce,
  that the default weights need no clamping, how slowly a score can recover, and that worker
  disappearances alone leave it alone while confirmed evidence can only lower it.
\<close>

section \<open>Configuration, state and inputs\<close>

record StabilityConfig =
  WAvailability :: real
  WFailures :: real
  WDisconnect :: real
  WRecovery :: real
  WErrors :: real
  WLatency :: real
  WThroughput :: real
  AlphaUp :: real
  AlphaDown :: real

definition DefaultStabilityConfig :: StabilityConfig where
  "DefaultStabilityConfig = \<lparr>WAvailability = 30 / 100, WFailures = 20 / 100,
     WDisconnect = 15 / 100, WRecovery = 10 / 100, WErrors = 10 / 100, WLatency = 10 / 100,
     WThroughput = 5 / 100, AlphaUp = 60 / 100, AlphaDown = 8 / 100\<rparr>"

record StabilityCalc =
  sc_cfg :: StabilityConfig
  smamooth :: real
  sc_started :: bool

definition NewStabilityCalc :: "StabilityConfig \<Rightarrow> StabilityCalc" where
  "NewStabilityCalc cfg = \<lparr>sc_cfg = cfg, smamooth = 1, sc_started = False\<rparr>"

record StabilityInputs =
  in_RecentAvailability :: real
  in_ConsecutiveFailures :: int
  in_DisconnectsInWindow :: int
  in_LastRecoveryMs :: real
  in_ErrorCountDelta :: "64 word"
  in_LatencyP95Ms :: real
  in_LatencyP50Ms :: real
  in_ThroughputVariance :: f64
  in_WorkerDisappearancesObserved :: int
  in_ConfirmedAbnormalWorkerExits :: int
  in_ConfirmedOOMEvents :: int
  in_RapidRestartEvents :: int

section \<open>The instantaneous score\<close>

definition expDecay :: "real \<Rightarrow> int \<Rightarrow> real" where
  "expDecay k n = exp (- k * real_of_int n)"

definition failScore :: "StabilityInputs \<Rightarrow> real" where
  "failScore inp =
     (let f0 = expDecay (7 / 10) (in_ConsecutiveFailures inp);
          f1 = (if in_ConfirmedAbnormalWorkerExits inp > 0
                then f0 * expDecay (3 / 5) (in_ConfirmedAbnormalWorkerExits inp) else f0);
          f2 = (if in_ConfirmedOOMEvents inp > 0
                then f1 * expDecay (4 / 5) (in_ConfirmedOOMEvents inp) else f1)
      in if in_RapidRestartEvents inp > 0
         then f2 * expDecay (2 / 5) (in_RapidRestartEvents inp) else f2)"

definition recScore :: "StabilityInputs \<Rightarrow> real" where
  "recScore inp =
     (if in_LastRecoveryMs inp > 0 then exp (- in_LastRecoveryMs inp / 30000) else 1)"

definition latScore :: "StabilityInputs \<Rightarrow> real" where
  "latScore inp =
     (if in_LatencyP50Ms inp > 0 \<and> in_LatencyP95Ms inp > 0
      then clamp01 (Fin (1 - (in_LatencyP95Ms inp / in_LatencyP50Ms inp - 1) / 9)) else 1)"

definition thrScore :: "StabilityInputs \<Rightarrow> real" where
  "thrScore inp =
     (if f64_le (Fin 0) (in_ThroughputVariance inp)
      then clamp01 (f64_sub (Fin 1) (f64_mul (in_ThroughputVariance inp) (Fin 2))) else 1)"

definition stability_comps :: "StabilityConfig \<Rightarrow> StabilityInputs \<Rightarrow> (string \<times> real) list" where
  "stability_comps c inp =
     [(''availability'', WAvailability c * clamp01 (Fin (in_RecentAvailability inp))),
      (''failures'', WFailures c * failScore inp),
      (''disconnect'', WDisconnect c * expDecay (1 / 2) (in_DisconnectsInWindow inp)),
      (''recovery'', WRecovery c * recScore inp),
      (''errors'', WErrors c * expDecay (3 / 2) (uint (in_ErrorCountDelta inp))),
      (''latency'', WLatency c * latScore inp),
      (''throughput'', WThroughput c * thrScore inp)]"

definition instantaneous :: "StabilityCalc \<Rightarrow> StabilityInputs \<Rightarrow> real \<times> (string \<times> real) list" where
  "instantaneous s inp =
     (let comps = stability_comps (sc_cfg s) inp
      in (clamp01 (Fin (sum_list (map snd comps))), comps))"

section \<open>Smoothing\<close>

definition stability_fold :: "StabilityCalc \<Rightarrow> real \<Rightarrow> StabilityCalc" where
  "stability_fold s inst =
     (if \<not> sc_started s then s\<lparr>smamooth := inst, sc_started := True\<rparr>
      else if inst < smamooth s
        then s\<lparr>smamooth := AlphaUp (sc_cfg s) * inst + (1 - AlphaUp (sc_cfg s)) * smamooth s\<rparr>
      else s\<lparr>smamooth := AlphaDown (sc_cfg s) * inst + (1 - AlphaDown (sc_cfg s)) * smamooth s\<rparr>)"

definition Update ::
  "StabilityCalc \<Rightarrow> StabilityInputs \<Rightarrow> walltime \<Rightarrow> StabilityCalc \<times> StabilityScore" where
  "Update s inp now =
     (let (inst, comps) = instantaneous s inp;
          s' = stability_fold s inst
      in (s', \<lparr>ss_Score = clamp01 (Fin (smamooth s')),
               ss_Components = comps @ [(''instantaneous'', inst), (''smoothed'', smamooth s')],
               ss_UpdatedAt = now\<rparr>))"

definition Score :: "StabilityCalc \<Rightarrow> real" where
  "Score s = clamp01 (Fin (smamooth s))"

section \<open>Facts shared by the proofs\<close>

lemma expDecay_pos [simp]: "0 < expDecay k n" "0 \<le> expDecay k n"
  by (simp_all add: expDecay_def)

lemma expDecay_le1 [simp]: "0 \<le> k \<Longrightarrow> 0 \<le> n \<Longrightarrow> expDecay k n \<le> 1"
  by (simp add: expDecay_def)

lemma expDecay_antimono: "0 \<le> k \<Longrightarrow> m \<le> n \<Longrightarrow> expDecay k n \<le> expDecay k m"
  by (simp add: expDecay_def mult_left_mono)

lemma failScore_prod:
  "failScore inp =
     expDecay (7 / 10) (in_ConsecutiveFailures inp) *
     expDecay (3 / 5) (max 0 (in_ConfirmedAbnormalWorkerExits inp)) *
     expDecay (4 / 5) (max 0 (in_ConfirmedOOMEvents inp)) *
     expDecay (2 / 5) (max 0 (in_RapidRestartEvents inp))"
  by (simp add: failScore_def Let_def max_def) (simp add: expDecay_def)

lemma failScore_bounds:
  assumes "0 \<le> in_ConsecutiveFailures inp"
  shows "0 \<le> failScore inp" and "failScore inp \<le> 1"
  using assms by (simp_all add: failScore_prod mult_le_one)

lemma recScore_bounds [simp]: "0 \<le> recScore inp" "recScore inp \<le> 1"
  by (simp_all add: recScore_def)

lemma latScore_bounds [simp]: "0 \<le> latScore inp" "latScore inp \<le> 1"
  by (simp_all add: latScore_def del: clamp01.simps)

lemma thrScore_bounds [simp]: "0 \<le> thrScore inp" "thrScore inp \<le> 1"
  by (simp_all add: thrScore_def)

lemma instantaneous_bounds [simp]:
  "0 \<le> fst (instantaneous s inp)" "fst (instantaneous s inp) \<le> 1"
  by (simp_all add: instantaneous_def Let_def del: clamp01.simps)

lemma Update_fst: "fst (Update s inp now) = stability_fold s (fst (instantaneous s inp))"
  by (simp add: Update_def Let_def split: prod.split)

lemma stability_fold_cfg [simp]: "sc_cfg (stability_fold s i) = sc_cfg s"
  by (simp add: stability_fold_def)

lemma stability_fold_started [simp]: "sc_started (stability_fold s i)"
  by (simp add: stability_fold_def)

text \<open>A convex combination stays between its ends.\<close>

lemma convex_between:
  fixes a x y :: real
  assumes "0 \<le> a" and "a \<le> 1"
  shows "min x y \<le> a * x + (1 - a) * y" and "a * x + (1 - a) * y \<le> max x y"
proof -
  have "a * min x y + (1 - a) * min x y \<le> a * x + (1 - a) * y"
    using assms by (intro add_mono mult_left_mono) auto
  then show "min x y \<le> a * x + (1 - a) * y" by (simp add: algebra_simps)
  have "a * x + (1 - a) * y \<le> a * max x y + (1 - a) * max x y"
    using assms by (intro add_mono mult_left_mono) auto
  then show "a * x + (1 - a) * y \<le> max x y" by (simp add: algebra_simps)
qed

definition alphas_ok :: "StabilityConfig \<Rightarrow> bool" where
  "alphas_ok c \<longleftrightarrow> 0 \<le> AlphaDown c \<and> AlphaDown c \<le> 1 \<and> 0 \<le> AlphaUp c \<and> AlphaUp c \<le> 1"

lemma stability_fold_between:
  assumes "alphas_ok (sc_cfg s)" and "sc_started s"
  shows "min i (smamooth s) \<le> smamooth (stability_fold s i)"
    and "smamooth (stability_fold s i) \<le> max i (smamooth s)"
  using assms convex_between [of "AlphaUp (sc_cfg s)" i "smamooth s"]
    convex_between [of "AlphaDown (sc_cfg s)" i "smamooth s"]
  by (cases "i < smamooth s"; simp add: stability_fold_def alphas_ok_def)+

text \<open>The state invariant, and its preservation by \<open>Update\<close>.\<close>

definition calc_inv :: "StabilityConfig \<Rightarrow> StabilityCalc \<Rightarrow> bool" where
  "calc_inv c s \<longleftrightarrow> sc_cfg s = c \<and> 0 \<le> smamooth s \<and> smamooth s \<le> 1"

lemma calc_inv_new [simp]: "calc_inv c (NewStabilityCalc c)"
  by (simp add: calc_inv_def NewStabilityCalc_def)

lemma calc_inv_fold:
  assumes "alphas_ok c" and "calc_inv c s" and "0 \<le> i" and "i \<le> 1"
  shows "calc_inv c (stability_fold s i)"
proof (cases "sc_started s")
  case True
  have "alphas_ok (sc_cfg s)" using assms(1,2) by (simp add: calc_inv_def)
  with stability_fold_between [OF this True, of i] assms show ?thesis
    by (auto simp: calc_inv_def)
next
  case False
  with assms show ?thesis by (simp add: calc_inv_def stability_fold_def)
qed

type_synonym stability_op = "StabilityInputs \<times> walltime"

definition stability_step :: "StabilityCalc \<Rightarrow> stability_op \<Rightarrow> StabilityCalc" where
  "stability_step s op = fst (Update s (fst op) (snd op))"

definition stability_run :: "StabilityConfig \<Rightarrow> stability_op list \<Rightarrow> StabilityCalc" where
  "stability_run c ops = foldl stability_step (NewStabilityCalc c) ops"

interpretation sc: inv_machine "NewStabilityCalc c" stability_step "\<lambda>s. alphas_ok c \<longrightarrow> calc_inv c s"
  by unfold_locales (auto simp: stability_step_def Update_fst intro: calc_inv_fold)

lemma stability_run_inv: "alphas_ok c \<Longrightarrow> calc_inv c (stability_run c ops)"
  unfolding stability_run_def using sc.inv_run by blast

lemma stability_run_snoc [simp]:
  "stability_run c (ops @ [op]) = stability_step (stability_run c ops) op"
  by (simp add: stability_run_def)

lemma stability_run_started: "ops \<noteq> [] \<Longrightarrow> sc_started (stability_run c ops)"
  by (cases ops rule: rev_cases) (auto simp: stability_step_def Update_fst)

lemma alphas_ok_default [simp]: "alphas_ok DefaultStabilityConfig"
  by (simp add: alphas_ok_def DefaultStabilityConfig_def)

text \<open>One update moves the distance to a perfect score by at most the factor \<open>1 - AlphaDown\<close>.\<close>

lemma stability_fold_recovery:
  assumes "alphas_ok (sc_cfg s)" and "sc_started s" and "i \<le> 1" and "smamooth s \<le> 1"
  shows "(1 - AlphaDown (sc_cfg s)) * (1 - smamooth s) \<le> 1 - smamooth (stability_fold s i)"
proof (cases "i < smamooth s")
  case True
  have "smamooth (stability_fold s i) \<le> smamooth s"
    using stability_fold_between(2) [OF assms(1,2), of i] True by simp
  moreover have "(1 - AlphaDown (sc_cfg s)) * (1 - smamooth s) \<le> 1 * (1 - smamooth s)"
    using assms(1,4) by (intro mult_right_mono) (auto simp: alphas_ok_def)
  ultimately show ?thesis by simp
next
  case False
  have "AlphaDown (sc_cfg s) * i \<le> AlphaDown (sc_cfg s) * 1"
    using assms(1,3) by (intro mult_left_mono) (auto simp: alphas_ok_def)
  with False assms(2) show ?thesis by (simp add: stability_fold_def algebra_simps)
qed

lemma stability_run_cfg [simp]: "sc_cfg (stability_run c ops) = c"
  by (induction ops rule: rev_induct)
     (simp_all add: stability_run_def NewStabilityCalc_def stability_step_def Update_fst)

lemma comps_mono_failures:
  assumes "0 \<le> WFailures c" and "failScore inp' \<le> failScore inp"
    and "in_RecentAvailability inp' = in_RecentAvailability inp"
    and "in_DisconnectsInWindow inp' = in_DisconnectsInWindow inp"
    and "recScore inp' = recScore inp" and "in_ErrorCountDelta inp' = in_ErrorCountDelta inp"
    and "latScore inp' = latScore inp" and "thrScore inp' = thrScore inp"
  shows "sum_list (map snd (stability_comps c inp')) \<le> sum_list (map snd (stability_comps c inp))"
  using assms by (simp add: stability_comps_def mult_left_mono)

section \<open>Properties\<close>


text \<open>With the default weights, which sum to one, the weighted sum of the components is already
  in the unit interval for every input whose counts are not negative, so the clamp in
  \<open>instantaneous\<close> does not hide anything.\<close>

lemma default_weights_exact:
  assumes "0 \<le> in_ConsecutiveFailures inp" and "0 \<le> in_DisconnectsInWindow inp"
  shows "fst (instantaneous (NewStabilityCalc DefaultStabilityConfig) inp) =
         sum_list (map snd (stability_comps DefaultStabilityConfig inp))"
proof -
  define a f d e where "a = clamp01 (Fin (in_RecentAvailability inp))" and "f = failScore inp"
    and "d = expDecay (1 / 2) (in_DisconnectsInWindow inp)"
    and "e = expDecay (3 / 2) (uint (in_ErrorCountDelta inp))"
  have "0 \<le> a" "a \<le> 1" by (simp_all only: a_def clamp01_ge0 clamp01_le1)
  moreover have "0 \<le> f" "f \<le> 1" using failScore_bounds [OF assms(1)] by (simp_all add: f_def)
  moreover have "0 \<le> d" "d \<le> 1" "0 \<le> e" "e \<le> 1" using assms(2) by (simp_all add: d_def e_def)
  moreover note recScore_bounds [of inp] latScore_bounds [of inp] thrScore_bounds [of inp]
  ultimately have "0 \<le> sum_list (map snd (stability_comps DefaultStabilityConfig inp))"
      "sum_list (map snd (stability_comps DefaultStabilityConfig inp)) \<le> 1"
    unfolding stability_comps_def DefaultStabilityConfig_def
    by (simp_all add: a_def [symmetric] f_def [symmetric] d_def [symmetric] e_def [symmetric]
        del: clamp01.simps recScore_bounds latScore_bounds thrScore_bounds)
  then show ?thesis by (simp add: instantaneous_def Let_def NewStabilityCalc_def)
qed

text \<open>Memory of instability: however healthy the next \<open>n\<close> probes are, the distance of the score
  to 1 shrinks at most by the factor \<open>1 - AlphaDown\<close> per probe.\<close>

lemma slow_recovery:
  assumes "alphas_ok c" and "ops \<noteq> []"
  shows "(1 - AlphaDown c) ^ length ops' * (1 - Score (stability_run c ops)) \<le>
         1 - Score (stability_run c (ops @ ops'))"
proof (induction ops' rule: rev_induct)
  case Nil
  then show ?case by simp
next
  case (snoc op ops')
  let ?s = "stability_run c (ops @ ops')"
  let ?i = "fst (instantaneous ?s (fst op))"
  have inv: "calc_inv c s \<Longrightarrow> Score s = smamooth s" for s by (simp add: Score_def calc_inv_def)
  have 1: "calc_inv c ?s" "calc_inv c (stability_run c (ops @ ops' @ [op]))"
    using assms(1) by (simp_all add: stability_run_inv)
  have "(1 - AlphaDown c) * ((1 - AlphaDown c) ^ length ops' * (1 - Score (stability_run c ops)))
        \<le> (1 - AlphaDown c) * (1 - smamooth ?s)"
    using snoc 1(1) assms(1) by (intro mult_left_mono) (auto simp: alphas_ok_def inv)
  also have "\<dots> \<le> 1 - smamooth (stability_fold ?s ?i)"
    using stability_fold_recovery [of ?s ?i] assms 1(1)
    by (simp add: stability_run_started calc_inv_def)
  also have "\<dots> = 1 - Score (stability_run c (ops @ ops' @ [op]))"
    using inv [OF 1(2)] by (simp add: stability_step_def Update_fst flip: append_assoc)
  finally show ?case by (simp add: mult.assoc)
qed

text \<open>Worker disappearances of unknown cause do not change the instantaneous score at all, and
  additional confirmed evidence (abnormal exits, OOM kills, rapid restarts) can only lower it.\<close>

lemma confirmed_evidence_only:
  assumes "0 \<le> WFailures (sc_cfg s)"
    and "in_ConfirmedAbnormalWorkerExits inp \<le> exits" and "in_ConfirmedOOMEvents inp \<le> ooms"
    and "in_RapidRestartEvents inp \<le> rapid"
  shows "fst (instantaneous s (inp\<lparr>in_WorkerDisappearancesObserved := n\<rparr>)) =
           fst (instantaneous s inp) \<and>
         fst (instantaneous s (inp\<lparr>in_ConfirmedAbnormalWorkerExits := exits,
           in_ConfirmedOOMEvents := ooms, in_RapidRestartEvents := rapid\<rparr>)) \<le>
         fst (instantaneous s inp)"
proof -
  let ?inp = "inp\<lparr>in_ConfirmedAbnormalWorkerExits := exits, in_ConfirmedOOMEvents := ooms,
    in_RapidRestartEvents := rapid\<rparr>"
  have "failScore ?inp \<le> failScore inp"
    using assms(2-4) unfolding failScore_prod by (simp, intro mult_mono expDecay_antimono) auto
  then have "sum_list (map snd (stability_comps (sc_cfg s) ?inp))
      \<le> sum_list (map snd (stability_comps (sc_cfg s) inp))"
    using assms(1)
    by (intro comps_mono_failures) (auto simp: recScore_def latScore_def thrScore_def)
  then have "fst (instantaneous s ?inp) \<le> fst (instantaneous s inp)"
    unfolding instantaneous_def Let_def fst_conv by (rule clamp01_mono)
  moreover have "stability_comps (sc_cfg s) (inp\<lparr>in_WorkerDisappearancesObserved := n\<rparr>) =
      stability_comps (sc_cfg s) inp"
    by (simp add: stability_comps_def failScore_prod recScore_def latScore_def thrScore_def)
  ultimately show ?thesis by (simp only: instantaneous_def Let_def fst_conv simp_thms)
qed

section \<open>Witnesses\<close>

definition healthy_inputs :: StabilityInputs where
  "healthy_inputs = \<lparr>in_RecentAvailability = 1, in_ConsecutiveFailures = 0,
     in_DisconnectsInWindow = 0, in_LastRecoveryMs = 0, in_ErrorCountDelta = 0,
     in_LatencyP95Ms = 0, in_LatencyP50Ms = 0, in_ThroughputVariance = Fin (-1),
     in_WorkerDisappearancesObserved = 0, in_ConfirmedAbnormalWorkerExits = 0,
     in_ConfirmedOOMEvents = 0, in_RapidRestartEvents = 0\<rparr>"


end
