(* ===== verification/Device_History.thy ===== *)
theory Device_History
  imports Core_Model
begin

text \<open>
  Bounded per-device history and reliability accounting: \<open>internal/core/history.go\<close>. The ring
  buffer is modelled with its array, head index and size; a locale states the contract of a bounded
  log, and the ring is shown to meet it: whatever was pushed, the items are the last \<open>cap\<close> of them.
  \<open>DeviceHistory\<close> is the struct without its mutex, one function per method.

  The lemmas show what the window statistics are, that the percentile lies between the smallest and
  the largest latency and is monotone, and that the error counter never wraps.
\<close>

section \<open>The contract of a bounded log\<close>

lemma lastn_lastn_snoc: "lastn n (lastn n xs @ [x]) = lastn n (xs @ [x])"
proof (cases "length xs \<le> n")
  case False
  then have "lastn n xs @ [x] = drop (length xs - n) (xs @ [x])" by (simp add: lastn_def)
  with False show ?thesis by (simp add: lastn_def Suc_diff_le)
qed simp

locale bounded_log =
  fixes new :: 'r
    and push :: "'r \<Rightarrow> 'v \<Rightarrow> 'r"
    and items :: "'r \<Rightarrow> 'v list"
    and ok :: "'r \<Rightarrow> bool"
    and bound :: nat
  assumes ok_new: "ok new"
    and ok_push: "ok r \<Longrightarrow> ok (push r v)"
    and items_new: "items new = []"
    and items_push: "ok r \<Longrightarrow> items (push r v) = lastn bound (items r @ [v])"
begin

lemma ok_pushes: "ok (foldl push new vs)"
  by (induction vs rule: rev_induct) (simp_all add: ok_new ok_push)

lemma items_pushes: "items (foldl push new vs) = lastn bound vs"
  by (induction vs rule: rev_induct)
     (simp_all add: items_new items_push ok_pushes lastn_lastn_snoc)

lemma items_bounded: "length (items (foldl push new vs)) \<le> bound"
  by (simp add: items_pushes)

end

section \<open>The ring buffer\<close>

record 'a ring =
  rb_buf :: "'a list"
  rb_head :: nat
  rb_size :: nat
  rb_cap :: nat

text \<open>\<open>make([]T, capacity)\<close> fills the array with the zero value of \<open>T\<close>, an argument here. A push
  writes \<open>buf[head]\<close>, which panics if \<open>head\<close> is out of range; \<open>ring_ok\<close> excludes it and holds of
  every ring made with a positive capacity.\<close>

definition newRing :: "'a \<Rightarrow> nat \<Rightarrow> 'a ring" where
  "newRing z capacity = \<lparr>rb_buf = replicate capacity z, rb_head = 0, rb_size = 0, rb_cap = capacity\<rparr>"

definition ring_push :: "'a ring \<Rightarrow> 'a \<Rightarrow> 'a ring" where
  "ring_push r v =
     (let r1 = r\<lparr>rb_buf := (rb_buf r)[rb_head r := v], rb_head := (rb_head r + 1) mod rb_cap r\<rparr>
      in if rb_size r1 < rb_cap r1 then r1\<lparr>rb_size := rb_size r1 + 1\<rparr> else r1)"

definition ring_items :: "'a ring \<Rightarrow> 'a list" where
  "ring_items r =
     (let start = (rb_head r + rb_cap r - rb_size r) mod rb_cap r
      in map (\<lambda>i. rb_buf r ! ((start + i) mod rb_cap r)) [0..<rb_size r])"

definition ring_ok :: "nat \<Rightarrow> 'a ring \<Rightarrow> bool" where
  "ring_ok n r \<longleftrightarrow> 0 < n \<and> rb_cap r = n \<and> length (rb_buf r) = n \<and> rb_head r < n \<and> rb_size r \<le> n"

lemma ring_ok_new [simp]: "0 < n \<Longrightarrow> ring_ok n (newRing z n)"
  by (simp add: ring_ok_def newRing_def)

lemma ring_ok_push [simp]: "ring_ok n r \<Longrightarrow> ring_ok n (ring_push r v)"
  by (simp add: ring_ok_def ring_push_def Let_def)

lemma ring_items_new [simp]: "ring_items (newRing z n) = []"
  by (simp add: ring_items_def newRing_def)

lemma add_mod_ne:
  fixes h k c :: nat
  assumes "h < c" and "0 < k" and "k < c"
  shows "(h + k) mod c \<noteq> h"
proof (cases "h + k < c")
  case False
  then have "(h + k) mod c = h + k - c" using assms by (simp add: le_mod_geq)
  with assms False show ?thesis by simp
qed (use assms in simp)

text \<open>The \<open>i\<close>-th item, read at the head's offset.\<close>

lemma ring_items_nth:
  assumes "ring_ok n r" and "i < rb_size r"
  shows "ring_items r ! i = rb_buf r ! ((rb_head r + (n - rb_size r + i)) mod n)"
  using assms by (simp add: ring_items_def Let_def ring_ok_def mod_add_left_eq add.assoc)

lemma ring_items_length [simp]: "length (ring_items r) = rb_size r"
  by (simp add: ring_items_def)

lemma ring_items_push:
  assumes ok: "ring_ok n r"
  shows "ring_items (ring_push r v) = lastn n (ring_items r @ [v])"
proof -
  let ?h = "rb_head r" and ?s = "rb_size r" and ?p = "ring_push r v"
  have n: "0 < n" "?h < n" "?s \<le> n" "length (rb_buf r) = n" "rb_cap r = n"
    using ok by (simp_all add: ring_ok_def)
  have buf: "rb_buf ?p = (rb_buf r)[?h := v]" and head: "rb_head ?p = (?h + 1) mod n"
    and size: "rb_size ?p = (if ?s < n then ?s + 1 else n)"
    using n by (simp_all add: ring_push_def Let_def)
  have okp: "ring_ok n ?p" using ok by simp
  have item: "ring_items ?p ! i = (rb_buf r)[?h := v] ! ((?h + (n - rb_size ?p + i + 1)) mod n)"
    if "i < rb_size ?p" for i
  proof -
    have "((?h + 1) mod n + (n - rb_size ?p + i)) mod n = (?h + (n - rb_size ?p + i + 1)) mod n"
      by (simp only: mod_add_left_eq) (simp add: ac_simps)
    with ring_items_nth [OF okp that] show ?thesis by (simp only: buf head)
  qed
  show ?thesis
  proof (cases "?s < n")
    case True
    have "ring_items ?p = ring_items r @ [v]"
    proof (rule nth_equalityI)
      fix i assume "i < length (ring_items ?p)"
      then have i: "i < rb_size ?p" "i \<le> ?s" using True size by auto
      have off: "n - rb_size ?p + i + 1 = n - ?s + i" using True size by simp
      show "ring_items ?p ! i = (ring_items r @ [v]) ! i"
      proof (cases "i = ?s")
        case eq: True
        then have "?h + (n - ?s + i) = ?h + n" using n by simp
        then have "(?h + (n - rb_size ?p + i + 1)) mod n = ?h"
          unfolding off using n by (simp del: add_diff_assoc)
        with eq item [OF i(1)] n show ?thesis by (simp add: nth_append)
      next
        case False
        then have "(?h + (n - ?s + i)) mod n \<noteq> ?h" using i True n by (intro add_mod_ne) auto
        then have "ring_items ?p ! i = ring_items r ! i"
          using False i ring_items_nth [OF ok, of i] by (simp only: item [OF i(1)] off) simp
        then show ?thesis using False i by (simp add: nth_append)
      qed
    qed (simp add: size True)
    with True show ?thesis by simp
  next
    case False
    then have full: "?s = n" "rb_size ?p = n" using n size by auto
    have "ring_items ?p = tl (ring_items r) @ [v]"
    proof (rule nth_equalityI)
      fix i assume "i < length (ring_items ?p)"
      then have i: "i < rb_size ?p" using full by simp
      show "ring_items ?p ! i = (tl (ring_items r) @ [v]) ! i"
      proof (cases "i + 1 = n")
        case True
        then have "(?h + (n - rb_size ?p + i + 1)) mod n = ?h" and "i = n - 1"
          using full n by auto
        with item [OF i] full n show ?thesis by (simp add: nth_append)
      next
        case False
        then have "(?h + (i + 1)) mod n \<noteq> ?h" using i full n by (intro add_mod_ne) auto
        moreover have "i < n - 1" using False i full by auto
        ultimately show ?thesis
          using i full item [OF i] ring_items_nth [OF ok, of "i + 1"]
          by (simp add: nth_append nth_tl)
      qed
    qed (use full n in simp)
    then show ?thesis using lastn_snoc [OF n(1), of "ring_items r" v] full by simp
  qed
qed

interpretation ringlog: bounded_log "newRing z (Suc n)" ring_push ring_items "ring_ok (Suc n)" "Suc n"
  by unfold_locales (simp_all add: ring_items_push)

section \<open>Window statistics\<close>

record probeRec =
  pr_mono :: duration
  pr_ok :: bool
  pr_latency :: real

definition percentile :: "real list \<Rightarrow> real \<Rightarrow> real" where
  "percentile xs p =
     (if length xs = 0 then 0
      else if length xs = 1 then xs ! 0
      else let rank = p / 100 * real (length xs - 1);
               lo = nat (go_trunc rank)
           in if lo \<ge> length xs - 1 then xs ! (length xs - 1)
              else xs ! lo + (rank - real lo) * (xs ! (lo + 1) - xs ! lo))"

definition window_cutoff :: "duration \<Rightarrow> real \<Rightarrow> duration" where
  "window_cutoff now windowSec = now - dur_of_seconds windowSec"

definition in_window :: "duration \<Rightarrow> real \<Rightarrow> probeRec list \<Rightarrow> probeRec list" where
  "in_window now windowSec ps = filter (\<lambda>p. \<not> pr_mono p < window_cutoff now windowSec) ps"

definition recomputeWindow ::
  "probeRec list \<Rightarrow> duration \<Rightarrow> real \<Rightarrow> Reliability \<Rightarrow> Reliability" where
  "recomputeWindow ps now windowSec rel =
     (let w = in_window now windowSec ps;
          total = length w;
          okc = length (filter pr_ok w);
          lats = map pr_latency (filter pr_ok w);
          rel1 = (if total > 0
                  then rel\<lparr>r_RecentAvailability := real okc / real total,
                           r_RecentFailureRate := real (total - okc) / real total\<rparr>
                  else rel)
      in if lats \<noteq> []
         then rel1\<lparr>r_ProbeLatencyP50Ms := percentile (sort lats) 50,
                   r_ProbeLatencyP95Ms := percentile (sort lats) 95\<rparr>
         else rel1)"

section \<open>The history of a device\<close>

record DeviceHistory =
  dh_probes :: "probeRec ring"
  dh_points :: "HistoryPoint ring"
  dh_events :: "Event ring"
  dh_rel :: Reliability
  dh_lastUncorr :: "64 word"
  dh_haveUncorr :: bool
  dh_disconnects :: "duration ring"
  dh_windowSec :: real

text \<open>Zero values for the cells of the rings; no operation reads a cell before writing it.\<close>

definition zero_probeRec :: probeRec where
  "zero_probeRec = \<lparr>pr_mono = 0, pr_ok = False, pr_latency = 0\<rparr>"

definition zero_HistoryPoint :: HistoryPoint where
  "zero_HistoryPoint = \<lparr>hp_Timestamp = 0, hp_DeviceID = [], hp_LifecycleState = StateUnknown,
     hp_StabilityScore = 0, hp_UtilGPU = Fin 0, hp_MemUsedBytes = 0, hp_TemperatureC = Fin 0,
     hp_ProbeOK = False, hp_ProbeLatencyMs = 0\<rparr>"

definition zero_Event :: Event where
  "zero_Event = \<lparr>ev_Timestamp = 0, ev_DeviceID = [], ev_Kind = EventStateTransition,
     ev_From = None, ev_To = None, ev_Detail = [], ev_Evidence = [],
     ev_TerminationCause = CauseNone, ev_GroundTruthSource = [], ev_ReasonCodes = []\<rparr>"

definition NewDeviceHistory :: "nat \<Rightarrow> nat \<Rightarrow> nat \<Rightarrow> real \<Rightarrow> DeviceHistory" where
  "NewDeviceHistory probeCap pointCap eventCap windowSec =
     \<lparr>dh_probes = newRing zero_probeRec probeCap, dh_points = newRing zero_HistoryPoint pointCap,
      dh_events = newRing zero_Event eventCap, dh_rel = zero_Reliability, dh_lastUncorr = 0,
      dh_haveUncorr = False, dh_disconnects = newRing 0 64, dh_windowSec = windowSec\<rparr>"

definition RecordProbe ::
  "bool \<Rightarrow> real \<Rightarrow> duration \<Rightarrow> walltime \<Rightarrow> DeviceHistory \<Rightarrow> DeviceHistory" where
  "RecordProbe ok latencyMs now wall d =
     (let d1 = d\<lparr>dh_probes := ring_push (dh_probes d)
                   \<lparr>pr_mono = now, pr_ok = ok, pr_latency = latencyMs\<rparr>\<rparr>;
          rel = dh_rel d1;
          rel1 = (if ok then rel\<lparr>r_LastSuccessfulProbe := Some wall, r_ConsecutiveFailures := 0\<rparr>
                  else rel\<lparr>r_LastFailedProbe := Some wall,
                           r_ConsecutiveFailures := r_ConsecutiveFailures rel + 1\<rparr>)
      in d1\<lparr>dh_rel := recomputeWindow (ring_items (dh_probes d1)) now (dh_windowSec d1) rel1\<rparr>)"

definition ObserveUncorr :: "64 word \<Rightarrow> bool \<Rightarrow> DeviceHistory \<Rightarrow> 64 word \<times> DeviceHistory" where
  "ObserveUncorr cur supported d =
     (if \<not> supported then (0, d)
      else if \<not> dh_haveUncorr d then (0, d\<lparr>dh_lastUncorr := cur, dh_haveUncorr := True\<rparr>)
      else (if cur > dh_lastUncorr d then cur - dh_lastUncorr d else 0,
            d\<lparr>dh_lastUncorr := cur\<rparr>))"

definition AddPoint :: "HistoryPoint \<Rightarrow> DeviceHistory \<Rightarrow> DeviceHistory" where
  "AddPoint p d = d\<lparr>dh_points := ring_push (dh_points d) p\<rparr>"

definition AddEvent :: "Event \<Rightarrow> DeviceHistory \<Rightarrow> DeviceHistory" where
  "AddEvent e d = d\<lparr>dh_events := ring_push (dh_events d) e\<rparr>"

definition Points :: "DeviceHistory \<Rightarrow> HistoryPoint list" where
  "Points d = ring_items (dh_points d)"

definition Events :: "DeviceHistory \<Rightarrow> Event list" where
  "Events d = ring_items (dh_events d)"

definition MarkWorkerStart :: "DeviceHistory \<Rightarrow> DeviceHistory" where
  "MarkWorkerStart d = d\<lparr>dh_rel := (dh_rel d)\<lparr>r_WorkerStarts := r_WorkerStarts (dh_rel d) + 1\<rparr>\<rparr>"

definition MarkWorkerStop :: "DeviceHistory \<Rightarrow> DeviceHistory" where
  "MarkWorkerStop d = d\<lparr>dh_rel := (dh_rel d)\<lparr>r_WorkerStops := r_WorkerStops (dh_rel d) + 1\<rparr>\<rparr>"

definition MarkSidecarStart :: "DeviceHistory \<Rightarrow> DeviceHistory" where
  "MarkSidecarStart d =
     d\<lparr>dh_rel := (dh_rel d)\<lparr>r_SidecarStartCount := r_SidecarStartCount (dh_rel d) + 1\<rparr>\<rparr>"

definition MarkDisconnect :: "duration \<Rightarrow> DeviceHistory \<Rightarrow> DeviceHistory" where
  "MarkDisconnect now d =
     d\<lparr>dh_rel := (dh_rel d)\<lparr>r_DisconnectCount := r_DisconnectCount (dh_rel d) + 1\<rparr>,
       dh_disconnects := ring_push (dh_disconnects d) now\<rparr>"

definition MarkRejoin :: "real \<Rightarrow> DeviceHistory \<Rightarrow> DeviceHistory" where
  "MarkRejoin recoveryMs d =
     d\<lparr>dh_rel := (dh_rel d)\<lparr>r_RejoinCount := r_RejoinCount (dh_rel d) + 1,
                             r_LastRecoveryMs := recoveryMs\<rparr>\<rparr>"

definition DisconnectsInWindow :: "duration \<Rightarrow> DeviceHistory \<Rightarrow> int" where
  "DisconnectsInWindow now d =
     int (length (filter (\<lambda>t. t \<ge> window_cutoff now (dh_windowSec d))
                   (ring_items (dh_disconnects d))))"

definition SetThroughputVariance :: "f64 \<Rightarrow> DeviceHistory \<Rightarrow> DeviceHistory" where
  "SetThroughputVariance cov d = d\<lparr>dh_rel := (dh_rel d)\<lparr>r_ThroughputVariance := Sup cov\<rparr>\<rparr>"

text \<open>A history of method calls.\<close>

datatype HistoryOp =
    HProbe bool real duration walltime | HUncorr "64 word" bool | HPoint HistoryPoint
  | HEvent Event | HWorkerStart | HWorkerStop | HSidecarStart | HDisconnect duration
  | HRejoin real | HVariance f64

fun dh_apply :: "DeviceHistory \<Rightarrow> HistoryOp \<Rightarrow> DeviceHistory" where
  "dh_apply d (HProbe ok l m w) = RecordProbe ok l m w d"
| "dh_apply d (HUncorr c s) = snd (ObserveUncorr c s d)"
| "dh_apply d (HPoint p) = AddPoint p d"
| "dh_apply d (HEvent e) = AddEvent e d"
| "dh_apply d HWorkerStart = MarkWorkerStart d"
| "dh_apply d HWorkerStop = MarkWorkerStop d"
| "dh_apply d HSidecarStart = MarkSidecarStart d"
| "dh_apply d (HDisconnect m) = MarkDisconnect m d"
| "dh_apply d (HRejoin ms) = MarkRejoin ms d"
| "dh_apply d (HVariance c) = SetThroughputVariance c d"

lemmas dh_defs = RecordProbe_def ObserveUncorr_def AddPoint_def AddEvent_def MarkWorkerStart_def
  MarkWorkerStop_def MarkSidecarStart_def MarkDisconnect_def MarkRejoin_def
  SetThroughputVariance_def Let_def

section \<open>Facts about the operations\<close>

definition pushed_events :: "HistoryOp list \<Rightarrow> Event list" where
  "pushed_events ops = concat (map (\<lambda>op. case op of HEvent e \<Rightarrow> [e] | _ \<Rightarrow> []) ops)"

definition pushed_points :: "HistoryOp list \<Rightarrow> HistoryPoint list" where
  "pushed_points ops = concat (map (\<lambda>op. case op of HPoint p \<Rightarrow> [p] | _ \<Rightarrow> []) ops)"

definition pushed_probes :: "HistoryOp list \<Rightarrow> probeRec list" where
  "pushed_probes ops = concat (map (\<lambda>op. case op of
     HProbe ok l m w \<Rightarrow> [\<lparr>pr_mono = m, pr_ok = ok, pr_latency = l\<rparr>] | _ \<Rightarrow> []) ops)"

definition pushed_disconnects :: "HistoryOp list \<Rightarrow> duration list" where
  "pushed_disconnects ops = concat (map (\<lambda>op. case op of HDisconnect m \<Rightarrow> [m] | _ \<Rightarrow> []) ops)"

lemmas pushed_defs = pushed_events_def pushed_points_def pushed_probes_def pushed_disconnects_def

definition dh_run :: "nat \<Rightarrow> nat \<Rightarrow> nat \<Rightarrow> real \<Rightarrow> HistoryOp list \<Rightarrow> DeviceHistory" where
  "dh_run pc qc ec w ops = foldl dh_apply (NewDeviceHistory pc qc ec w) ops"

text \<open>Each ring of the history is the fold of the pushes made to it.\<close>

lemma dh_run_rings:
  "dh_probes (dh_run pc qc ec w ops) = foldl ring_push (newRing zero_probeRec pc) (pushed_probes ops)"
  "dh_points (dh_run pc qc ec w ops) =
     foldl ring_push (newRing zero_HistoryPoint qc) (pushed_points ops)"
  "dh_events (dh_run pc qc ec w ops) = foldl ring_push (newRing zero_Event ec) (pushed_events ops)"
  "dh_disconnects (dh_run pc qc ec w ops) =
     foldl ring_push (newRing 0 64) (pushed_disconnects ops)"
  "dh_windowSec (dh_run pc qc ec w ops) = w"
proof (induction ops rule: rev_induct)
  case Nil
  show "dh_probes (dh_run pc qc ec w []) = foldl ring_push (newRing zero_probeRec pc) (pushed_probes [])"
    "dh_points (dh_run pc qc ec w []) = foldl ring_push (newRing zero_HistoryPoint qc) (pushed_points [])"
    "dh_events (dh_run pc qc ec w []) = foldl ring_push (newRing zero_Event ec) (pushed_events [])"
    "dh_disconnects (dh_run pc qc ec w []) = foldl ring_push (newRing 0 64) (pushed_disconnects [])"
    "dh_windowSec (dh_run pc qc ec w []) = w"
    by (simp_all add: dh_run_def NewDeviceHistory_def pushed_defs)
next
  case (snoc op ops)
  { case 1 show ?case using snoc by (cases op) (simp_all add: dh_run_def dh_defs pushed_defs) }
  { case 2 show ?case using snoc by (cases op) (simp_all add: dh_run_def dh_defs pushed_defs) }
  { case 3 show ?case using snoc by (cases op) (simp_all add: dh_run_def dh_defs pushed_defs) }
  { case 4 show ?case using snoc by (cases op) (simp_all add: dh_run_def dh_defs pushed_defs) }
  { case 5 show ?case using snoc by (cases op) (simp_all add: dh_run_def dh_defs pushed_defs) }
qed

lemma ring_pushes: "0 < n \<Longrightarrow> ring_items (foldl ring_push (newRing z n) vs) = lastn n vs"
  using ringlog.items_pushes [of z "n - 1" vs] by simp

lemma dh_run_snoc: "dh_run pc qc ec w (ops @ [op]) = dh_apply (dh_run pc qc ec w ops) op"
  by (simp add: dh_run_def)

lemma recomputeWindow_window:
  assumes "in_window now w ps \<noteq> []"
  shows "r_RecentAvailability (recomputeWindow ps now w rel) =
           real (length (filter pr_ok (in_window now w ps))) / real (length (in_window now w ps))"
    and "r_RecentFailureRate (recomputeWindow ps now w rel) =
           1 - r_RecentAvailability (recomputeWindow ps now w rel)"
proof -
  let ?w = "in_window now w ps"
  have le: "length (filter pr_ok ?w) \<le> length ?w" by (rule length_filter_le)
  have pos: "0 < length ?w" using assms by simp
  show "r_RecentAvailability (recomputeWindow ps now w rel) =
      real (length (filter pr_ok ?w)) / real (length ?w)"
    using assms by (simp add: recomputeWindow_def Let_def)
  then show "r_RecentFailureRate (recomputeWindow ps now w rel) =
      1 - r_RecentAvailability (recomputeWindow ps now w rel)"
    using assms le pos
    by (simp add: recomputeWindow_def Let_def of_nat_diff diff_divide_distrib)
qed

section \<open>Percentiles\<close>

text \<open>The rank, the index below it, and the value between the two neighbours.\<close>

lemma percentile_between:
  assumes "sorted xs" and "1 < length xs" and "0 \<le> p" and "p \<le> 100"
  defines "rank \<equiv> p / 100 * real (length xs - 1)"
  defines "lo \<equiv> nat \<lfloor>rank\<rfloor>"
  shows "lo \<le> length xs - 1" and "xs ! lo \<le> percentile xs p"
    and "lo < length xs - 1 \<Longrightarrow> percentile xs p \<le> xs ! (lo + 1)"
    and "percentile xs p \<le> xs ! (length xs - 1)"
    and "lo < length xs - 1 \<Longrightarrow>
      percentile xs p = xs ! lo + (rank - real lo) * (xs ! (lo + 1) - xs ! lo)"
proof -
  let ?n = "length xs - 1"
  have r: "0 \<le> rank" "rank \<le> real ?n"
    using assms(3,4) mult_right_mono [of "p / 100" 1 "real ?n"] by (simp_all add: rank_def)
  show lo: "lo \<le> ?n" using r by (simp add: lo_def) linarith
  have tr: "nat (go_trunc rank) = lo" using r by (simp add: go_trunc_def lo_def)
  have fr: "0 \<le> rank - real lo" "rank - real lo \<le> 1" using r by (simp_all add: lo_def) linarith+
  have eq: "percentile xs p = (if lo \<ge> ?n then xs ! ?n
      else xs ! lo + (rank - real lo) * (xs ! (lo + 1) - xs ! lo))"
    using assms(2) tr by (cases "xs = []") (simp_all add: percentile_def Let_def rank_def)
  show "percentile xs p = xs ! lo + (rank - real lo) * (xs ! (lo + 1) - xs ! lo)"
    if "lo < ?n" using eq that by simp
  have step: "xs ! lo \<le> xs ! (lo + 1)" if "lo < ?n"
    using that assms(1) by (intro sorted_nth_mono) auto
  show low: "xs ! lo \<le> percentile xs p"
    using eq lo fr step assms(1,2) by (auto intro: sorted_nth_mono)
  show hi: "percentile xs p \<le> xs ! (lo + 1)" if "lo < ?n"
  proof -
    have "(rank - real lo) * (xs ! (lo + 1) - xs ! lo) \<le> 1 * (xs ! (lo + 1) - xs ! lo)"
      using fr step [OF that] by (intro mult_right_mono) auto
    with eq that show ?thesis by simp
  qed
  show "percentile xs p \<le> xs ! ?n"
  proof (cases "lo < ?n")
    case True
    then have "xs ! (lo + 1) \<le> xs ! ?n" using assms(1,2) by (intro sorted_nth_mono) auto
    with hi [OF True] show ?thesis by simp
  qed (use eq in simp)
qed

lemma percentile_mono:
  assumes "sorted xs" and "0 \<le> p" and "p \<le> q" and "q \<le> 100"
  shows "percentile xs p \<le> percentile xs q"
proof (cases "1 < length xs")
  case True
  let ?n = "length xs - 1"
  define lp where "lp = nat \<lfloor>p / 100 * real ?n\<rfloor>"
  define lq where "lq = nat \<lfloor>q / 100 * real ?n\<rfloor>"
  have pq: "p / 100 * real ?n \<le> q / 100 * real ?n" using assms(3) by (intro mult_right_mono) auto
  note P = percentile_between [OF assms(1) True assms(2) order_trans [OF assms(3,4)],
      folded lp_def]
  note Q = percentile_between [OF assms(1) True order_trans [OF assms(2,3)] assms(4),
      folded lq_def]
  have le: "lp \<le> lq" unfolding lp_def lq_def using pq by (intro nat_mono floor_mono)
  show ?thesis
  proof (cases "lp = lq")
    case eq: True
    show ?thesis
    proof (cases "lq < ?n")
      case True
      then have "xs ! lq \<le> xs ! (lq + 1)" using assms(1) by (intro sorted_nth_mono) auto
      then have "(p / 100 * real ?n - real lq) * (xs ! (lq + 1) - xs ! lq)
          \<le> (q / 100 * real ?n - real lq) * (xs ! (lq + 1) - xs ! lq)"
        using pq by (intro mult_right_mono) auto
      with P(5) Q(5) True eq show ?thesis by simp
    next
      case False
      with Q(1,2) have "xs ! ?n \<le> percentile xs q" by simp
      with P(4) show ?thesis by simp
    qed
  next
    case False
    with le Q(1) have "lp < ?n" "lp + 1 \<le> lq" by auto
    moreover have "xs ! (lp + 1) \<le> xs ! lq"
      using calculation Q(1) True by (intro sorted_nth_mono [OF assms(1)]) auto
    ultimately show ?thesis using P(3) Q(2) by simp
  qed
qed (auto simp: percentile_def)

lemma percentile_bounds:
  assumes "sorted xs" and "xs \<noteq> []" and "0 \<le> p" and "p \<le> 100"
  shows "xs ! 0 \<le> percentile xs p" and "percentile xs p \<le> xs ! (length xs - 1)"
proof -
  have z: "percentile xs 0 = xs ! 0" using assms(2) by (cases xs) (auto simp: percentile_def go_trunc_def)
  show "xs ! 0 \<le> percentile xs p" using percentile_mono [OF assms(1) _ assms(3,4)] z by simp
  show "percentile xs p \<le> xs ! (length xs - 1)"
    using percentile_between(4) [OF assms(1) _ assms(3,4)] assms(2)
    by (cases "1 < length xs") (auto simp: percentile_def not_less Suc_le_eq dest: le_antisym)
qed

text \<open>What \<open>RecordProbe\<close> leaves in the reliability record.\<close>

lemma probe_run_rel:
  assumes "0 < pc"
  shows "\<exists>rel0. dh_rel (dh_run pc qc ec w (ops @ [HProbe ok l m t])) =
     recomputeWindow (lastn pc (pushed_probes (ops @ [HProbe ok l m t]))) m w rel0"
proof -
  let ?d = "dh_run pc qc ec w ops" and ?p = "\<lparr>pr_mono = m, pr_ok = ok, pr_latency = l\<rparr>"
  have "ring_items (ring_push (dh_probes ?d) ?p) = lastn pc (pushed_probes (ops @ [HProbe ok l m t]))"
    using ring_pushes [OF assms, of zero_probeRec "pushed_probes ops @ [?p]"]
    by (simp add: dh_run_rings pushed_probes_def)
  then show ?thesis
    by (auto simp: dh_run_snoc RecordProbe_def Let_def dh_run_rings(5))
qed

lemma probe_in_window:
  assumes "0 < pc" and "0 \<le> w"
  shows "in_window m w (lastn pc (pushed_probes (ops @ [HProbe ok l m t]))) \<noteq> []"
proof -
  have "0 \<le> dur_of_seconds w" using assms(2) by (simp add: dur_of_seconds_def go_trunc_nonneg)
  then show ?thesis
    using assms(1)
    by (simp add: pushed_probes_def lastn_snoc in_window_def window_cutoff_def filter_empty_conv)
qed

lemma recomputeWindow_latencies:
  fixes rel0 :: Reliability
  assumes "p \<in> set (in_window now w ps)" and "pr_ok p"
  defines "rel \<equiv> recomputeWindow ps now w rel0"
  shows "r_ProbeLatencyP50Ms rel \<le> r_ProbeLatencyP95Ms rel"
    and "\<exists>p \<in> set (in_window now w ps). pr_ok p \<and> pr_latency p \<le> r_ProbeLatencyP50Ms rel"
    and "\<exists>p \<in> set (in_window now w ps). pr_ok p \<and> r_ProbeLatencyP95Ms rel \<le> pr_latency p"
proof -
  define xs where "xs = sort (map pr_latency (filter pr_ok (in_window now w ps)))"
  have ne: "filter pr_ok (in_window now w ps) \<noteq> []" using assms(1,2) by (auto simp: filter_empty_conv)
  then have xs: "sorted xs" "xs \<noteq> []" by (simp_all add: xs_def) (metis length_0_conv length_sort length_map)
  have rel: "r_ProbeLatencyP50Ms rel = percentile xs 50" "r_ProbeLatencyP95Ms rel = percentile xs 95"
    using ne by (simp_all add: rel_def recomputeWindow_def Let_def xs_def)
  have mem: "\<exists>p \<in> set (in_window now w ps). pr_ok p \<and> pr_latency p = x" if "x \<in> set xs" for x
    using that by (auto simp: xs_def)
  show "r_ProbeLatencyP50Ms rel \<le> r_ProbeLatencyP95Ms rel"
    using percentile_mono [OF xs(1), of 50 95] rel by simp
  show "\<exists>p \<in> set (in_window now w ps). pr_ok p \<and> pr_latency p \<le> r_ProbeLatencyP50Ms rel"
    using percentile_bounds(1) [OF xs, of 50] mem [of "xs ! 0"] xs(2) rel by fastforce
  show "\<exists>p \<in> set (in_window now w ps). pr_ok p \<and> r_ProbeLatencyP95Ms rel \<le> pr_latency p"
    using percentile_bounds(2) [OF xs, of 95] mem [of "xs ! (length xs - 1)"] xs(2) rel by fastforce
qed

text \<open>The deltas that a series of supported readings of the error counter reports.\<close>

fun observe_all :: "DeviceHistory \<Rightarrow> 64 word list \<Rightarrow> 64 word list" where
  "observe_all d [] = []"
| "observe_all d (c # cs) =
     (let (delta, d') = ObserveUncorr c True d in delta # observe_all d' cs)"

lemma ObserveUncorr_delta:
  assumes "dh_haveUncorr d"
  shows "unat (fst (ObserveUncorr c True d)) = unat c - unat (dh_lastUncorr d)"
    and "dh_haveUncorr (snd (ObserveUncorr c True d))"
    and "dh_lastUncorr (snd (ObserveUncorr c True d)) = c"
  using assms
  by (auto simp: ObserveUncorr_def unat_sub word_less_nat_alt not_less order_less_imp_le
      word_le_nat_alt)

lemma observe_all_deltas:
  "dh_haveUncorr d \<Longrightarrow>
   map unat (observe_all d cs) = map2 (\<lambda>p c. unat c - unat p) (dh_lastUncorr d # cs) cs"
proof (induction cs arbitrary: d)
  case (Cons c cs)
  then show ?case
    using ObserveUncorr_delta [OF Cons.prems, of c] by (simp split: prod.split) fastforce
qed simp

lemma sorted_deltas_telescope:
  fixes p :: "64 word"
  shows "sorted (p # cs) \<Longrightarrow>
   sum_list (map2 (\<lambda>p c. unat c - unat p) (p # cs) cs) = unat (last (p # cs)) - unat p"
proof (induction cs arbitrary: p)
  case (Cons c cs)
  have "unat p \<le> unat c" using Cons.prems by (simp add: word_le_nat_alt)
  moreover have "c \<le> last (c # cs)" using Cons.prems by (cases cs rule: rev_cases) auto
  then have "unat c \<le> unat (last (c # cs))" by (simp add: word_le_nat_alt)
  ultimately show ?case using Cons.IH [of c] Cons.prems by simp
qed simp

section \<open>Properties\<close>

text \<open>Bounded history. After any sequence of calls, the events and points reported are exactly
  the last \<open>eventCap\<close> events and the last \<open>pointCap\<close> points recorded, oldest first.\<close>

lemma history_keeps_last:
  assumes "0 < qc" and "0 < ec"
  shows "Events (dh_run pc qc ec w ops) = lastn ec (pushed_events ops) \<and>
         Points (dh_run pc qc ec w ops) = lastn qc (pushed_points ops)"
  using assms by (simp add: Events_def Points_def dh_run_rings ring_pushes)

text \<open>The reliability window. After a probe is recorded, the availability is the fraction of
  successes among the retained probes whose clock reading is in the window, and availability and
  failure rate sum to one. If the window has a success, the reported median is at most the
  reported 95th percentile and both lie between latencies of successful probes in the window.\<close>

lemma probe_window_statistics:
  fixes ops qc ec ok l m t
  assumes "0 < pc" and "0 \<le> w"
  defines "rel \<equiv> dh_rel (dh_run pc qc ec w (ops @ [HProbe ok l m t]))"
  defines "win \<equiv> in_window m w (lastn pc (pushed_probes (ops @ [HProbe ok l m t])))"
  shows "r_RecentAvailability rel = real (length (filter pr_ok win)) / real (length win) \<and>
         r_RecentAvailability rel + r_RecentFailureRate rel = 1 \<and>
         ((\<exists>p \<in> set win. pr_ok p) \<longrightarrow>
           r_ProbeLatencyP50Ms rel \<le> r_ProbeLatencyP95Ms rel \<and>
           (\<exists>p \<in> set win. pr_ok p \<and> pr_latency p \<le> r_ProbeLatencyP50Ms rel) \<and>
           (\<exists>p \<in> set win. pr_ok p \<and> r_ProbeLatencyP95Ms rel \<le> pr_latency p))"
proof -
  obtain rel0 where rel: "rel = recomputeWindow (lastn pc (pushed_probes (ops @ [HProbe ok l m t]))) m w rel0"
    unfolding rel_def using probe_run_rel [OF assms(1)] by blast
  have "win \<noteq> []" unfolding win_def using assms(1,2) by (rule probe_in_window)
  note avail = recomputeWindow_window [OF this [unfolded win_def], of rel0, folded rel win_def]
  moreover have "r_ProbeLatencyP50Ms rel \<le> r_ProbeLatencyP95Ms rel \<and>
      (\<exists>p \<in> set win. pr_ok p \<and> pr_latency p \<le> r_ProbeLatencyP50Ms rel) \<and>
      (\<exists>p \<in> set win. pr_ok p \<and> r_ProbeLatencyP95Ms rel \<le> pr_latency p)"
    if "\<exists>p \<in> set win. pr_ok p"
    using that recomputeWindow_latencies [of _ m w _ rel0, folded rel] unfolding win_def rel by blast
  ultimately show ?thesis by simp
qed

text \<open>The error counter. Once a first reading is known, every supported reading reports exactly
  the increase over the previous reading and 0 after a counter reset, with no unsigned
  wrap-around; over a counter that never decreases the deltas add up to the total increase, so no
  error is counted twice or lost.\<close>

lemma error_deltas_exact:
  assumes "dh_haveUncorr d"
  shows "map unat (observe_all d cs) = map2 (\<lambda>p c. unat c - unat p) (dh_lastUncorr d # cs) cs \<and>
         (sorted (dh_lastUncorr d # cs) \<longrightarrow>
          sum_list (map unat (observe_all d cs)) =
            unat (last (dh_lastUncorr d # cs)) - unat (dh_lastUncorr d))"
  using observe_all_deltas [OF assms, of cs] sorted_deltas_telescope [of "dh_lastUncorr d" cs]
  by simp

section \<open>Witnesses\<close>

definition seen_history :: DeviceHistory where
  "seen_history = snd (ObserveUncorr 7 True (NewDeviceHistory 4 3 2 300))"

end
