(* ===== verification/Host_Supervisor.thy ===== *)
theory Host_Supervisor
  imports Lifecycle Stability_Score Device_History
begin

text \<open>
  The probe loop of one host: \<open>internal/engine/supervisor.go\<close>. The vendor adapter is not part of the
  state: what its \<open>Sample\<close> and \<open>AccessProbe\<close> return for one poll, together with the two clock
  readings, is the argument \<open>ProbeInput\<close> of \<open>pollDevice\<close>. A device's \<open>lastStatus\<close> is \<open>None\<close> before
  the first poll, where Go has the zero struct.

  \<open>pollDevice\<close> is composed of the stages of the Go function in its order. Polls of a device come
  from one goroutine; operator calls (\<open>SetDraining\<close>) interleave with them as whole operations.
\<close>

section \<open>The worker event log\<close>

record workerEventLog =
  wl_disappearances :: "duration list"
  wl_appearances :: "duration list"
  wl_windowSec :: real
  wl_maxEntries :: nat

definition newWorkerEventLog :: "real \<Rightarrow> nat \<Rightarrow> workerEventLog" where
  "newWorkerEventLog windowSec maxEntries =
     \<lparr>wl_disappearances = [], wl_appearances = [], wl_windowSec = windowSec,
      wl_maxEntries = maxEntries\<rparr>"

definition pruneTimes :: "duration list \<Rightarrow> duration \<Rightarrow> real \<Rightarrow> nat \<Rightarrow> duration list" where
  "pruneTimes s now windowSec maxEntries =
     (let s1 = dropWhile (\<lambda>t. t < window_cutoff now windowSec) s
      in if length s1 > maxEntries then drop (length s1 - maxEntries) s1 else s1)"

definition prune_disappearances :: "duration \<Rightarrow> workerEventLog \<Rightarrow> workerEventLog" where
  "prune_disappearances now w =
     w\<lparr>wl_disappearances :=
         pruneTimes (wl_disappearances w) now (wl_windowSec w) (wl_maxEntries w)\<rparr>"

definition prune_appearances :: "duration \<Rightarrow> workerEventLog \<Rightarrow> workerEventLog" where
  "prune_appearances now w =
     w\<lparr>wl_appearances := pruneTimes (wl_appearances w) now (wl_windowSec w) (wl_maxEntries w)\<rparr>"

definition recordDisappearance :: "duration \<Rightarrow> workerEventLog \<Rightarrow> workerEventLog" where
  "recordDisappearance now w =
     prune_disappearances now (w\<lparr>wl_disappearances := wl_disappearances w @ [now]\<rparr>)"

definition recordAppearance :: "duration \<Rightarrow> workerEventLog \<Rightarrow> workerEventLog" where
  "recordAppearance now w =
     prune_appearances now (w\<lparr>wl_appearances := wl_appearances w @ [now]\<rparr>)"

definition disappearancesInWindow :: "duration \<Rightarrow> workerEventLog \<Rightarrow> int \<times> workerEventLog" where
  "disappearancesInWindow now w =
     (let w1 = prune_disappearances now w in (int (length (wl_disappearances w1)), w1))"

definition rapidRestartSec :: real where
  "rapidRestartSec = 10"

definition rapidRestartEvents ::
  "duration \<Rightarrow> real \<Rightarrow> workerEventLog \<Rightarrow> int \<times> workerEventLog" where
  "rapidRestartEvents now rapidSec w =
     (let w1 = prune_appearances now (prune_disappearances now w);
          thresh = dur_of_seconds rapidSec
      in (int (length (filter
            (\<lambda>d. list_ex (\<lambda>a. a > d \<and> a - d \<le> thresh) (wl_appearances w1))
            (wl_disappearances w1))), w1))"

section \<open>Per-device state\<close>

record deviceState =
  dv_identity :: Identity
  dv_machine :: LifecycleMachine
  dv_stab :: StabilityCalc
  dv_hist :: DeviceHistory
  dv_wasOffline :: bool
  dv_offlineMono :: duration
  dv_lastStatus :: "DeviceStatus option"
  dv_collected :: bool
  dv_lastProbeOK :: bool
  dv_lastSampleWall :: walltime
  dv_lastSampleMono :: duration
  dv_workerSeen :: bool
  dv_workerEvents :: workerEventLog

definition last_health :: "deviceState \<Rightarrow> Health" where
  "last_health ds = (case dv_lastStatus ds of None \<Rightarrow> zero_Health | Some st \<Rightarrow> ds_Health st)"

text \<open>What one poll reads from outside: the adapter's results and the clocks.\<close>

record ProbeInput =
  pi_health :: Health
  pi_access :: bool
  pi_mono :: duration
  pi_wall :: walltime

definition base_event :: "walltime \<Rightarrow> string \<Rightarrow> EventKind \<Rightarrow> Event" where
  "base_event wall devID k = zero_Event\<lparr>ev_Timestamp := wall, ev_DeviceID := devID, ev_Kind := k\<rparr>"

definition on_hist :: "(DeviceHistory \<Rightarrow> DeviceHistory) \<Rightarrow> deviceState \<Rightarrow> deviceState" where
  "on_hist f ds = ds\<lparr>dv_hist := f (dv_hist ds)\<rparr>"

section \<open>Stages of a poll\<close>

definition classifyFailure :: "Health \<Rightarrow> bool \<Rightarrow> bool \<times> bool \<times> string" where
  "classifyFailure h access =
     (case pf_Class (h_ProbeFailure h) of
        FailureHard \<Rightarrow> (True, False, pf_Reason (h_ProbeFailure h))
      | FailureSoft \<Rightarrow> (False, True, pf_Reason (h_ProbeFailure h))
      | FailureNone \<Rightarrow> if \<not> access then (False, True, ReasonGPUAccessProbeFail)
                       else (False, False, []))"

definition currentUncorr :: "Health \<Rightarrow> 64 word \<times> bool" where
  "currentUncorr h =
     (if fSupported (h_ECCUncorrectable h) then (fValue (h_ECCUncorrectable h), True)
      else if fSupported (h_RASUncorrectable h) then (fValue (h_RASUncorrectable h), True)
      else (0, False))"

text \<open>The stability update of a poll: the inputs from the history after the probe was recorded,
  and the worker log, which the two counting functions prune.\<close>

definition poll_stability ::
  "64 word \<Rightarrow> duration \<Rightarrow> walltime \<Rightarrow> deviceState \<Rightarrow> StabilityScore \<times> deviceState" where
  "poll_stability newUncorr now wall ds =
     (let rel = dh_rel (dv_hist ds);
          thrVar = (if fSupported (r_ThroughputVariance rel) then fValue (r_ThroughputVariance rel)
                    else Fin (-1));
          (disapp, w1) = disappearancesInWindow now (dv_workerEvents ds);
          (rapid, w2) = rapidRestartEvents now rapidRestartSec w1;
          inp = \<lparr>in_RecentAvailability = r_RecentAvailability rel,
                 in_ConsecutiveFailures = r_ConsecutiveFailures rel,
                 in_DisconnectsInWindow = DisconnectsInWindow now (dv_hist ds),
                 in_LastRecoveryMs = r_LastRecoveryMs rel,
                 in_ErrorCountDelta = newUncorr,
                 in_LatencyP95Ms = r_ProbeLatencyP95Ms rel,
                 in_LatencyP50Ms = r_ProbeLatencyP50Ms rel,
                 in_ThroughputVariance = thrVar,
                 in_WorkerDisappearancesObserved = disapp,
                 in_ConfirmedAbnormalWorkerExits = 0,
                 in_ConfirmedOOMEvents = 0,
                 in_RapidRestartEvents = rapid\<rparr>;
          (stab', score) = Update (dv_stab ds) inp wall
      in (score, ds\<lparr>dv_stab := stab', dv_workerEvents := w2\<rparr>))"

definition joinReasons :: "string list \<Rightarrow> string" where
  "joinReasons codes =
     (case codes of [] \<Rightarrow> ''healthy'' | c # cs \<Rightarrow> foldl (\<lambda>out x. out @ '','' @ x) c cs)"

definition probeFailDetail :: "Health \<Rightarrow> string" where
  "probeFailDetail h =
     (if h_UnsupportedFields h \<noteq> [] then last (h_UnsupportedFields h) else ''probe failed'')"

fun failure_string :: "FailureClass \<Rightarrow> string" where
  "failure_string FailureNone = []"
| "failure_string FailureHard = ''hard''"
| "failure_string FailureSoft = ''soft''"

definition disconnect_edge ::
  "LifecycleState \<Rightarrow> LifecycleInfo \<Rightarrow> string \<Rightarrow> duration \<Rightarrow> walltime \<Rightarrow> deviceState \<Rightarrow> deviceState" where
  "disconnect_edge newState info devID now wall ds =
     (if newState = StateOffline \<and> \<not> dv_wasOffline ds then
        on_hist (\<lambda>h. AddEvent ((base_event wall devID EventDisconnect)
            \<lparr>ev_Detail := ''device entered OFFLINE'', ev_ReasonCodes := li_ReasonCodes info,
             ev_Evidence := [(''hard_offline'', EvBool (li_HardOffline info)),
               (''consecutive_soft_failures'', EvInt (li_ConsecutiveSoftFailures info))]\<rparr>)
            (MarkDisconnect now h))
          (ds\<lparr>dv_wasOffline := True, dv_offlineMono := now\<rparr>)
      else ds)"

definition rejoin_edge ::
  "LifecycleState \<Rightarrow> string \<Rightarrow> duration \<Rightarrow> walltime \<Rightarrow> deviceState \<Rightarrow> deviceState" where
  "rejoin_edge newState devID now wall ds =
     (if dv_wasOffline ds \<and> newState = StateRecovering then
        (let recMs = real_of_int (dur_Milliseconds (now - dv_offlineMono ds))
         in on_hist (\<lambda>h. AddEvent ((base_event wall devID EventRejoin)
               \<lparr>ev_Detail := ''probe recovered, entering RECOVERING'',
                ev_To := Some StateRecovering,
                ev_Evidence := [(''recovery_duration_ms'', EvReal recMs)]\<rparr>)
               (MarkRejoin recMs h))
             (ds\<lparr>dv_wasOffline := False\<rparr>))
      else ds)"

definition transition_event ::
  "bool \<Rightarrow> LifecycleState \<Rightarrow> LifecycleState \<Rightarrow> LifecycleInfo \<Rightarrow> string \<Rightarrow> walltime \<Rightarrow> deviceState \<Rightarrow>
   deviceState" where
  "transition_event transitioned prevState newState info devID wall ds =
     (if transitioned then
        on_hist (AddEvent ((base_event wall devID EventStateTransition)
          \<lparr>ev_From := Some prevState, ev_To := Some newState,
           ev_Detail := joinReasons (li_ReasonCodes info),
           ev_ReasonCodes := li_ReasonCodes info\<rparr>)) ds
      else ds)"

definition failure_event ::
  "bool \<Rightarrow> Health \<Rightarrow> string \<Rightarrow> string \<Rightarrow> walltime \<Rightarrow> deviceState \<Rightarrow> deviceState" where
  "failure_event probeOK h failReason devID wall ds =
     (if \<not> probeOK then
        on_hist (AddEvent ((base_event wall devID EventProbeFailure)
          \<lparr>ev_Detail := probeFailDetail h, ev_ReasonCodes := [failReason],
           ev_Evidence := [(''class'', EvString (failure_string (pf_Class (h_ProbeFailure h))))]\<rparr>)) ds
      else ds)"

text \<open>\<open>int64(a) - int64(b)\<close> on two \<open>uint64\<close> values: the wrapped difference, read as signed.\<close>

definition int64_diff :: "64 word \<Rightarrow> 64 word \<Rightarrow> int" where
  "int64_diff a b = sint (a - b)"

text \<open>The detail of a disappearance ends in a dash and ``neutral'' in the source, which is not
  ASCII; the model has the text before it.\<close>

definition detectWorkers ::
  "string \<Rightarrow> Health \<Rightarrow> walltime \<Rightarrow> duration \<Rightarrow> deviceState \<Rightarrow> deviceState" where
  "detectWorkers devID h wall now ds =
     (let cur = fValue (h_ComputeProcs h);
          prev = fValue (h_ComputeProcs (last_health ds));
          lastMem = h_MemUsedBytes (last_health ds)
      in if \<not> fSupported (h_ComputeProcs h) then ds
         else if \<not> fSupported (h_ComputeProcs (last_health ds)) then
           (if cur > 0
            then on_hist (AddEvent ((base_event wall devID EventWorkerObserved)
                     \<lparr>ev_Detail := ''compute process present'',
                      ev_Evidence := [(''process_count'', EvInt cur)]\<rparr>))
                   (ds\<lparr>dv_workerSeen := True\<rparr>)
            else ds)
         else if cur > prev then
           on_hist (\<lambda>hist. AddEvent ((base_event wall devID EventWorkerStarted)
               \<lparr>ev_Detail := ''compute process count increased'',
                ev_Evidence := [(''previous_process_count'', EvInt prev),
                                (''current_process_count'', EvInt cur)]\<rparr>)
               ((MarkWorkerStart ^^ nat (cur - prev)) hist))
             (ds\<lparr>dv_workerSeen := True,
                 dv_workerEvents := recordAppearance now (dv_workerEvents ds)\<rparr>)
         else if cur < prev then
           on_hist (\<lambda>hist. AddEvent ((base_event wall devID EventWorkerDisappeared)
               \<lparr>ev_Detail :=
                  ''compute process count decreased (cause NOT observable from host signals)'',
                ev_TerminationCause := CauseUnknown, ev_GroundTruthSource := [],
                ev_Evidence := [(''previous_process_count'', EvInt prev),
                  (''current_process_count'', EvInt cur),
                  (''memory_released_bytes'',
                   EvInt (if fSupported lastMem \<and> fSupported (h_MemUsedBytes h)
                          then int64_diff (fValue lastMem) (fValue (h_MemUsedBytes h)) else 0))]\<rparr>)
               ((MarkWorkerStop ^^ nat (prev - cur)) hist))
             (ds\<lparr>dv_workerEvents := recordDisappearance now (dv_workerEvents ds)\<rparr>)
         else ds)"

definition computeCapacityHint :: "Health \<Rightarrow> real \<Rightarrow> CapacityHint" where
  "computeCapacityHint h stability =
     (let freeRatio = Fin (h_EffectiveFreeMemRatio h);
          utilHeadroom = (if fSupported (h_UtilizationGPU h)
             then f64_sub (Fin 1) (f64_mul (fValue (h_UtilizationGPU h)) (Fin (1 / 100)))
             else Fin 1)
      in \<lparr>ch_HostCapacityHint =
            clamp01 (f64_mul (f64_mul freeRatio utilHeadroom) (Fin stability)),
          ch_CapacitySemantics = ''heuristic_host_derived'',
          ch_Components = [(''free_memory_ratio'', clamp01 freeRatio),
                           (''utilization_headroom'', clamp01 utilHeadroom),
                           (''stability_score'', clamp01 (Fin stability))],
          ch_RuntimeServingCapacitySupported = False\<rparr>)"

section \<open>One poll of one device\<close>

definition poll_observation ::
  "Health \<Rightarrow> bool \<Rightarrow> bool \<times> bool \<times> string \<Rightarrow> real \<Rightarrow> 64 word \<Rightarrow> duration \<Rightarrow> LifecycleObservation" where
  "poll_observation h access cls score newUncorr now =
     \<lparr>o_ProbeOK = h_GPUVisible h \<and> access, o_GPUVisible = h_GPUVisible h,
      o_GPUAccessible = access, o_HardOfflineEvidence = fst cls, o_SoftFailure = fst (snd cls),
      o_UtilPct = fValue (h_UtilizationGPU h), o_UtilSupported = fSupported (h_UtilizationGPU h),
      o_FreeMemRatio = h_EffectiveFreeMemRatio h, o_StabilityScore = score,
      o_NewUncorrErrors = newUncorr, o_Mono = now, o_ProbeFailReason = snd (snd cls)\<rparr>"

text \<open>Everything from the sample to the lifecycle step: the health record as published, the
  observation given to \<open>Step\<close>, the stability score, and the device state before the step.\<close>

definition poll_front ::
  "bool \<Rightarrow> ProbeInput \<Rightarrow> deviceState \<Rightarrow> Health \<times> LifecycleObservation \<times> StabilityScore \<times> deviceState" where
  "poll_front accessEach inp ds =
     (let now = pi_mono inp; wall = pi_wall inp;
          access = (if accessEach then pi_access inp else h_GPUVisible (pi_health inp));
          h0 = (pi_health inp)\<lparr>h_GPUAccessible := access\<rparr>;
          probeOK = (h_GPUVisible h0 \<and> access);
          ds1 = on_hist (RecordProbe probeOK (h_ProbeLatencyMs h0) now wall) ds;
          h = h0\<lparr>h_HeartbeatOK := True\<rparr>;
          cls = classifyFailure h access;
          (cur, sup) = currentUncorr h;
          (newUncorr, hist) = ObserveUncorr cur sup (dv_hist ds1);
          ds2 = ds1\<lparr>dv_hist := hist\<rparr>;
          (score, ds3) = poll_stability newUncorr now wall ds2
      in (h, poll_observation h access cls (ss_Score score) newUncorr now, score, ds3))"

definition pollState :: "bool \<Rightarrow> string \<Rightarrow> ProbeInput \<Rightarrow> deviceState \<Rightarrow> deviceState" where
  "pollState accessEach devID inp ds =
     (let now = pi_mono inp; wall = pi_wall inp;
          (h, ob, score, ds1) = poll_front accessEach inp ds;
          prevState = lm_state (dv_machine ds1);
          (m, newState, transitioned) = Step (dv_machine ds1) ob;
          info = Info m;
          ds2 = disconnect_edge newState info devID now wall (ds1\<lparr>dv_machine := m\<rparr>);
          ds3 = rejoin_edge newState devID now wall ds2;
          ds4 = transition_event transitioned prevState newState info devID wall ds3;
          ds5 = failure_event (o_ProbeOK ob) h (o_ProbeFailReason ob) devID wall ds4;
          ds6 = detectWorkers devID h wall now ds5;
          status = \<lparr>ds_Identity = dv_identity ds6, ds_Health = h, ds_LifecycleState = newState,
                    ds_Lifecycle = info, ds_Reliability = dh_rel (dv_hist ds6),
                    ds_Stability = score, ds_Capacity = computeCapacityHint h (ss_Score score)\<rparr>;
          point = \<lparr>hp_Timestamp = wall, hp_DeviceID = devID, hp_LifecycleState = newState,
                   hp_StabilityScore = ss_Score score,
                   hp_UtilGPU = fValue (h_UtilizationGPU h),
                   hp_MemUsedBytes = fValue (h_MemUsedBytes h),
                   hp_TemperatureC = fValue (h_TemperatureC h), hp_ProbeOK = o_ProbeOK ob,
                   hp_ProbeLatencyMs = h_ProbeLatencyMs h\<rparr>;
          ds7 = on_hist (AddPoint point) ds6;
          ds8 = ds7\<lparr>dv_collected := True, dv_lastProbeOK := o_ProbeOK ob\<rparr>;
          ds9 = (if o_ProbeOK ob then ds8\<lparr>dv_lastSampleWall := wall, dv_lastSampleMono := now\<rparr>
                 else ds8)
      in ds9\<lparr>dv_lastStatus := Some status\<rparr>)"

text \<open>The device part of \<open>Supervisor.SetDraining\<close>: the result says whether anything changed.\<close>

definition drain_device ::
  "string \<Rightarrow> bool \<Rightarrow> string \<Rightarrow> walltime \<Rightarrow> deviceState \<Rightarrow> deviceState \<times> bool" where
  "drain_device devID d source wall ds =
     (let (m, prevState, changed) = SetDrainingChecked d (dv_machine ds)
      in if \<not> changed then (ds, False)
         else (on_hist (AddEvent ((base_event wall devID EventStateTransition)
                 \<lparr>ev_From := Some prevState, ev_To := Some prevState,
                  ev_Detail := ''operator drain change'', ev_ReasonCodes := [ReasonOperatorDrain],
                  ev_Evidence := [(''draining_previous'', EvBool (\<not> d)),
                    (''draining_new'', EvBool d), (''request_source'', EvString source)]\<rparr>))
               (ds\<lparr>dv_machine := m\<rparr>), True))"

section \<open>The supervisor\<close>

text \<open>The set of known process ids, which is created and never read, is left out.\<close>

record Supervisor =
  sv_devices :: "string \<Rightarrow> deviceState option"
  sv_order :: "string list"
  sv_vendor :: Vendor
  sv_instanceID :: string
  sv_hostname :: string
  sv_bootID :: string
  sv_version :: string
  sv_startWall :: walltime
  sv_lifeCfg :: LifecycleConfig
  sv_stabCfg :: StabilityConfig
  sv_winSec :: real
  sv_probeRingCap :: nat
  sv_pointRingCap :: nat
  sv_eventRingCap :: nat
  sv_accessEach :: bool
  sv_maxTelemetryAge :: duration
  sv_pollInterval :: duration

definition NewSupervisor ::
  "Vendor \<Rightarrow> string \<Rightarrow> string \<Rightarrow> string \<Rightarrow> string \<Rightarrow> LifecycleConfig \<Rightarrow> StabilityConfig \<Rightarrow> real \<Rightarrow>
   nat \<Rightarrow> nat \<Rightarrow> nat \<Rightarrow> bool \<Rightarrow> walltime \<Rightarrow> Supervisor" where
  "NewSupervisor vendor inst host boot ver lifeCfg stabCfg winSec pc qc ec accessEach wall =
     \<lparr>sv_devices = (\<lambda>_. None), sv_order = [], sv_vendor = vendor, sv_instanceID = inst,
      sv_hostname = host, sv_bootID = boot, sv_version = ver, sv_startWall = wall,
      sv_lifeCfg = lifeCfg, sv_stabCfg = stabCfg, sv_winSec = winSec, sv_probeRingCap = pc,
      sv_pointRingCap = qc, sv_eventRingCap = ec, sv_accessEach = accessEach,
      sv_maxTelemetryAge = 15 * Second, sv_pollInterval = 2 * Second\<rparr>"

definition newDeviceState :: "Supervisor \<Rightarrow> Identity \<Rightarrow> deviceState" where
  "newDeviceState s ident =
     \<lparr>dv_identity = ident\<lparr>id_SidecarInstanceID := sv_instanceID s, id_Hostname := sv_hostname s,
        id_BootID := sv_bootID s, id_SidecarVersion := sv_version s,
        id_BackendID := sv_hostname s @ ''-gpu'' @ id_DeviceID ident\<rparr>,
      dv_machine = NewLifecycleMachine (sv_lifeCfg s),
      dv_stab = NewStabilityCalc (sv_stabCfg s),
      dv_hist = MarkSidecarStart (NewDeviceHistory (sv_probeRingCap s) (sv_pointRingCap s)
                  (sv_eventRingCap s) (sv_winSec s)),
      dv_wasOffline = False, dv_offlineMono = 0, dv_lastStatus = None, dv_collected = False,
      dv_lastProbeOK = False, dv_lastSampleWall = 0, dv_lastSampleMono = 0, dv_workerSeen = False,
      dv_workerEvents = newWorkerEventLog (sv_winSec s) (sv_eventRingCap s)\<rparr>"

definition add_device :: "string list \<Rightarrow> Supervisor \<Rightarrow> Identity \<Rightarrow> Supervisor" where
  "add_device deviceFilter s ident =
     (if deviceFilter \<noteq> [] \<and> id_DeviceID ident \<notin> set deviceFilter then s
      else s\<lparr>sv_devices := (sv_devices s)(id_DeviceID ident \<mapsto> newDeviceState s ident),
             sv_order := sv_order s @ [id_DeviceID ident]\<rparr>)"

text \<open>\<open>discovered\<close> is the result of the adapter's \<open>Discover\<close>; its error is passed on.\<close>

definition Init ::
  "string list \<Rightarrow> string + Identity list \<Rightarrow> Supervisor \<Rightarrow> string option \<times> Supervisor" where
  "Init deviceFilter discovered s =
     (case discovered of Inl err \<Rightarrow> (Some err, s)
      | Inr ids \<Rightarrow> (None, foldl (add_device deviceFilter) s ids))"

definition pollDevice :: "string \<Rightarrow> ProbeInput \<Rightarrow> Supervisor \<Rightarrow> Supervisor" where
  "pollDevice devID inp s =
     (case sv_devices s devID of None \<Rightarrow> s
      | Some ds \<Rightarrow>
          s\<lparr>sv_devices := (sv_devices s)(devID \<mapsto> pollState (sv_accessEach s) devID inp ds)\<rparr>)"

text \<open>\<open>PollOnce\<close> polls the devices in order; \<open>probe\<close> gives the inputs of each poll.\<close>

definition PollOnce :: "(string \<Rightarrow> ProbeInput) \<Rightarrow> Supervisor \<Rightarrow> Supervisor" where
  "PollOnce probe s = foldl (\<lambda>s devID. pollDevice devID (probe devID) s) s (sv_order s)"

definition sup_SetDraining ::
  "string \<Rightarrow> bool \<Rightarrow> string \<Rightarrow> walltime \<Rightarrow> Supervisor \<Rightarrow> Supervisor \<times> bool \<times> bool" where
  "sup_SetDraining devID d source wall s =
     (case sv_devices s devID of None \<Rightarrow> (s, False, False)
      | Some ds \<Rightarrow> (let (ds', changed) = drain_device devID d source wall ds
                   in if \<not> changed then (s, True, False)
                      else (s\<lparr>sv_devices := (sv_devices s)(devID \<mapsto> ds')\<rparr>, True, True)))"

definition sup_Draining :: "string \<Rightarrow> Supervisor \<Rightarrow> bool" where
  "sup_Draining devID s =
     (case sv_devices s devID of None \<Rightarrow> False | Some ds \<Rightarrow> lm_draining (dv_machine ds))"

definition sup_SetThroughputVariance :: "string \<Rightarrow> f64 \<Rightarrow> Supervisor \<Rightarrow> Supervisor" where
  "sup_SetThroughputVariance devID cov s =
     (case sv_devices s devID of None \<Rightarrow> s
      | Some ds \<Rightarrow> s\<lparr>sv_devices :=
          (sv_devices s)(devID \<mapsto> on_hist (SetThroughputVariance cov) ds)\<rparr>)"

text \<open>The reports. \<open>s.devices[devID]\<close> for an id in \<open>order\<close> is never nil.\<close>

definition device_at :: "Supervisor \<Rightarrow> string \<Rightarrow> deviceState" where
  "device_at s devID = the (sv_devices s devID)"

definition sup_History :: "Supervisor \<Rightarrow> HistoryPoint list" where
  "sup_History s = concat (map (\<lambda>devID. Points (dv_hist (device_at s devID))) (sv_order s))"

definition sup_Events :: "Supervisor \<Rightarrow> Event list" where
  "sup_Events s = concat (map (\<lambda>devID. Events (dv_hist (device_at s devID))) (sv_order s))"

section \<open>Readiness\<close>

record DeviceReadiness =
  dr_DeviceID :: string
  dr_Ready :: bool
  dr_LifecycleState :: string
  dr_TelemetryAgeMs :: int
  dr_Reasons :: "string list"

record ReadinessResult =
  rr_ControlPlaneReady :: bool
  rr_AnyDeviceReady :: bool
  rr_AllDevicesReady :: bool
  rr_ReadyDeviceCount :: nat
  rr_TotalDeviceCount :: nat
  rr_Reasons :: "string list"
  rr_Details :: "DeviceReadiness list"

definition collectorStalled :: "walltime \<Rightarrow> Supervisor \<Rightarrow> bool" where
  "collectorStalled now s =
     (let dss = map (device_at s) (sv_order s);
          anyCollected = list_ex dv_collected dss;
          newest = foldl (\<lambda>n ds. if h_Timestamp (last_health ds) > n
                                 then h_Timestamp (last_health ds) else n) 0 dss;
          limit0 = 3 * sv_pollInterval s;
          limit = (if limit0 < 6 * Second then 6 * Second else limit0)
      in if \<not> anyCollected \<or> time_IsZero newest then True else now - newest > limit)"

definition deviceReadinessLocked ::
  "string \<Rightarrow> walltime \<Rightarrow> bool \<Rightarrow> Supervisor \<Rightarrow> DeviceReadiness" where
  "deviceReadinessLocked devID now stalled s =
     (let ds = device_at s devID;
          h = last_health ds;
          offline = (case dv_lastStatus ds of None \<Rightarrow> False
                     | Some st \<Rightarrow> ds_LifecycleState st = StateOffline);
          sampled = (\<not> time_IsZero (dv_lastSampleWall ds));
          reasons =
            (if \<not> dv_collected ds then [''NO_COLLECTION_YET''] else []) @
            (if \<not> h_GPUVisible h then [''GPU_NOT_VISIBLE''] else []) @
            (if \<not> h_GPUAccessible h then [''GPU_NOT_ACCESSIBLE''] else []) @
            (if \<not> dv_lastProbeOK ds then [''LAST_PROBE_FAILED''] else []) @
            (if sampled
             then (if now - dv_lastSampleWall ds > sv_maxTelemetryAge s
                   then [''TELEMETRY_STALE''] else [])
             else [''NO_SUCCESSFUL_SAMPLE'']) @
            (if offline then [''LIFECYCLE_OFFLINE''] else []) @
            (if stalled then [''COLLECTOR_STALLED''] else [])
      in \<lparr>dr_DeviceID = devID, dr_Ready = (reasons = []),
          dr_LifecycleState = (case dv_lastStatus ds of None \<Rightarrow> []
                               | Some st \<Rightarrow> state_string (ds_LifecycleState st)),
          dr_TelemetryAgeMs = (if sampled then dur_Milliseconds (now - dv_lastSampleWall ds) else - 1),
          dr_Reasons = reasons\<rparr>)"

text \<open>\<open>Readiness\<close>: the reasons keep the order of first occurrence; \<open>seen\<close> holds exactly the codes
  already in the result. The deprecated aliases of the result (\<open>Ready\<close>, \<open>ReadyDevices\<close>,
  \<open>TotalDevices\<close>) are left out.\<close>

definition add_reason :: "string list \<Rightarrow> string \<Rightarrow> string list" where
  "add_reason out r = (if r \<in> set out then out else out @ [r])"

definition Readiness :: "walltime \<Rightarrow> Supervisor \<Rightarrow> ReadinessResult" where
  "Readiness now s =
     (let stalled = collectorStalled now s;
          details = map (\<lambda>devID. deviceReadinessLocked devID now stalled s) (sv_order s);
          count = length (filter dr_Ready details);
          total = length (sv_order s);
          anyReady = (count > 0);
          cpReady = (anyReady \<and> \<not> stalled);
          reasons = foldl add_reason (if stalled then [''COLLECTOR_STALLED''] else [])
                      (concat (map dr_Reasons details))
      in \<lparr>rr_ControlPlaneReady = cpReady, rr_AnyDeviceReady = anyReady,
          rr_AllDevicesReady = (total > 0 \<and> count = total),
          rr_ReadyDeviceCount = count, rr_TotalDeviceCount = total,
          rr_Reasons = (if cpReady then []
                        else if reasons = [] then [''NO_READY_DEVICES''] else reasons),
          rr_Details = details\<rparr>)"

definition sup_DeviceReadiness :: "string \<Rightarrow> walltime \<Rightarrow> Supervisor \<Rightarrow> DeviceReadiness option" where
  "sup_DeviceReadiness devID now s =
     (case sv_devices s devID of None \<Rightarrow> None
      | Some _ \<Rightarrow> Some (deviceReadinessLocked devID now (collectorStalled now s) s))"

definition sup_HostStatus :: "walltime \<Rightarrow> Supervisor \<Rightarrow> HostStatus" where
  "sup_HostStatus now s =
     \<lparr>hs_SidecarInstanceID = sv_instanceID s, hs_Hostname = sv_hostname s,
      hs_Vendor = sv_vendor s, hs_SidecarVersion = sv_version s, hs_BootID = sv_bootID s,
      hs_Timestamp = now, hs_UptimeSeconds = dur_Seconds (now - sv_startWall s),
      hs_Devices = map (\<lambda>devID. dv_lastStatus (device_at s devID)) (sv_order s)\<rparr>"

section \<open>What the stages keep\<close>

text \<open>Honest events: a host sidecar that only sees process counts never claims a cause.\<close>

definition honest_event :: "Event \<Rightarrow> bool" where
  "honest_event e \<longleftrightarrow>
     ev_Kind e \<notin> {EventWorkerExitObserved, EventWorkerCrashConfirmed, EventWorkerOOMConfirmed,
                   EventWorkerTerminationUnknown} \<and>
     ev_TerminationCause e \<in> {CauseNone, CauseUnknown} \<and>
     (ev_Kind e = EventWorkerDisappeared \<longrightarrow> ev_TerminationCause e = CauseUnknown)"

definition hist_inv :: "nat \<Rightarrow> DeviceHistory \<Rightarrow> bool" where
  "hist_inv ec h \<longleftrightarrow> ring_ok ec (dh_events h) \<and> (\<forall>e \<in> set (Events h). honest_event e)"

abbreviation disconnects_of :: "DeviceHistory \<Rightarrow> int" where
  "disconnects_of h \<equiv> r_DisconnectCount (dh_rel h)"

abbreviation rejoins_of :: "DeviceHistory \<Rightarrow> int" where
  "rejoins_of h \<equiv> r_RejoinCount (dh_rel h)"

lemma recomputeWindow_counts [simp]:
  "r_DisconnectCount (recomputeWindow ps t w rel) = r_DisconnectCount rel"
  "r_RejoinCount (recomputeWindow ps t w rel) = r_RejoinCount rel"
  by (simp_all add: recomputeWindow_def Let_def)

lemma hist_events [simp]:
  "dh_events (RecordProbe ok l t w h) = dh_events h"
  "dh_events (snd (ObserveUncorr c sp h)) = dh_events h"
  "dh_events (AddPoint p h) = dh_events h"
  "dh_events (MarkWorkerStart h) = dh_events h" "dh_events (MarkWorkerStop h) = dh_events h"
  "dh_events (MarkDisconnect t h) = dh_events h" "dh_events (MarkRejoin ms h) = dh_events h"
  "dh_events (SetThroughputVariance v h) = dh_events h"
  by (simp_all add: dh_defs)

lemma hist_counts [simp]:
  "dh_rel (AddEvent e h) = dh_rel h" "dh_rel (AddPoint p h) = dh_rel h"
  "disconnects_of (RecordProbe ok l t w h) = disconnects_of h"
  "rejoins_of (RecordProbe ok l t w h) = rejoins_of h"
  "dh_rel (snd (ObserveUncorr c sp h)) = dh_rel h"
  "disconnects_of (MarkWorkerStart h) = disconnects_of h"
  "rejoins_of (MarkWorkerStart h) = rejoins_of h"
  "disconnects_of (MarkWorkerStop h) = disconnects_of h"
  "rejoins_of (MarkWorkerStop h) = rejoins_of h"
  "disconnects_of (MarkDisconnect t h) = disconnects_of h + 1"
  "rejoins_of (MarkDisconnect t h) = rejoins_of h"
  "disconnects_of (MarkRejoin ms h) = disconnects_of h"
  "rejoins_of (MarkRejoin ms h) = rejoins_of h + 1"
  "disconnects_of (SetThroughputVariance v h) = disconnects_of h"
  "rejoins_of (SetThroughputVariance v h) = rejoins_of h"
  by (simp_all add: dh_defs)

lemma mark_workers [simp]:
  "dh_events ((MarkWorkerStart ^^ n) h) = dh_events h"
  "dh_events ((MarkWorkerStop ^^ n) h) = dh_events h"
  "disconnects_of ((MarkWorkerStart ^^ n) h) = disconnects_of h"
  "rejoins_of ((MarkWorkerStart ^^ n) h) = rejoins_of h"
  "disconnects_of ((MarkWorkerStop ^^ n) h) = disconnects_of h"
  "rejoins_of ((MarkWorkerStop ^^ n) h) = rejoins_of h"
  by (induction n) simp_all

lemma hist_inv_cong: "dh_events h = dh_events h' \<Longrightarrow> hist_inv ec h = hist_inv ec h'"
  by (simp add: hist_inv_def Events_def)

lemma hist_inv_AddEvent: "hist_inv ec h \<Longrightarrow> honest_event e \<Longrightarrow> hist_inv ec (AddEvent e h)"
proof -
  assume a: "hist_inv ec h" "honest_event e"
  have "set (Events (AddEvent e h)) \<subseteq> insert e (set (Events h))"
    using a(1) set_lastn_subset [of ec "ring_items (dh_events h) @ [e]"]
    by (simp add: Events_def AddEvent_def hist_inv_def ring_items_push [of ec])
  with a show ?thesis by (auto simp: hist_inv_def AddEvent_def)
qed

lemma hist_inv_AddPoint [simp]: "hist_inv ec (AddPoint p h) = hist_inv ec h"
  by (rule hist_inv_cong) simp

lemma base_event_honest [simp]:
  "ev_Kind (base_event w d k) = k" "ev_TerminationCause (base_event w d k) = CauseNone"
  by (simp_all add: base_event_def zero_Event_def)

lemma on_hist_simps [simp]:
  "dv_hist (on_hist f ds) = f (dv_hist ds)" "dv_machine (on_hist f ds) = dv_machine ds"
  "dv_wasOffline (on_hist f ds) = dv_wasOffline ds"
  "dv_lastStatus (on_hist f ds) = dv_lastStatus ds"
  by (simp_all add: on_hist_def)

text \<open>A stage that adds at most one honest event and touches neither the machine, the offline flag
  nor the two counters.\<close>

definition quiet_stage :: "deviceState \<Rightarrow> deviceState \<Rightarrow> bool" where
  "quiet_stage ds ds' \<longleftrightarrow>
     dv_machine ds' = dv_machine ds \<and> dv_wasOffline ds' = dv_wasOffline ds \<and>
     disconnects_of (dv_hist ds') = disconnects_of (dv_hist ds) \<and>
     rejoins_of (dv_hist ds') = rejoins_of (dv_hist ds) \<and>
     (\<forall>ec. hist_inv ec (dv_hist ds) \<longrightarrow> hist_inv ec (dv_hist ds'))"

lemma quiet_trans: "quiet_stage a b \<Longrightarrow> quiet_stage b c \<Longrightarrow> quiet_stage a c"
  by (simp add: quiet_stage_def)

lemma quiet_poll_front: "quiet_stage ds (snd (snd (snd (poll_front ae inp ds))))"
proof -
  have hi: "hist_inv ec (snd (ObserveUncorr c sp (RecordProbe ok l t w h))) = hist_inv ec h"
    for ec c sp ok l t w h
    by (rule hist_inv_cong) simp
  show ?thesis
    by (auto simp: quiet_stage_def poll_front_def poll_stability_def Let_def hi
        split: prod.splits dest!: arg_cong [of "ObserveUncorr _ _ _" _ snd])
qed

lemma quiet_transition_event: "quiet_stage ds (transition_event tr p n info d w ds)"
  by (auto simp: quiet_stage_def transition_event_def honest_event_def intro!: hist_inv_AddEvent)

lemma quiet_failure_event: "quiet_stage ds (failure_event ok h r d w ds)"
  by (auto simp: quiet_stage_def failure_event_def honest_event_def intro!: hist_inv_AddEvent)

lemma quiet_detectWorkers: "quiet_stage ds (detectWorkers devID h w t ds)"
proof -
  have 1: "hist_inv ec ((MarkWorkerStart ^^ n) k) = hist_inv ec k"
      "hist_inv ec ((MarkWorkerStop ^^ n) k) = hist_inv ec k" for ec n k
    by (rule hist_inv_cong, simp)+
  show ?thesis
    by (auto simp: quiet_stage_def detectWorkers_def Let_def honest_event_def 1
        intro!: hist_inv_AddEvent)
qed

section \<open>The device invariant\<close>

text \<open>The offline flag of a device is set exactly while its machine is OFFLINE, and at any time
  every disconnect but the current one has its rejoin.\<close>

definition dev_inv :: "nat \<Rightarrow> deviceState \<Rightarrow> bool" where
  "dev_inv ec ds \<longleftrightarrow>
     latch_inv (dv_machine ds) \<and>
     (dv_wasOffline ds \<longleftrightarrow> lm_state (dv_machine ds) = StateOffline) \<and>
     disconnects_of (dv_hist ds) - rejoins_of (dv_hist ds) = (if dv_wasOffline ds then 1 else 0) \<and>
     hist_inv ec (dv_hist ds)"

text \<open>The only way out of OFFLINE is RECOVERING.\<close>

lemma leave_offline:
  assumes "lm_state m = StateOffline"
  shows "lm_state (fst (Step m ob)) \<in> {StateOffline, StateRecovering}"
  using assms by (cases rule: Step_cases [of ob m]) (auto simp: lm_defs Let_def)

lemma Step_state_result: "Step m ob = (m', st, tr) \<Longrightarrow> st = lm_state m'"
  by (cases rule: Step_cases [of ob m]) (auto simp: lm_defs Let_def split: if_splits)

text \<open>The two edge detectors, as one step of the flag and the counters.\<close>

lemma edges_inv:
  fixes ds info devID t w
  assumes "dv_wasOffline ds \<longleftrightarrow> lm_state m0 = StateOffline"
    and "lm_state m0 = StateOffline \<Longrightarrow> st \<in> {StateOffline, StateRecovering}"
    and "disconnects_of (dv_hist ds) - rejoins_of (dv_hist ds) = (if dv_wasOffline ds then 1 else 0)"
    and "hist_inv ec (dv_hist ds)"
  defines "ds' \<equiv> rejoin_edge st devID t w (disconnect_edge st info devID t w ds)"
  shows "dv_machine ds' = dv_machine ds" and "dv_wasOffline ds' \<longleftrightarrow> st = StateOffline"
    and "disconnects_of (dv_hist ds') - rejoins_of (dv_hist ds') = (if dv_wasOffline ds' then 1 else 0)"
    and "hist_inv ec (dv_hist ds')"
proof -
  have mk: "hist_inv ec (MarkDisconnect t h) = hist_inv ec h" "hist_inv ec (MarkRejoin ms h) = hist_inv ec h"
    for ms h by (rule hist_inv_cong, simp)+
  show "dv_machine ds' = dv_machine ds"
    by (simp add: ds'_def rejoin_edge_def disconnect_edge_def Let_def)
  show "dv_wasOffline ds' \<longleftrightarrow> st = StateOffline"
    using assms(1,2) by (auto simp: ds'_def rejoin_edge_def disconnect_edge_def Let_def)
  show "disconnects_of (dv_hist ds') - rejoins_of (dv_hist ds') = (if dv_wasOffline ds' then 1 else 0)"
    using assms(1-3) by (auto simp: ds'_def rejoin_edge_def disconnect_edge_def Let_def)
  show "hist_inv ec (dv_hist ds')"
    using assms(4)
    by (auto simp: ds'_def rejoin_edge_def disconnect_edge_def Let_def honest_event_def mk
        intro!: hist_inv_AddEvent)
qed

lemma dev_inv_quiet: "dev_inv ec ds \<Longrightarrow> quiet_stage ds ds' \<Longrightarrow> dev_inv ec ds'"
  by (simp add: dev_inv_def quiet_stage_def)

text \<open>The observation that a poll hands to the lifecycle machine.\<close>

definition poll_obs :: "bool \<Rightarrow> ProbeInput \<Rightarrow> deviceState \<Rightarrow> LifecycleObservation" where
  "poll_obs accessEach inp ds = fst (snd (poll_front accessEach inp ds))"

text \<open>The shape of a poll: a quiet front, the step with its edges, and a quiet rest.\<close>

lemma pollState_shape:
  fixes ae devID ds inp
  defines "ds1 \<equiv> snd (snd (snd (poll_front ae inp ds)))" and "ob \<equiv> poll_obs ae inp ds"
  defines "m \<equiv> fst (Step (dv_machine ds) ob)"
  defines "mid \<equiv> rejoin_edge (lm_state m) devID (pi_mono inp) (pi_wall inp)
     (disconnect_edge (lm_state m) (Info m) devID (pi_mono inp) (pi_wall inp)
       (ds1\<lparr>dv_machine := m\<rparr>))"
  shows "quiet_stage ds ds1" and "quiet_stage mid (pollState ae devID inp ds)"
proof -
  show q: "quiet_stage ds ds1" unfolding ds1_def by (rule quiet_poll_front)
  obtain h score where F: "poll_front ae inp ds = (h, ob, score, ds1)"
    unfolding ds1_def ob_def poll_obs_def by (metis prod.collapse)
  have M: "dv_machine ds1 = dv_machine ds" using q by (simp add: quiet_stage_def)
  obtain tr where S: "Step (dv_machine ds1) ob = (m, lm_state m, tr)"
    unfolding M m_def using Step_state_result by (metis prod.collapse)
  let ?w = "pi_wall inp" and ?t = "pi_mono inp"
  let ?a = "transition_event tr (lm_state (dv_machine ds1)) (lm_state m) (Info m) devID ?w mid"
  let ?b = "failure_event (o_ProbeOK ob) h (o_ProbeFailReason ob) devID ?w ?a"
  let ?c = "detectWorkers devID h ?w ?t ?b"
  have "quiet_stage mid ?c"
    by (rule quiet_trans [OF quiet_transition_event quiet_trans [OF quiet_failure_event
          quiet_detectWorkers]])
  moreover have "quiet_stage ?c (pollState ae devID inp ds)"
    unfolding pollState_def F S Let_def mid_def by (simp add: quiet_stage_def Let_def F S)
  ultimately show "quiet_stage mid (pollState ae devID inp ds)" by (rule quiet_trans)
qed

lemma pollState_machine: "dv_machine (pollState ae devID inp ds) =
  fst (Step (dv_machine ds) (poll_obs ae inp ds))"
  using pollState_shape(2) [where ds = ds and inp = inp and ae = ae and devID = devID]
  by (simp add: quiet_stage_def rejoin_edge_def disconnect_edge_def Let_def)

lemma dev_inv_pollState:
  assumes "dev_inv ec ds"
  shows "dev_inv ec (pollState ae devID inp ds)"
proof -
  let ?ds1 = "snd (snd (snd (poll_front ae inp ds)))"
  let ?m = "fst (Step (dv_machine ds) (poll_obs ae inp ds))"
  let ?ds2 = "?ds1\<lparr>dv_machine := ?m\<rparr>"
  note shape = pollState_shape(1) [where ds = ds and inp = inp and ae = ae]
    pollState_shape(2) [where ds = ds and inp = inp and ae = ae and devID = devID]
  have inv1: "dev_inv ec ?ds1" by (rule dev_inv_quiet [OF assms shape(1)])
  have M: "dv_machine ?ds1 = dv_machine ds" using shape(1) by (simp add: quiet_stage_def)
  note e = edges_inv [where ds = ?ds2 and ?m0.0 = "dv_machine ds" and st = "lm_state ?m" and ec = ec
      and t = "pi_mono inp" and w = "pi_wall inp" and devID = devID and info = "Info ?m"]
  have "dev_inv ec (rejoin_edge (lm_state ?m) devID (pi_mono inp) (pi_wall inp)
     (disconnect_edge (lm_state ?m) (Info ?m) devID (pi_mono inp) (pi_wall inp) ?ds2))"
    using e leave_offline inv1 M assms unfolding dev_inv_def by (simp add: latch_inv_Step)
  then show ?thesis using shape(2) by (rule dev_inv_quiet)
qed

section \<open>Histories of a supervisor\<close>

datatype SupOp =
    SPoll string ProbeInput | SDrain string bool string walltime | SVariance string f64

fun sup_apply :: "Supervisor \<Rightarrow> SupOp \<Rightarrow> Supervisor" where
  "sup_apply s (SPoll devID inp) = pollDevice devID inp s"
| "sup_apply s (SDrain devID d src wall) = fst (sup_SetDraining devID d src wall s)"
| "sup_apply s (SVariance devID cov) = sup_SetThroughputVariance devID cov s"

text \<open>A supervisor that was initialised with the discovered devices and then operated.\<close>

definition sup_run ::
  "Supervisor \<Rightarrow> string list \<Rightarrow> Identity list \<Rightarrow> SupOp list \<Rightarrow> Supervisor" where
  "sup_run s0 flt ids ops = foldl sup_apply (snd (Init flt (Inr ids) s0)) ops"

definition fresh_supervisor :: "Supervisor \<Rightarrow> bool" where
  "fresh_supervisor s \<longleftrightarrow> sv_order s = [] \<and> sv_devices s = (\<lambda>_. None) \<and> 0 < sv_eventRingCap s"

lemma NewSupervisor_fresh: "0 < ec \<Longrightarrow> fresh_supervisor
  (NewSupervisor v i h b ver lc sc w pc qc ec ae t)"
  by (simp add: fresh_supervisor_def NewSupervisor_def)

definition sup_inv :: "nat \<Rightarrow> Supervisor \<Rightarrow> bool" where
  "sup_inv ec s \<longleftrightarrow> sv_eventRingCap s = ec \<and> 0 < ec \<and> dom (sv_devices s) = set (sv_order s) \<and>
     (\<forall>devID ds. sv_devices s devID = Some ds \<longrightarrow> dev_inv ec ds)"

lemma dev_inv_new: "0 < sv_eventRingCap s \<Longrightarrow> dev_inv (sv_eventRingCap s) (newDeviceState s i)"
  by (simp add: dev_inv_def newDeviceState_def latch_inv_new hist_inv_def Events_def
      MarkSidecarStart_def NewDeviceHistory_def zero_Reliability_def)
     (simp add: NewLifecycleMachine_def)

lemma sup_inv_add_device: "sup_inv ec s \<Longrightarrow> sup_inv ec (add_device flt s i)"
  using dev_inv_new [of s i] by (auto simp: sup_inv_def add_device_def)

lemma sup_inv_Init: "fresh_supervisor s \<Longrightarrow> sup_inv (sv_eventRingCap s) (snd (Init flt (Inr ids) s))"
proof -
  assume "fresh_supervisor s"
  then have "sup_inv (sv_eventRingCap s) s" by (simp add: sup_inv_def fresh_supervisor_def)
  then have "sup_inv (sv_eventRingCap s) (foldl (add_device flt) s ids)"
    by (induction ids rule: rev_induct) (auto intro: sup_inv_add_device)
  then show ?thesis by (simp add: Init_def)
qed

lemma dev_inv_drain: "dev_inv ec ds \<Longrightarrow> dev_inv ec (fst (drain_device devID d src w ds))"
  by (auto simp: drain_device_def SetDrainingChecked_def dev_inv_def latch_inv_def honest_event_def
      intro!: hist_inv_AddEvent)

lemma dev_inv_variance: "dev_inv ec ds \<Longrightarrow> dev_inv ec (on_hist (SetThroughputVariance v) ds)"
  by (rule dev_inv_quiet) (auto simp: quiet_stage_def cong: hist_inv_cong
      intro: hist_inv_cong [THEN iffD1, rotated])

lemma sup_inv_apply: "sup_inv ec s \<Longrightarrow> sup_inv ec (sup_apply s op)"
proof (cases op)
  case (SPoll devID inp)
  then show "sup_inv ec s \<Longrightarrow> ?thesis"
    by (auto simp: sup_inv_def pollDevice_def dev_inv_pollState split: option.splits)
next
  case (SDrain devID d src w)
  then show "sup_inv ec s \<Longrightarrow> ?thesis"
    using dev_inv_drain [of ec _ devID d src w]
    by (auto simp: sup_inv_def sup_SetDraining_def Let_def split: option.splits prod.splits)
       (metis fst_conv)
next
  case (SVariance devID cov)
  then show "sup_inv ec s \<Longrightarrow> ?thesis"
    by (auto simp: sup_inv_def sup_SetThroughputVariance_def dev_inv_variance split: option.splits)
qed

interpretation supm: inv_machine "snd (Init flt (Inr ids) s0)" sup_apply
  "\<lambda>s. fresh_supervisor s0 \<longrightarrow> sup_inv (sv_eventRingCap s0) s"
  by unfold_locales (auto intro: sup_inv_Init sup_inv_apply)

lemma sup_run_inv: "fresh_supervisor s0 \<Longrightarrow> sup_inv (sv_eventRingCap s0) (sup_run s0 flt ids ops)"
  unfolding sup_run_def using supm.inv_run by blast

lemma device_at_inv:
  "sup_inv ec s \<Longrightarrow> devID \<in> set (sv_order s) \<Longrightarrow> dev_inv ec (device_at s devID)"
  unfolding sup_inv_def device_at_def by (metis domD option.sel)

section \<open>Readiness and pruning\<close>

text \<open>The documented conditions for trusting a device's status.\<close>

definition trustworthy :: "walltime \<Rightarrow> Supervisor \<Rightarrow> string \<Rightarrow> bool" where
  "trustworthy now s devID \<longleftrightarrow>
     (let ds = device_at s devID; h = last_health ds in
      dv_collected ds \<and> h_GPUVisible h \<and> h_GPUAccessible h \<and> dv_lastProbeOK ds \<and>
      dv_lastSampleWall ds \<noteq> 0 \<and> now - dv_lastSampleWall ds \<le> sv_maxTelemetryAge s \<and>
      map_option ds_LifecycleState (dv_lastStatus ds) \<noteq> Some StateOffline)"

lemma device_ready_iff:
  "dr_Ready (deviceReadinessLocked devID now stalled s) \<longleftrightarrow> trustworthy now s devID \<and> \<not> stalled"
  by (auto simp: deviceReadinessLocked_def trustworthy_def Let_def time_IsZero_def
      split: option.splits)

lemma device_ready_reasons:
  "dr_Ready (deviceReadinessLocked devID now stalled s) \<longleftrightarrow>
   dr_Reasons (deviceReadinessLocked devID now stalled s) = []"
  by (simp add: deviceReadinessLocked_def Let_def)

lemma add_reasons_set: "set (foldl add_reason out rs) = set out \<union> set rs"
  by (induction rs arbitrary: out) (auto simp: add_reason_def)

lemma pruneTimes_subset: "set (pruneTimes ts now w n) \<subseteq> set ts"
  by (auto simp: pruneTimes_def Let_def dest: in_set_dropD set_dropWhileD)

lemma pruneTimes_length: "length (pruneTimes ts now w n) \<le> n"
  by (simp add: pruneTimes_def Let_def)

lemma pruneTimes_sorted: "sorted ts \<Longrightarrow> sorted (pruneTimes ts now w n)"
  by (simp add: pruneTimes_def Let_def sorted_dropWhile)

text \<open>On a log in clock order, pruning keeps the newest of the entries in the window.\<close>

lemma pruneTimes_window:
  assumes "sorted ts"
  shows "pruneTimes ts now w n = lastn n (filter (\<lambda>t. window_cutoff now w \<le> t) ts)"
proof -
  have "dropWhile (\<lambda>t. t < window_cutoff now w) ts = filter (\<lambda>t. window_cutoff now w \<le> t) ts"
    using assms by (induction ts) (auto intro!: filter_True [symmetric])
  then show ?thesis by (simp add: pruneTimes_def Let_def lastn_def)
qed

lemma poll_obs_fields [simp]:
  fixes inp :: ProbeInput
  defines "access ae \<equiv> (if ae then pi_access inp else h_GPUVisible (pi_health inp))"
  shows "o_GPUVisible (poll_obs ae inp ds) = h_GPUVisible (pi_health inp)"
    and "o_GPUAccessible (poll_obs ae inp ds) = access ae"
    and "o_HardOfflineEvidence (poll_obs ae inp ds) =
           (pf_Class (h_ProbeFailure (pi_health inp)) = FailureHard)"
    and "o_SoftFailure (poll_obs ae inp ds) =
           (pf_Class (h_ProbeFailure (pi_health inp)) = FailureSoft \<or>
            pf_Class (h_ProbeFailure (pi_health inp)) = FailureNone \<and> \<not> access ae)"
    and "o_Mono (poll_obs ae inp ds) = pi_mono inp"
  by (auto simp: poll_obs_def poll_front_def poll_observation_def classifyFailure_def Let_def
      access_def split: prod.splits FailureClass.splits)

section \<open>Properties\<close>

text \<open>C7: Disconnect accounting. For every device of an initialised supervisor, after any
  interleaving of polls, drain requests and variance reports, the number of disconnects exceeds the
  number of rejoins by one exactly while the device is OFFLINE and equals it otherwise, and the
  supervisor's offline flag agrees with the lifecycle machine.\<close>

theorem disconnect_rejoin_balance:
  assumes "fresh_supervisor s0" and "sv_devices (sup_run s0 flt ids ops) devID = Some ds"
  shows "r_DisconnectCount (dh_rel (dv_hist ds)) = r_RejoinCount (dh_rel (dv_hist ds)) +
           (if lm_state (dv_machine ds) = StateOffline then 1 else 0) \<and>
         (dv_wasOffline ds \<longleftrightarrow> lm_state (dv_machine ds) = StateOffline)"
proof -
  have "dev_inv (sv_eventRingCap s0) ds"
    using sup_run_inv [OF assms(1), of flt ids ops] assms(2) by (auto simp: sup_inv_def)
  then show ?thesis by (auto simp: dev_inv_def split: if_splits)
qed

text \<open>C16: Evidence-only worker events. In every history the reported events never name a confirmed
  crash, OOM kill or supervised exit; a worker disappearance always has cause \<open>unknown\<close>; and each
  device contributes at most \<open>eventRingCap\<close> events.\<close>

theorem worker_cause_never_claimed:
  fixes flt ids ops
  assumes "fresh_supervisor s0"
  defines "s \<equiv> sup_run s0 flt ids ops"
  shows "(\<forall>e \<in> set (sup_Events s). honest_event e) \<and>
         (\<forall>devID \<in> set (sv_order s). length (Events (dv_hist (device_at s devID))) \<le> sv_eventRingCap s0)"
proof -
  have inv: "sup_inv (sv_eventRingCap s0) s" unfolding s_def by (rule sup_run_inv [OF assms(1)])
  have "dev_inv (sv_eventRingCap s0) (device_at s devID)" if "devID \<in> set (sv_order s)" for devID
    by (rule device_at_inv [OF inv that])
  then show ?thesis
    by (auto simp: sup_Events_def dev_inv_def hist_inv_def Events_def ring_ok_def)
qed


text \<open>The capacity hint is in the unit interval for every sample, also when the vendor tool
  reports NaN or an infinite utilisation, and for a sane sample it is the plain product of free
  memory ratio, utilisation headroom and stability.\<close>

lemma capacity_hint_bounds:
  "0 \<le> ch_HostCapacityHint (computeCapacityHint h st) \<and>
   ch_HostCapacityHint (computeCapacityHint h st) \<le> 1 \<and>
   (\<forall>u. fSupported (h_UtilizationGPU h) \<and> fValue (h_UtilizationGPU h) = Fin u \<and> 0 \<le> u \<and> u \<le> 100 \<and>
        0 \<le> h_EffectiveFreeMemRatio h \<and> h_EffectiveFreeMemRatio h \<le> 1 \<and> 0 \<le> st \<and> st \<le> 1 \<longrightarrow>
        ch_HostCapacityHint (computeCapacityHint h st) =
          h_EffectiveFreeMemRatio h * (1 - u / 100) * st)"
proof -
  have "0 \<le> a * (1 - u / 100) * b \<and> a * (1 - u / 100) * b \<le> 1"
    if "0 \<le> u" "u \<le> 100" "0 \<le> a" "a \<le> 1" "0 \<le> b" "b \<le> 1" for a b u :: real
    using that by (intro conjI mult_nonneg_nonneg mult_le_one) auto
  then show ?thesis
    by (simp add: computeCapacityHint_def Let_def f64_sub_def del: clamp01.simps)
qed

text \<open>Drain requests are idempotent. A request for an unmanaged device changes nothing and says
  so; for a managed device the drain flag has the requested value afterwards; and repeating the
  request is a no-op that reports no change.\<close>

lemma drain_request_idempotent:
  assumes "sup_SetDraining devID d src w s = (s', found, changed)"
  shows "(found \<longleftrightarrow> sv_devices s devID \<noteq> None) \<and> (\<not> changed \<longrightarrow> s' = s) \<and>
         (found \<longrightarrow> sup_Draining devID s' = d \<and>
            sup_SetDraining devID d src2 w2 s' = (s', True, False))"
  using assms
  by (auto simp: sup_SetDraining_def sup_Draining_def drain_device_def SetDrainingChecked_def
      on_hist_def Let_def split: option.splits if_splits prod.splits)

section \<open>Witnesses\<close>

text \<open>A host with one GPU that is gone at the first poll.\<close>

definition sample_supervisor :: Supervisor where
  "sample_supervisor = NewSupervisor VendorNVIDIA ''i'' ''h'' ''b'' ''v'' DefaultLifecycleConfig
     DefaultStabilityConfig 300 16 16 8 True 1"

definition sample_identity :: Identity where
  "sample_identity = \<lparr>id_SidecarInstanceID = [], id_Hostname = [], id_BackendID = [],
     id_Vendor = VendorNVIDIA, id_DeviceID = ''0'', id_GPUModel = [], id_GPUUUID = [],
     id_DriverVersion = [], id_RuntimeVersion = [], id_BootID = [], id_SidecarVersion = []\<rparr>"

definition gone_probe :: ProbeInput where
  "gone_probe = \<lparr>pi_health = zero_Health\<lparr>h_ProbeFailure :=
       \<lparr>pf_Class = FailureHard, pf_Reason = ReasonDeviceDisappeared, pf_Detail = []\<rparr>\<rparr>,
     pi_access = False, pi_mono = 5, pi_wall = 7\<rparr>"

lemma sample_fresh: "fresh_supervisor sample_supervisor"
  by (simp add: sample_supervisor_def NewSupervisor_fresh)

lemma sample_gone:
  "\<exists>ds. sv_devices (sup_run sample_supervisor [] [sample_identity] [SPoll ''0'' gone_probe]) ''0'' =
     Some ds \<and> lm_state (dv_machine ds) = StateOffline"
proof -
  have "obs_hard (poll_obs True gone_probe ds)" for ds
    by (simp add: obs_hard_def gone_probe_def)
  then have "lm_state (fst (Step m (poll_obs True gone_probe ds))) = StateOffline" for m ds
    by (simp add: Step_def step_hard_def Let_def)
  then show ?thesis
    by (simp add: sup_run_def Init_def add_device_def pollDevice_def sample_supervisor_def
        NewSupervisor_def sample_identity_def pollState_machine)
qed

theorem disconnect_rejoin_balance_witness:
  "\<exists>ds. sv_devices (sup_run sample_supervisor [] [sample_identity] [SPoll ''0'' gone_probe]) ''0'' =
     Some ds \<and> r_DisconnectCount (dh_rel (dv_hist ds)) = r_RejoinCount (dh_rel (dv_hist ds)) + 1"
  using sample_gone disconnect_rejoin_balance [OF sample_fresh] by fastforce

theorem worker_cause_never_claimed_witness:
  "list_all (\<lambda>e. ev_Kind e \<noteq> EventWorkerCrashConfirmed)
     (sup_Events (sup_run sample_supervisor [] [sample_identity] [SPoll ''0'' gone_probe]))"
  using worker_cause_never_claimed [OF sample_fresh, of "[]" "[sample_identity]"
      "[SPoll ''0'' gone_probe]"]
  by (auto simp: honest_event_def list_all_iff)

definition polled_supervisor :: Supervisor where
  "polled_supervisor = sup_run sample_supervisor [] [sample_identity] []"


definition idle_health :: Health where
  "idle_health = zero_Health\<lparr>h_UtilizationGPU := Sup (Fin 50), h_EffectiveFreeMemRatio := 1 / 2\<rparr>"

end
