(* ===== verification/Trajectory_Emitter.thy ===== *)
theory Trajectory_Emitter
  imports Core_Model
begin

text \<open>
  The bounded, asynchronous event emitter of \<open>internal/trajectory\<close> (\<open>emitter.go\<close>, \<open>sink.go\<close>). The
  channel is a list, the batch of the loop goroutine is part of the state. What the collector
  answers, whether a batch can be encoded and how long its lines are, and when a waiting sender
  gets its slot are inputs of the steps.

  The step relation has the senders and the loop as interleaved steps; its invariant accounts for
  every event that was ever handed to \<open>Emit\<close>.
\<close>

section \<open>Data\<close>

record TConfig =
  tc_Enabled :: bool
  tc_CollectorURL :: string
  tc_BatchSize :: int
  tc_FlushInterval :: duration
  tc_QueueCapacity :: int
  tc_RequestTimeout :: duration
  tc_LocalFallbackPath :: string
  tc_Source :: string

definition DefaultTConfig :: TConfig where
  "DefaultTConfig = \<lparr>tc_Enabled = True, tc_CollectorURL = ''http://127.0.0.1:9100/v1/events'',
     tc_BatchSize = 128, tc_FlushInterval = 500 * Millisecond, tc_QueueCapacity = 10000,
     tc_RequestTimeout = 500 * Millisecond, tc_LocalFallbackPath = [], tc_Source = []\<rparr>"

record TEvent =
  te_Kind :: string
  te_Source :: string
  te_RequestID :: string
  te_RouteID :: string
  te_BackendID :: string
  te_HostID :: string
  te_DeviceID :: string
  te_Wall :: walltime
  te_Fields :: "(string \<times> EvidenceValue) list"

definition terminalKinds :: "string list" where
  "terminalKinds = [''REQUEST_COMPLETED'', ''PARTIAL_STREAM_FAILED'', ''ROUTE_ATTEMPT_FAILED'',
     ''CLIENT_CANCELLED'', ''STREAM_COMPLETED'', ''QUEUE_REJECTED'', ''QUEUE_TIMED_OUT'',
     ''VLLM_REQUEST_FAILED'', ''UPSTREAM_CANCELLED'']"

text \<open>\<open>em_fbOpen\<close> says that the fallback file is open, \<open>em_batch\<close> is the local variable of \<open>loop\<close>.\<close>

record Emitter =
  em_cfg :: TConfig
  em_ch :: "TEvent list"
  em_batch :: "TEvent list"
  em_dropped :: nat
  em_sent :: nat
  em_failed :: nat
  em_fallback :: nat
  em_fbOpen :: bool
  em_fbBytes :: int

definition NewEmitter :: "bool \<Rightarrow> TConfig \<Rightarrow> Emitter" where
  "NewEmitter openOK cfg0 =
     (let cfg1 = (if tc_BatchSize cfg0 \<le> 0 then cfg0\<lparr>tc_BatchSize := 128\<rparr> else cfg0);
          cfg = (if tc_QueueCapacity cfg1 \<le> 0 then cfg1\<lparr>tc_QueueCapacity := 10000\<rparr> else cfg1)
      in \<lparr>em_cfg = cfg, em_ch = [], em_batch = [], em_dropped = 0, em_sent = 0, em_failed = 0,
          em_fallback = 0, em_fbOpen = (tc_LocalFallbackPath cfg \<noteq> [] \<and> openOK), em_fbBytes = 0\<rparr>)"

section \<open>Emit\<close>

definition complete_event :: "walltime \<Rightarrow> Emitter \<Rightarrow> TEvent \<Rightarrow> TEvent" where
  "complete_event now e ev0 =
     (let ev1 = (if te_Source ev0 = [] then ev0\<lparr>te_Source := tc_Source (em_cfg e)\<rparr> else ev0)
      in if time_IsZero (te_Wall ev1) then ev1\<lparr>te_Wall := now\<rparr> else ev1)"

definition has_room :: "Emitter \<Rightarrow> bool" where
  "has_room e \<longleftrightarrow> int (length (em_ch e)) < tc_QueueCapacity (em_cfg e)"

text \<open>The first \<open>select\<close>. A terminal event that finds the channel full goes on to wait; the second
  \<open>select\<close> then either enqueues it or gives up after two milliseconds.\<close>

datatype emit_outcome = EmitIgnored | EmitQueued | EmitDropped | EmitWaits TEvent

definition Emit :: "walltime \<Rightarrow> TEvent \<Rightarrow> Emitter \<Rightarrow> emit_outcome \<times> Emitter" where
  "Emit now ev0 e =
     (if \<not> tc_Enabled (em_cfg e) then (EmitIgnored, e)
      else let ev = complete_event now e ev0
           in if has_room e then (EmitQueued, e\<lparr>em_ch := em_ch e @ [ev]\<rparr>)
              else if te_Kind ev \<in> set terminalKinds then (EmitWaits ev, e)
              else (EmitDropped, e\<lparr>em_dropped := em_dropped e + 1\<rparr>))"

definition Emit_wait_send :: "TEvent \<Rightarrow> Emitter \<Rightarrow> Emitter" where
  "Emit_wait_send ev e = e\<lparr>em_ch := em_ch e @ [ev]\<rparr>"

definition Emit_wait_timeout :: "Emitter \<Rightarrow> Emitter" where
  "Emit_wait_timeout e = e\<lparr>em_dropped := em_dropped e + 1\<rparr>"

section \<open>Shipping\<close>

text \<open>One batch: whether \<open>json.Marshal\<close> succeeds, the collector's answers to the attempts (\<open>None\<close> for a
  transport error, else the status), and the bytes written for each event.\<close>

record ship_env =
  se_marshals :: bool
  se_answers :: "nat \<Rightarrow> int option"
  se_written :: "TEvent \<Rightarrow> int"

definition maxFallback :: int where
  "maxFallback = 64 * 1024 * 1024"

definition answer_ok :: "int option \<Rightarrow> bool" where
  "answer_ok a \<longleftrightarrow> (case a of None \<Rightarrow> False | Some st \<Rightarrow> 200 \<le> st \<and> st < 300)"

definition fallback_one :: "ship_env \<Rightarrow> Emitter \<Rightarrow> TEvent \<Rightarrow> Emitter" where
  "fallback_one env e ev = e\<lparr>em_fbBytes := em_fbBytes e + se_written env ev,
     em_fallback := em_fallback e + 1\<rparr>"

definition writeFallback :: "ship_env \<Rightarrow> TEvent list \<Rightarrow> Emitter \<Rightarrow> Emitter" where
  "writeFallback env batch e =
     (if \<not> em_fbOpen e then e
      else if em_fbBytes e > maxFallback then e
      else foldl (fallback_one env) e batch)"

primrec ship_attempts :: "ship_env \<Rightarrow> nat \<Rightarrow> nat \<Rightarrow> bool" where
  "ship_attempts env 0 attempt = False"
| "ship_attempts env (Suc left) attempt =
     (if answer_ok (se_answers env attempt) then True else ship_attempts env left (Suc attempt))"

definition ship :: "ship_env \<Rightarrow> TEvent list \<Rightarrow> Emitter \<Rightarrow> Emitter" where
  "ship env batch e =
     (if \<not> se_marshals env then e
      else if ship_attempts env 2 0 then e\<lparr>em_sent := em_sent e + length batch\<rparr>
      else writeFallback env batch (e\<lparr>em_failed := em_failed e + length batch\<rparr>))"

definition flush :: "ship_env \<Rightarrow> Emitter \<Rightarrow> Emitter" where
  "flush env e =
     (if em_batch e = [] then e else (ship env (em_batch e) e)\<lparr>em_batch := []\<rparr>)"

section \<open>The loop\<close>

text \<open>A received event is appended to the batch, and a full batch is flushed; a tick flushes.\<close>

definition loop_recv :: "ship_env \<Rightarrow> Emitter \<Rightarrow> Emitter" where
  "loop_recv env e =
     (case em_ch e of [] \<Rightarrow> e
      | ev # rest \<Rightarrow>
          let e1 = e\<lparr>em_ch := rest, em_batch := em_batch e @ [ev]\<rparr>
          in if int (length (em_batch e1)) \<ge> tc_BatchSize (em_cfg e1) then flush env e1 else e1)"

definition loop_tick :: "ship_env \<Rightarrow> Emitter \<Rightarrow> Emitter" where
  "loop_tick env e = flush env e"

text \<open>The drain at \<open>Stop\<close>: receive until the channel is empty, then flush. \<open>envs\<close> gives what each
  flush meets.\<close>

primrec drain_recv :: "(nat \<Rightarrow> ship_env) \<Rightarrow> nat \<Rightarrow> Emitter \<Rightarrow> Emitter" where
  "drain_recv envs 0 e = e"
| "drain_recv envs (Suc n) e = drain_recv envs n (loop_recv (envs (Suc n)) e)"

definition loop_stop :: "(nat \<Rightarrow> ship_env) \<Rightarrow> Emitter \<Rightarrow> Emitter" where
  "loop_stop envs e = flush (envs 0) (drain_recv envs (length (em_ch e)) e)"

record TStats =
  ts_Sent :: nat
  ts_Dropped :: nat
  ts_Failed :: nat
  ts_Fallback :: nat
  ts_QueueLen :: nat
  ts_QueueCap :: int

definition EmitterStats :: "Emitter \<Rightarrow> TStats" where
  "EmitterStats e = \<lparr>ts_Sent = em_sent e, ts_Dropped = em_dropped e, ts_Failed = em_failed e,
     ts_Fallback = em_fallback e, ts_QueueLen = length (em_ch e),
     ts_QueueCap = tc_QueueCapacity (em_cfg e)\<rparr>"

text \<open>\<open>SidecarSink\<close>: a local event of the data plane, as an event without a source.\<close>

record LocalEvent =
  le_Kind :: string
  le_RequestID :: string
  le_RouteID :: string
  le_BackendID :: string
  le_HostID :: string
  le_DeviceID :: string
  le_Wall :: walltime
  le_Fields :: "(string \<times> EvidenceValue) list"

definition sink_event :: "LocalEvent \<Rightarrow> TEvent" where
  "sink_event ev = \<lparr>te_Kind = le_Kind ev, te_Source = [], te_RequestID = le_RequestID ev,
     te_RouteID = le_RouteID ev, te_BackendID = le_BackendID ev, te_HostID = le_HostID ev,
     te_DeviceID = le_DeviceID ev, te_Wall = le_Wall ev, te_Fields = le_Fields ev\<rparr>"

definition SidecarSink_Emit :: "walltime \<Rightarrow> LocalEvent \<Rightarrow> Emitter \<Rightarrow> emit_outcome \<times> Emitter" where
  "SidecarSink_Emit now ev e = Emit now (sink_event ev) e"

section \<open>Senders and loop as a step relation\<close>

text \<open>The emitter with the senders that wait for a slot, the number of events handed to an enabled
  emitter, and the number of events in batches that could not be encoded.\<close>

record emsys =
  es_e :: Emitter
  es_waiters :: "TEvent list"
  es_given :: nat
  es_lost :: nat

definition start_emsys :: "bool \<Rightarrow> TConfig \<Rightarrow> emsys" where
  "start_emsys openOK cfg = \<lparr>es_e = NewEmitter openOK cfg, es_waiters = [], es_given = 0, es_lost = 0\<rparr>"

definition flush_lost :: "ship_env \<Rightarrow> Emitter \<Rightarrow> nat" where
  "flush_lost env e = (if se_marshals env then 0 else length (em_batch e))"

definition recv_lost :: "ship_env \<Rightarrow> Emitter \<Rightarrow> nat" where
  "recv_lost env e =
     (if em_ch e \<noteq> [] \<and> int (Suc (length (em_batch e))) \<ge> tc_BatchSize (em_cfg e) \<and>
         \<not> se_marshals env
      then Suc (length (em_batch e)) else 0)"

text \<open>\<open>L\<close> bounds the bytes of one line of the fallback file.\<close>

inductive emstep :: "int \<Rightarrow> emsys \<Rightarrow> emsys \<Rightarrow> bool" for L :: int where
  em_ignored: "Emit now ev (es_e S) = (EmitIgnored, e) \<Longrightarrow> emstep L S (S\<lparr>es_e := e\<rparr>)"
| em_queued: "Emit now ev (es_e S) = (EmitQueued, e) \<Longrightarrow>
    emstep L S (S\<lparr>es_e := e, es_given := es_given S + 1\<rparr>)"
| em_dropped: "Emit now ev (es_e S) = (EmitDropped, e) \<Longrightarrow>
    emstep L S (S\<lparr>es_e := e, es_given := es_given S + 1\<rparr>)"
| em_waits: "Emit now ev (es_e S) = (EmitWaits ev', e) \<Longrightarrow>
    emstep L S (S\<lparr>es_e := e, es_given := es_given S + 1, es_waiters := ev' # es_waiters S\<rparr>)"
| em_wait_send: "ev \<in> set (es_waiters S) \<Longrightarrow> has_room (es_e S) \<Longrightarrow>
    emstep L S (S\<lparr>es_e := Emit_wait_send ev (es_e S), es_waiters := remove1 ev (es_waiters S)\<rparr>)"
| em_wait_timeout: "ev \<in> set (es_waiters S) \<Longrightarrow>
    emstep L S (S\<lparr>es_e := Emit_wait_timeout (es_e S), es_waiters := remove1 ev (es_waiters S)\<rparr>)"
| em_recv: "(\<And>ev. 0 \<le> se_written env ev \<and> se_written env ev \<le> L) \<Longrightarrow>
    emstep L S (S\<lparr>es_e := loop_recv env (es_e S), es_lost := es_lost S + recv_lost env (es_e S)\<rparr>)"
| em_tick: "(\<And>ev. 0 \<le> se_written env ev \<and> se_written env ev \<le> L) \<Longrightarrow>
    emstep L S (S\<lparr>es_e := loop_tick env (es_e S), es_lost := es_lost S + flush_lost env (es_e S)\<rparr>)"

inductive emreach :: "int \<Rightarrow> emsys \<Rightarrow> emsys \<Rightarrow> bool" for L :: int and S0 :: emsys where
  emreach_refl: "emreach L S0 S0"
| emreach_step: "emreach L S0 S \<Longrightarrow> emstep L S S' \<Longrightarrow> emreach L S0 S'"

definition fb_bound :: "int \<Rightarrow> Emitter \<Rightarrow> int" where
  "fb_bound L e = maxFallback + L * tc_BatchSize (em_cfg e)"

definition em_inv :: "int \<Rightarrow> emsys \<Rightarrow> bool" where
  "em_inv L S \<longleftrightarrow>
     es_given S = em_dropped (es_e S) + em_sent (es_e S) + em_failed (es_e S) + es_lost S +
       length (em_ch (es_e S)) + length (em_batch (es_e S)) + length (es_waiters S) \<and>
     int (length (em_ch (es_e S))) \<le> tc_QueueCapacity (em_cfg (es_e S)) \<and>
     int (length (em_batch (es_e S))) < tc_BatchSize (em_cfg (es_e S)) \<and>
     em_fallback (es_e S) \<le> em_failed (es_e S) \<and>
     em_fbBytes (es_e S) \<le> fb_bound L (es_e S)"

lemma fallback_fold:
  "foldl (fallback_one env) e batch =
     e\<lparr>em_fbBytes := em_fbBytes e + (\<Sum>ev\<leftarrow>batch. se_written env ev),
       em_fallback := em_fallback e + length batch\<rparr>"
  by (induction batch arbitrary: e) (simp_all add: fallback_one_def)

lemma written_bound:
  assumes "\<And>ev. 0 \<le> se_written env ev \<and> se_written env ev \<le> L"
  shows "(\<Sum>ev\<leftarrow>batch. se_written env ev) \<le> L * int (length batch)"
  using assms by (induction batch) (auto simp: algebra_simps intro: add_mono)

text \<open>What a flush does to the counters.\<close>

lemma ship_counts:
  "em_sent (ship env b e) + em_failed (ship env b e) + (if se_marshals env then 0 else length b) =
     em_sent e + em_failed e + length b"
  "em_ch (ship env b e) = em_ch e" "em_dropped (ship env b e) = em_dropped e"
  "em_cfg (ship env b e) = em_cfg e" "em_batch (ship env b e) = em_batch e"
  by (auto simp: ship_def writeFallback_def fallback_fold)

lemma ship_fallback:
  assumes "em_fallback e \<le> em_failed e"
  shows "em_fallback (ship env b e) \<le> em_failed (ship env b e)"
  using assms by (auto simp: ship_def writeFallback_def fallback_fold)

lemma ship_bytes:
  assumes "\<And>ev. 0 \<le> se_written env ev \<and> se_written env ev \<le> L"
    and "int (length b) \<le> tc_BatchSize (em_cfg e)" and "em_fbBytes e \<le> fb_bound L e"
  shows "em_fbBytes (ship env b e) \<le> fb_bound L e"
proof -
  have L: "0 \<le> L" using assms(1) order_trans by blast
  have "(\<Sum>ev\<leftarrow>b. se_written env ev) \<le> L * tc_BatchSize (em_cfg e)"
    using written_bound [OF assms(1)] mult_left_mono [OF assms(2) L] order_trans by blast
  then show ?thesis using assms(3) by (auto simp: ship_def writeFallback_def fallback_fold fb_bound_def)
qed

lemma flush_simps:
  "em_sent (flush env e) + em_failed (flush env e) + flush_lost env e =
     em_sent e + em_failed e + length (em_batch e)"
  "em_batch (flush env e) = []" "em_ch (flush env e) = em_ch e"
  "em_dropped (flush env e) = em_dropped e" "em_cfg (flush env e) = em_cfg e"
  using ship_counts [of env "em_batch e" e] by (auto simp: flush_def flush_lost_def)

lemma flush_fb:
  assumes "\<And>ev. 0 \<le> se_written env ev \<and> se_written env ev \<le> L"
    and "int (length (em_batch e)) \<le> tc_BatchSize (em_cfg e)"
    and "em_fallback e \<le> em_failed e" and "em_fbBytes e \<le> fb_bound L e"
  shows "em_fallback (flush env e) \<le> em_failed (flush env e)"
    and "em_fbBytes (flush env e) \<le> fb_bound L (flush env e)"
  using ship_fallback [OF assms(3)] ship_bytes [OF assms(1,2,4)] assms(3,4)
  by (auto simp: flush_def fb_bound_def ship_counts)

lemma flush_inv:
  assumes "\<And>ev. 0 \<le> se_written env ev \<and> se_written env ev \<le> L"
    and "int (length (em_batch e)) \<le> tc_BatchSize (em_cfg e)" and "0 < tc_BatchSize (em_cfg e)"
    and "es_given S = em_dropped e + em_sent e + em_failed e + es_lost S +
       length (em_ch e) + length (em_batch e) + length (es_waiters S)"
    and "int (length (em_ch e)) \<le> tc_QueueCapacity (em_cfg e)"
    and "em_fallback e \<le> em_failed e" and "em_fbBytes e \<le> fb_bound L e"
  shows "em_inv L (S\<lparr>es_e := flush env e, es_lost := es_lost S + flush_lost env e\<rparr>)"
  using flush_simps [of env e] flush_fb [OF assms(1,2,6,7)] assms(3,4,5)
  by (simp add: em_inv_def)

lemma loop_recv_inv:
  assumes inv: "em_inv L S" and w: "\<And>ev. 0 \<le> se_written env ev \<and> se_written env ev \<le> L"
  shows "em_inv L (S\<lparr>es_e := loop_recv env (es_e S), es_lost := es_lost S + recv_lost env (es_e S)\<rparr>)"
proof (cases "em_ch (es_e S)")
  case Nil
  then show ?thesis using inv by (simp add: em_inv_def loop_recv_def recv_lost_def)
next
  case (Cons ev rest)
  let ?e = "(es_e S)\<lparr>em_ch := rest, em_batch := em_batch (es_e S) @ [ev]\<rparr>"
  have fl: "int (length (em_batch ?e)) \<ge> tc_BatchSize (em_cfg ?e) \<Longrightarrow>
      flush_lost env ?e = recv_lost env (es_e S)"
    by (auto simp: flush_lost_def recv_lost_def Cons)
  have "em_inv L (S\<lparr>es_e := flush env ?e, es_lost := es_lost S + flush_lost env ?e\<rparr>)"
    if "int (length (em_batch ?e)) \<ge> tc_BatchSize (em_cfg ?e)"
    using inv w Cons by (intro flush_inv) (auto simp: em_inv_def fb_bound_def)
  moreover have "em_inv L (S\<lparr>es_e := ?e\<rparr>)" if "\<not> int (length (em_batch ?e)) \<ge> tc_BatchSize (em_cfg ?e)"
    using inv that Cons by (simp add: em_inv_def fb_bound_def)
  ultimately show ?thesis using fl
    by (auto simp: loop_recv_def Cons Let_def recv_lost_def)
qed

lemma emstep_inv:
  assumes "emstep L S S'" and "em_inv L S"
  shows "em_inv L S'"
  using assms
proof (cases rule: emstep.cases)
  case (em_wait_send ev)
  then show ?thesis using assms(2)
    by (auto simp: em_inv_def Emit_wait_send_def has_room_def fb_bound_def length_remove1
        dest: length_pos_if_in_set)
next
  case (em_wait_timeout ev)
  then show ?thesis using assms(2)
    by (auto simp: em_inv_def Emit_wait_timeout_def fb_bound_def length_remove1
        dest: length_pos_if_in_set)
next
  case (em_recv env)
  then show ?thesis using loop_recv_inv [OF assms(2), of env] by simp
next
  case (em_tick env)
  then show ?thesis using assms(2) flush_inv [of env L "es_e S" S]
    by (simp add: loop_tick_def em_inv_def)
qed (auto simp: em_inv_def Emit_def Let_def has_room_def fb_bound_def split: if_splits)

lemma em_inv_start: "0 \<le> L \<Longrightarrow> em_inv L (start_emsys b cfg)"
  by (auto simp: em_inv_def start_emsys_def NewEmitter_def Let_def fb_bound_def maxFallback_def)

lemma emreach_inv: "emreach L S0 S \<Longrightarrow> em_inv L S0 \<Longrightarrow> em_inv L S"
  by (induction rule: emreach.induct) (auto intro: emstep_inv)

text \<open>The drain at the end empties the channel and the batch.\<close>

lemma loop_recv_ch: "em_ch (loop_recv env e) = tl (em_ch e)" "em_cfg (loop_recv env e) = em_cfg e"
  by (auto simp: loop_recv_def Let_def flush_simps split: list.split)

lemma loop_recv_count:
  assumes "se_marshals env"
  shows "em_sent (loop_recv env e) + em_failed (loop_recv env e) + length (em_ch (loop_recv env e)) +
      length (em_batch (loop_recv env e)) =
    em_sent e + em_failed e + length (em_ch e) + length (em_batch e)"
proof (cases "em_ch e")
  case (Cons ev rest)
  then show ?thesis
    using flush_simps [of env "e\<lparr>em_ch := rest, em_batch := em_batch e @ [ev]\<rparr>"] assms
    by (auto simp: loop_recv_def Let_def flush_lost_def)
qed (simp add: loop_recv_def)

lemma drain_recv_ch: "em_ch (drain_recv envs n e) = drop n (em_ch e)"
  by (induction n arbitrary: e) (simp_all add: loop_recv_ch drop_Suc)

lemma drain_recv_count:
  assumes "\<And>k. se_marshals (envs k)"
  shows "em_sent (drain_recv envs n e) + em_failed (drain_recv envs n e) +
      length (em_ch (drain_recv envs n e)) + length (em_batch (drain_recv envs n e)) =
    em_sent e + em_failed e + length (em_ch e) + length (em_batch e)"
proof (induction n arbitrary: e)
  case (Suc n)
  from Suc [of "loop_recv (envs (Suc n)) e"] loop_recv_count [OF assms, of "Suc n" e] show ?case
    by (simp only: drain_recv.simps)
qed simp

section \<open>Properties\<close>

text \<open>C27: No event disappears without a trace, and memory is bounded. In every interleaving of senders
  and loop, the events handed to the emitter are exactly those dropped, sent, failed, lost in a
  batch that could not be encoded, queued, batched or waiting for a slot; the channel never exceeds
  its capacity and the batch stays below the batch size; fallback lines are counted for failed
  events only, and the fallback file exceeds its limit by at most one batch.\<close>

theorem emitter_conservation:
  assumes "0 \<le> L" and "emreach L (start_emsys openOK cfg) S"
  shows "es_given S = em_dropped (es_e S) + em_sent (es_e S) + em_failed (es_e S) + es_lost S +
       length (em_ch (es_e S)) + length (em_batch (es_e S)) + length (es_waiters S) \<and>
     int (length (em_ch (es_e S))) \<le> tc_QueueCapacity (em_cfg (es_e S)) \<and>
     int (length (em_batch (es_e S))) < tc_BatchSize (em_cfg (es_e S)) \<and>
     em_fallback (es_e S) \<le> em_failed (es_e S) \<and>
     em_fbBytes (es_e S) \<le> maxFallback + L * tc_BatchSize (em_cfg (es_e S))"
  using emreach_inv [OF assms(2) em_inv_start [OF assms(1)]]
  unfolding em_inv_def fb_bound_def .


section \<open>Examples\<close>

definition plain_event :: TEvent where
  "plain_event = \<lparr>te_Kind = ''ROUTE_DECIDED'', te_Source = [], te_RequestID = ''r'', te_RouteID = [],
     te_BackendID = [], te_HostID = [], te_DeviceID = [], te_Wall = 1, te_Fields = []\<rparr>"

definition deaf :: ship_env where
  "deaf = \<lparr>se_marshals = True, se_answers = (\<lambda>_. None), se_written = (\<lambda>_. 80)\<rparr>"

text \<open>One event is queued, received, and fails to ship at the tick.\<close>

definition after_tick :: emsys where
  "after_tick =
     (let S0 = start_emsys True (DefaultTConfig\<lparr>tc_LocalFallbackPath := ''f''\<rparr>);
          S1 = S0\<lparr>es_e := snd (Emit 1 plain_event (es_e S0)), es_given := es_given S0 + 1\<rparr>;
          S2 = S1\<lparr>es_e := loop_recv deaf (es_e S1), es_lost := es_lost S1 + recv_lost deaf (es_e S1)\<rparr>
      in S2\<lparr>es_e := loop_tick deaf (es_e S2), es_lost := es_lost S2 + flush_lost deaf (es_e S2)\<rparr>)"

lemmas emitter_eval = start_emsys_def NewEmitter_def DefaultTConfig_def Emit_def has_room_def
  loop_recv_def loop_tick_def flush_def ship_def writeFallback_def fallback_one_def maxFallback_def
  answer_ok_def recv_lost_def flush_lost_def Let_def deaf_def numeral_2_eq_2

lemma after_tick_reached:
  "emreach 80 (start_emsys True (DefaultTConfig\<lparr>tc_LocalFallbackPath := ''f''\<rparr>)) after_tick"
  unfolding after_tick_def Let_def
  by (intro emreach_step [OF _ em_tick] emreach_step [OF _ em_recv] emreach_step [OF _ em_queued]
      emreach_refl) (auto simp: prod_eq_iff emitter_eval)

theorem emitter_conservation_witness:
  "es_given after_tick = 1 \<and> em_failed (es_e after_tick) = 1 \<and>
   em_fbBytes (es_e after_tick) \<le> maxFallback + 80 * 128"
proof -
  have "es_given after_tick = 1" "em_failed (es_e after_tick) = 1"
    "tc_BatchSize (em_cfg (es_e after_tick)) = 128"
    by (simp_all add: after_tick_def emitter_eval)
  then show ?thesis using emitter_conservation [OF _ after_tick_reached] by simp
qed


end
