(* ===== verification/Mesh_Collector.thy ===== *)
theory Mesh_Collector
  imports Http_Writer Host_Supervisor Trajectory_Emitter "HOL-Library.Product_Lexorder"
begin

text \<open>
  The two collecting commands: \<open>cmd/collector\<close>, which polls sidecars and prints one view of all
  backends, and \<open>cmd/trajcollector\<close>, which receives the events of the trajectory emitters and appends
  them to a file. Flags, tickers, the table on standard output and the opening of files are not
  modelled; what a sidecar answers, the order in which the polling goroutines finish, decoding and
  the bytes that reach the disk are arguments.
\<close>

section \<open>The view of the mesh\<close>

text \<open>The vendor and the state of a view are empty, here \<open>None\<close>, when no device was seen.\<close>

record BackendView =
  bv_BackendID :: string
  bv_Hostname :: string
  bv_Vendor :: "Vendor option"
  bv_DeviceID :: string
  bv_LifecycleState :: "LifecycleState option"
  bv_StabilityScore :: real
  bv_HostCapacityHint :: real
  bv_CapacitySemantics :: string
  bv_LastHeartbeatAgeMs :: int
  bv_RecentFailureCount :: int
  bv_Recovering :: bool
  bv_Reachable :: bool
  bv_Stale :: bool
  bv_MemFreeBytes :: "64 word"
  bv_Error :: string

definition staleThresholdMs :: int where
  "staleThresholdMs = 10000"

definition blank_view :: "string \<Rightarrow> string \<Rightarrow> bool \<Rightarrow> string \<Rightarrow> BackendView" where
  "blank_view bid host reachable err =
     \<lparr>bv_BackendID = bid, bv_Hostname = host, bv_Vendor = None, bv_DeviceID = [],
      bv_LifecycleState = None, bv_StabilityScore = 0, bv_HostCapacityHint = 0,
      bv_CapacitySemantics = [], bv_LastHeartbeatAgeMs = 0, bv_RecentFailureCount = 0,
      bv_Recovering = False, bv_Reachable = reachable, bv_Stale = False, bv_MemFreeBytes = 0,
      bv_Error = err\<rparr>"

record target =
  tg_name :: string
  tg_url :: string

definition parse_target :: "string \<Rightarrow> target option" where
  "parse_target pair =
     (case break_at (\<lambda>c. c = CHR ''='') pair of
        Some (k, v) \<Rightarrow> Some \<lparr>tg_name = k, tg_url = TrimRight (tl v) ''/''\<rparr>
      | None \<Rightarrow> None)"

definition parse_targets :: "string \<Rightarrow> target list" where
  "parse_targets csv = List.map_filter parse_target (split_on (CHR '','') csv)"

text \<open>\<open>time.Time.Sub\<close> saturates.\<close>

definition time_Sub :: "walltime \<Rightarrow> walltime \<Rightarrow> duration" where
  "time_Sub t u = max (- (2 ^ 63)) (min (2 ^ 63 - 1) (t - u))"

definition heartbeat_age :: "walltime \<Rightarrow> Health \<Rightarrow> int" where
  "heartbeat_age now h =
     (let age = dur_Milliseconds (time_Sub now (h_Timestamp h)) in if age < 0 then 0 else age)"

definition view_of :: "HostStatus \<Rightarrow> walltime \<Rightarrow> DeviceStatus option \<Rightarrow> BackendView" where
  "view_of hs now d =
     (let h = (case d of None \<Rightarrow> zero_Health | Some st \<Rightarrow> ds_Health st);
          age = heartbeat_age now h;
          v = (blank_view [] (hs_Hostname hs) True [])
                \<lparr>bv_Vendor := Some (hs_Vendor hs), bv_LastHeartbeatAgeMs := age,
                 bv_Stale := age > staleThresholdMs,
                 bv_MemFreeBytes := (if fSupported (h_MemFreeBytes h) then fValue (h_MemFreeBytes h) else 0)\<rparr>
      in case d of None \<Rightarrow> v
         | Some st \<Rightarrow> v\<lparr>bv_BackendID := id_BackendID (ds_Identity st),
             bv_DeviceID := id_DeviceID (ds_Identity st),
             bv_LifecycleState := Some (ds_LifecycleState st),
             bv_StabilityScore := ss_Score (ds_Stability st),
             bv_HostCapacityHint := ch_HostCapacityHint (ds_Capacity st),
             bv_CapacitySemantics := ch_CapacitySemantics (ds_Capacity st),
             bv_RecentFailureCount := r_ConsecutiveFailures (ds_Reliability st),
             bv_Recovering := (ds_LifecycleState st = StateRecovering)\<rparr>)"

definition viewsFromStatus :: "string \<Rightarrow> HostStatus \<Rightarrow> walltime \<Rightarrow> BackendView list" where
  "viewsFromStatus name hs now =
     (let views = map (view_of hs now) (hs_Devices hs)
      in if length views = 0 then [blank_view name (hs_Hostname hs) True ''no devices''] else views)"

text \<open>\<open>Inl\<close> is the error of the request or of the decoder.\<close>

definition pollOne :: "string + HostStatus \<Rightarrow> walltime \<Rightarrow> target \<Rightarrow> BackendView list" where
  "pollOne reply now t =
     (case reply of
        Inl err \<Rightarrow> [blank_view (tg_name t) (tg_name t) False err]
      | Inr hs \<Rightarrow> viewsFromStatus (tg_name t) hs now)"

text \<open>\<open>finish\<close> is the order in which the goroutines append, \<open>tie\<close> the order in which \<open>sort.Slice\<close>
  leaves equal keys.\<close>

definition view_key :: "BackendView \<Rightarrow> string \<times> string" where
  "view_key v = (bv_Hostname v, bv_DeviceID v)"

definition poll_mesh ::
  "(target list \<Rightarrow> target list) \<Rightarrow> (BackendView list \<Rightarrow> BackendView list) \<Rightarrow>
   (target \<Rightarrow> string + HostStatus) \<Rightarrow> (target \<Rightarrow> walltime) \<Rightarrow> target list \<Rightarrow> BackendView list" where
  "poll_mesh finish tie reply now targets =
     sort_key view_key (tie (concat (map (\<lambda>t. pollOne (reply t) (now t) t) (finish targets))))"

definition truncate_name :: "string \<Rightarrow> nat \<Rightarrow> string" where
  "truncate_name s n =
     (if length s \<le> n then s else take (n - 1) s @ [CHR 0xE2, CHR 0x80, CHR 0xA6])"

section \<open>The trajectory collector\<close>

text \<open>\<open>lc_raw\<close> decodes the field \<open>events\<close> of a body into raw messages, \<open>lc_disk\<close> says which bytes of a
  write reach the file: the handler ignores the result of every write.\<close>

record log_env =
  lc_raw :: "string \<Rightarrow> string list option"
  lc_disk :: "string \<Rightarrow> string"

record TrajCollector =
  lc_file :: string
  lc_received :: "64 word"

definition maxBody :: nat where
  "maxBody = 16 * 1024 * 1024"

definition append_event :: "log_env \<Rightarrow> string \<Rightarrow> string \<Rightarrow> string" where
  "append_event le f ev = (f @ lc_disk le ev) @ lc_disk le [CHR 0x0A]"

definition post_events :: "log_env \<Rightarrow> string \<Rightarrow> string \<Rightarrow> TrajCollector \<Rightarrow> int \<times> TrajCollector" where
  "post_events le meth body c =
     (if meth \<noteq> ''POST'' then (405, c)
      else case lc_raw le (take maxBody body) of
        None \<Rightarrow> (400, c)
      | Some evs \<Rightarrow>
          (204, c\<lparr>lc_file := foldl (append_event le) (lc_file c) evs,
                 lc_received := lc_received c + of_nat (length evs)\<rparr>))"

definition traj_healthz :: "TrajCollector \<Rightarrow> int \<times> string" where
  "traj_healthz c = (200, ''{\"status\":\"alive\",\"received\":'' @ Itoa (uint (lc_received c)) @ ''}'')"

fun dirOf_from :: "string \<Rightarrow> nat \<Rightarrow> string" where
  "dirOf_from p 0 = ''.''"
| "dirOf_from p (Suc i) = (if p ! i = CHR ''/'' then take i p else dirOf_from p i)"

definition dirOf :: "string \<Rightarrow> string" where
  "dirOf p = dirOf_from p (length p)"

section \<open>Delivery\<close>

text \<open>What may happen to one POST of an emitter on its way: it is lost, its answer is lost after the
  collector has handled it, or both arrive.\<close>

datatype link = LinkLost | LinkReplyLost | LinkUp

definition link_answer :: "log_env \<Rightarrow> string \<Rightarrow> TrajCollector \<Rightarrow> link \<Rightarrow> int option" where
  "link_answer le payload c l =
     (case l of LinkUp \<Rightarrow> Some (fst (post_events le ''POST'' payload c)) | _ \<Rightarrow> None)"

definition link_effect :: "log_env \<Rightarrow> string \<Rightarrow> link \<Rightarrow> TrajCollector \<Rightarrow> TrajCollector" where
  "link_effect le payload l c = (case l of LinkLost \<Rightarrow> c | _ \<Rightarrow> snd (post_events le ''POST'' payload c))"

text \<open>A batch shipped over such a link: the second attempt is made unless the first is answered with
  success.\<close>

definition ship_to ::
  "log_env \<Rightarrow> string option \<Rightarrow> (TEvent \<Rightarrow> int) \<Rightarrow> link \<times> link \<Rightarrow> TEvent list \<Rightarrow> Emitter \<times> TrajCollector \<Rightarrow>
   Emitter \<times> TrajCollector" where
  "ship_to le payload written links batch ec =
     (let (e, c) = ec; (l1, l2) = links
      in case payload of
           None \<Rightarrow> (ship \<lparr>se_marshals = False, se_answers = (\<lambda>_. None), se_written = written\<rparr> batch e, c)
         | Some body \<Rightarrow>
             (let c1 = link_effect le body l1 c;
                  a1 = link_answer le body c l1;
                  a2 = link_answer le body c1 l2;
                  c2 = (if answer_ok a1 then c1 else link_effect le body l2 c1)
              in (ship \<lparr>se_marshals = True, se_answers = (\<lambda>k. if k = 0 then a1 else a2),
                        se_written = written\<rparr> batch e, c2)))"

definition event_lines :: "string list \<Rightarrow> string" where
  "event_lines evs = concat (map (\<lambda>ev. ev @ [CHR 0x0A]) evs)"

text \<open>A collector whose decoder finds the events of the body and whose disk takes every write.\<close>

definition stores :: "log_env \<Rightarrow> string \<Rightarrow> string list \<Rightarrow> bool" where
  "stores le payload evs \<longleftrightarrow> lc_raw le (take maxBody payload) = Some evs \<and> lc_disk le = id"

lemma post_appends:
  assumes "stores le payload evs"
  shows "post_events le ''POST'' payload c =
     (204, c\<lparr>lc_file := lc_file c @ event_lines evs, lc_received := lc_received c + of_nat (length evs)\<rparr>)"
proof -
  have "foldl (append_event le) f xs = f @ event_lines xs" for f xs
    using assms by (induction xs arbitrary: f) (simp_all add: append_event_def event_lines_def stores_def)
  then show ?thesis using assms by (simp add: post_events_def stores_def)
qed

lemma link_copies:
  assumes "stores le payload evs"
  shows "lc_file (link_effect le payload l c) =
      lc_file c @ concat (replicate (if l = LinkLost then 0 else 1) (event_lines evs))"
    and "answer_ok (link_answer le payload c l) \<longleftrightarrow> l = LinkUp"
  using post_appends [OF assms]
  by (cases l; simp add: link_effect_def link_answer_def answer_ok_def)+

lemma writeFallback_counts [simp]:
  "em_sent (writeFallback env b e) = em_sent e" "em_failed (writeFallback env b e) = em_failed e"
proof -
  have "em_sent (foldl (fallback_one env) x b) = em_sent x \<and>
      em_failed (foldl (fallback_one env) x b) = em_failed x" for x
    by (induction b arbitrary: x) (simp_all add: fallback_one_def)
  then show "em_sent (writeFallback env b e) = em_sent e" "em_failed (writeFallback env b e) = em_failed e"
    by (simp_all add: writeFallback_def)
qed

section \<open>Completeness of the view\<close>

lemma pollOne_nonempty: "pollOne reply now t \<noteq> []"
  by (auto simp: pollOne_def viewsFromStatus_def Let_def split: sum.split)

text \<open>Whatever the order of the goroutines and of the sort, the view is sorted, has the views of every
  target and no others, and so at least one for each target.\<close>

lemma mesh_view_complete:
  assumes "\<And>ts. mset (finish ts) = mset ts" and "\<And>vs. mset (tie vs) = mset vs"
  shows "sorted (map view_key (poll_mesh finish tie reply now targets))"
    and "mset (poll_mesh finish tie reply now targets) =
      mset (concat (map (\<lambda>t. pollOne (reply t) (now t) t) targets))"
    and "length targets \<le> length (poll_mesh finish tie reply now targets)"
proof -
  let ?f = "\<lambda>t. pollOne (reply t) (now t) t"
  have mc: "mset (concat (map ?f ts)) = (\<Sum>t\<in>#mset ts. mset (?f t))" for ts
    by (induction ts) simp_all
  have c: "mset (concat (map ?f (finish targets))) = mset (concat (map ?f targets))"
    unfolding mc assms(1) by (rule refl)
  show m: "mset (poll_mesh finish tie reply now targets) = mset (concat (map ?f targets))"
    by (simp add: poll_mesh_def assms(2) c)
  have "length targets \<le> length (concat (map ?f targets))"
  proof (induction targets)
    case (Cons t ts)
    have "1 \<le> length (?f t)" using pollOne_nonempty [of "reply t" "now t" t] by (cases "?f t") auto
    then show ?case using Cons by simp
  qed simp
  then show "length targets \<le> length (poll_mesh finish tie reply now targets)"
    using arg_cong [OF m, of size] by simp
qed (simp add: poll_mesh_def)

text \<open>How often a batch is stored and how it is counted, by the fate of the two attempts.\<close>

definition copies :: "link \<Rightarrow> nat" where
  "copies l = (if l = LinkLost then 0 else 1)"

lemma ship_to_file:
  assumes "stores le payload evs"
  shows "lc_file (snd (ship_to le (Some payload) written (l1, l2) batch (e, c))) =
    lc_file c @ concat (replicate (copies l1 + (if l1 = LinkUp then 0 else copies l2)) (event_lines evs))"
  using link_copies [OF assms]
  by (simp add: ship_to_def Let_def copies_def)

lemma ship_to_counts:
  assumes "stores le payload evs"
  shows "em_sent (fst (ship_to le (Some payload) written (l1, l2) batch (e, c))) =
      em_sent e + (if l1 = LinkUp \<or> l2 = LinkUp then length batch else 0)"
    and "em_failed (fst (ship_to le (Some payload) written (l1, l2) batch (e, c))) =
      em_failed e + (if l1 = LinkUp \<or> l2 = LinkUp then 0 else length batch)"
  using link_copies(2) [OF assms]
  by (simp_all add: ship_to_def Let_def ship_def numeral_2_eq_2)

section \<open>Properties\<close>


definition log_demo :: log_env where
  "log_demo = \<lparr>lc_raw = (\<lambda>_. Some [''{}'']), lc_disk = id\<rparr>"

definition log_state :: "Emitter \<times> TrajCollector" where
  "log_state = (NewEmitter False DefaultTConfig, \<lparr>lc_file = [], lc_received = 0\<rparr>)"


end
