(* ===== verification/Command_Exec.thy ===== *)
theory Command_Exec
  imports Go_Strings
begin

text \<open>
  Running vendor tools (\<open>internal/exec/exec.go\<close>): a hard timeout and output buffers that keep at most
  one mebibyte. What the process does is an argument: the chunks it writes to its two outputs, how it
  ends, and whether the deadline passed. The lemmas show that the buffers keep exactly the beginning
  of the output, never refuse a write, and say when they dropped something.
\<close>

section \<open>The bounded buffer\<close>

record boundedBuffer =
  bb_buf :: string
  bb_limit :: int
  bb_truncated :: bool

text \<open>\<open>Write\<close> returns the number of bytes that it reports as written.\<close>

definition bb_Write :: "string \<Rightarrow> boundedBuffer \<Rightarrow> int \<times> boundedBuffer" where
  "bb_Write p b =
     (if int (length (bb_buf b)) \<ge> bb_limit b then (int (length p), b\<lparr>bb_truncated := True\<rparr>)
      else let remaining = bb_limit b - int (length (bb_buf b))
           in if int (length p) > remaining
              then (int (length p), b\<lparr>bb_buf := bb_buf b @ take (nat remaining) p, bb_truncated := True\<rparr>)
              else (int (length p), b\<lparr>bb_buf := bb_buf b @ p\<rparr>))"

definition maxOutput :: int where
  "maxOutput = 2 ^ 20"

definition new_buffer :: boundedBuffer where
  "new_buffer = \<lparr>bb_buf = [], bb_limit = maxOutput, bb_truncated = False\<rparr>"

definition bb_writes :: "string list \<Rightarrow> boundedBuffer" where
  "bb_writes chunks = foldl (\<lambda>b p. snd (bb_Write p b)) new_buffer chunks"

section \<open>Running a command\<close>

text \<open>How a process ends otherwise than with exit code 0: with another code, or not started.\<close>

datatype run_err = ExitError int string | SpawnError string

record proc_outcome =
  po_out :: "string list"
  po_err :: "string list"
  po_deadline :: bool
  po_runErr :: "run_err option"
  po_dur :: duration

record exec_result =
  er_Stdout :: string
  er_Stderr :: string
  er_ExitCode :: int
  er_Err :: "string option"
  er_Duration :: duration
  er_TimedOut :: bool
  er_Truncated :: bool

definition Run :: "proc_outcome \<Rightarrow> exec_result" where
  "Run po =
     (let out = bb_writes (po_out po); errb = bb_writes (po_err po);
          r = \<lparr>er_Stdout = bb_buf out, er_Stderr = bb_buf errb, er_ExitCode = 0, er_Err = None,
               er_Duration = po_dur po, er_TimedOut = False,
               er_Truncated = (bb_truncated out \<or> bb_truncated errb)\<rparr>
      in if po_deadline po
         then r\<lparr>er_TimedOut := True, er_Err := Some ''context deadline exceeded'', er_ExitCode := -1\<rparr>
         else case po_runErr po of
           Some (ExitError code msg) \<Rightarrow> r\<lparr>er_ExitCode := code, er_Err := Some msg\<rparr>
         | Some (SpawnError msg) \<Rightarrow> r\<lparr>er_ExitCode := -1, er_Err := Some msg\<rparr>
         | None \<Rightarrow> r)"

text \<open>\<open>RunCtx\<close>: the deadline is that of the derived context; a cancellation by the caller shows as an
  error of the process.\<close>

definition RunCtx :: "proc_outcome \<Rightarrow> exec_result" where
  "RunCtx po = Run po"

text \<open>\<open>LookPath\<close>: the result of the search, with the path that the library returns.\<close>

definition LookPath :: "(string \<Rightarrow> string option) \<Rightarrow> string \<Rightarrow> string \<times> bool" where
  "LookPath path name = (case path name of Some p \<Rightarrow> (p, True) | None \<Rightarrow> ([], False))"

section \<open>What the buffers keep\<close>

definition bb_inv :: "string \<Rightarrow> boundedBuffer \<Rightarrow> bool" where
  "bb_inv written b \<longleftrightarrow> bb_limit b = maxOutput \<and> bb_buf b = take (nat maxOutput) written \<and>
     (bb_truncated b \<longleftrightarrow> length written > nat maxOutput)"

lemma bb_Write_reports [simp]: "fst (bb_Write p b) = int (length p)"
  by (simp add: bb_Write_def Let_def)

lemma bb_inv_Write:
  assumes "bb_inv written b" and "p \<noteq> []"
  shows "bb_inv (written @ p) (snd (bb_Write p b))"
proof (cases "int (length (bb_buf b)) \<ge> bb_limit b")
  case True
  then have "nat maxOutput \<le> length written" using assms(1) by (auto simp: bb_inv_def)
  with assms True show ?thesis by (cases p) (simp_all add: bb_inv_def bb_Write_def)
next
  case False
  then have w: "length written < nat maxOutput" "bb_buf b = written" "bb_limit b = maxOutput"
    using assms(1) by (auto simp: bb_inv_def)
  then have r: "nat (maxOutput - int (length written)) = nat maxOutput - length written" by simp
  from w assms False show ?thesis
    by (auto simp: bb_inv_def bb_Write_def Let_def r)
qed

lemma bb_writes_inv:
  assumes "[] \<notin> set chunks"
  shows "bb_inv (concat chunks) (bb_writes chunks)"
  using assms
proof (induction chunks rule: rev_induct)
  case Nil
  then show ?case by (simp add: bb_inv_def bb_writes_def new_buffer_def maxOutput_def)
next
  case (snoc p chunks)
  then show ?case
    using bb_inv_Write [of "concat chunks" "bb_writes chunks" p] by (auto simp: bb_writes_def)
qed

text \<open>A vendor tool cannot exhaust memory, and nothing is lost silently. Whatever the process writes,
  in whatever chunks, the result has at most \<open>maxOutput\<close> bytes of each output and they are the
  beginning of what was written; the truncation flag is set exactly when something was dropped; a
  run counts as failed exactly when the deadline passed or the process did not end with code 0, and
  a timeout always has exit code -1.\<close>

lemma run_bounded:
  assumes "[] \<notin> set (po_out po)" and "[] \<notin> set (po_err po)"
  shows "er_Stdout (Run po) = take (nat maxOutput) (concat (po_out po)) \<and>
    er_Stderr (Run po) = take (nat maxOutput) (concat (po_err po)) \<and>
    (er_Truncated (Run po) \<longleftrightarrow> length (concat (po_out po)) > nat maxOutput \<or>
                              length (concat (po_err po)) > nat maxOutput) \<and>
    (er_Err (Run po) = None \<longleftrightarrow> \<not> po_deadline po \<and> po_runErr po = None) \<and>
    (er_TimedOut (Run po) \<longleftrightarrow> po_deadline po) \<and> (er_TimedOut (Run po) \<longrightarrow> er_ExitCode (Run po) = -1)"
  using bb_writes_inv [OF assms(1)] bb_writes_inv [OF assms(2)]
  by (auto simp: Run_def Let_def bb_inv_def split: option.split run_err.split)

lemma Run_ok_exit: "er_Err (Run po) = None \<Longrightarrow> er_ExitCode (Run po) = 0"
  by (auto simp: Run_def Let_def split: option.splits run_err.splits if_splits)

end
