(* ===== verification/Vendor_Adapters.thy ===== *)
theory Vendor_Adapters
  imports Command_Exec Host_Supervisor
begin

text \<open>
  The vendor adapters (\<open>internal/adapters\<close>): NVIDIA, AMD, the generic fallback, detection, and the
  fault injector that wraps one of them. They turn the output of vendor tools into identities and
  health records for the supervisor.

  What a tool prints, \<open>strconv.ParseFloat\<close>, the decoding of JSON objects of strings and the value of
  a float conversion that is out of range (which the language leaves open) are arguments, together in
  \<open>tool_env\<close>. The decoder lists the entries of an object in the order in which the iteration of the
  Go map visits them.

  The locale \<open>gpu_adapter\<close> is the interface of the supervisor: what it may rely on whichever adapter
  runs. It is interpreted for every adapter.
\<close>

section \<open>Tools\<close>

record tool_env =
  tl_run :: "duration \<Rightarrow> string list \<Rightarrow> exec_result"
  tl_parseFloat :: "string \<Rightarrow> f64 option"
  tl_outOfRange :: "f64 \<Rightarrow> 64 word"
  tl_readFile :: "string \<Rightarrow> string option"
  tl_jsonMaps :: "string \<Rightarrow> (string \<times> (string \<times> string) list) list option"
  tl_now :: walltime
  tl_latency :: duration

definition run_failed :: "exec_result \<Rightarrow> bool" where
  "run_failed r \<longleftrightarrow> er_Err r \<noteq> None \<or> er_ExitCode r \<noteq> 0"

definition bool_string :: "bool \<Rightarrow> string" where
  "bool_string b = (if b then ''true'' else ''false'')"

definition exit_note :: "exec_result \<Rightarrow> string" where
  "exit_note r = ''sample:exit='' @ Itoa (er_ExitCode r) @ '' timedout='' @ bool_string (er_TimedOut r)"

text \<open>\<open>uint64(v)\<close> for a float.\<close>

definition u64_of :: "tool_env \<Rightarrow> f64 \<Rightarrow> 64 word" where
  "u64_of te v =
     (case v of
        Fin x \<Rightarrow> if -1 < x \<and> x < 2 ^ 64 then word_of_int (go_trunc x) else tl_outOfRange te v
      | _ \<Rightarrow> tl_outOfRange te v)"

definition markUnsupportedAll :: "Health \<Rightarrow> Health" where
  "markUnsupportedAll h = h\<lparr>h_UtilizationGPU := Unsup (Fin 0), h_MemUsedBytes := Unsup 0,
     h_MemFreeBytes := Unsup 0, h_MemTotalBytes := Unsup 0, h_TemperatureC := Unsup (Fin 0),
     h_PowerWatts := Unsup (Fin 0), h_PowerLimitWatts := Unsup (Fin 0), h_SMClockMHz := Unsup (Fin 0),
     h_MemClockMHz := Unsup (Fin 0), h_ComputeProcs := Unsup 0, h_ECCUncorrectable := Unsup 0,
     h_ECCCorrectable := Unsup 0, h_XIDErrors := Unsup [], h_RASUncorrectable := Unsup 0,
     h_RASCorrectable := Unsup 0\<rparr>"

definition note_unsupported :: "string list \<Rightarrow> Health \<Rightarrow> Health" where
  "note_unsupported ns h = h\<lparr>h_UnsupportedFields := h_UnsupportedFields h @ ns\<rparr>"

text \<open>The record that an adapter returns when it cannot see the device.\<close>

definition failed_sample :: "string \<Rightarrow> ProbeFailure \<Rightarrow> Health \<Rightarrow> Health" where
  "failed_sample note f h =
     markUnsupportedAll ((note_unsupported [note] h)\<lparr>h_GPUVisible := False, h_ProbeFailure := f\<rparr>)"

section \<open>NVIDIA\<close>

record NVIDIA =
  nv_smiPath :: string
  nv_hasSMI :: bool
  nv_driver :: string
  nv_cuda :: string

definition NewNVIDIA :: "(string \<Rightarrow> string option) \<Rightarrow> NVIDIA" where
  "NewNVIDIA path =
     (let (p, ok) = LookPath path ''nvidia-smi''
      in \<lparr>nv_smiPath = (if ok then p else []), nv_hasSMI = ok, nv_driver = [], nv_cuda = []\<rparr>)"

definition nv_Available :: "NVIDIA \<Rightarrow> bool" where
  "nv_Available n = nv_hasSMI n"

definition splitCSV :: "string \<Rightarrow> string list" where
  "splitCSV s = map TrimSpace (split_on (CHR '','') s)"

definition firstLine :: "string \<Rightarrow> string" where
  "firstLine s0 =
     (let s = TrimSpace s0
      in case break_at (\<lambda>c. c = CHR 0x0A) s of Some (a, _) \<Rightarrow> TrimSpace a | None \<Rightarrow> s)"

definition parseF :: "tool_env \<Rightarrow> string \<Rightarrow> f64 option" where
  "parseF te s0 =
     (let s = TrimSpace s0
      in if s = [] \<or> HasPrefix s ''['' \<or> ToLower s = ''n/a'' then None else tl_parseFloat te s)"

definition supF :: "tool_env \<Rightarrow> string \<Rightarrow> f64 Field" where
  "supF te s = (case parseF te s of Some v \<Rightarrow> Sup v | None \<Rightarrow> Unsup (Fin 0))"

text \<open>\<open>supU\<close> also appends to the list of unsupported fields.\<close>

definition supU :: "tool_env \<Rightarrow> string \<Rightarrow> string \<Rightarrow> 64 word Field \<times> string list" where
  "supU te s name =
     (case parseF te s of
        Some v \<Rightarrow> if f64_le (Fin 0) v then (Sup (u64_of te v), []) else (Unsup 0, [name @ '':not-reported''])
      | None \<Rightarrow> (Unsup 0, [name @ '':not-reported'']))"

definition mibToBytes :: "tool_env \<Rightarrow> f64 option \<Rightarrow> 64 word Field" where
  "mibToBytes te v =
     (case v of None \<Rightarrow> Unsup 0 | Some x \<Rightarrow> Sup (u64_of te (f64_mul (f64_mul x (Fin 1024)) (Fin 1024))))"

definition nv_DriverVersion :: "tool_env \<Rightarrow> NVIDIA \<Rightarrow> string \<times> NVIDIA" where
  "nv_DriverVersion te n =
     (if nv_driver n \<noteq> [] then (nv_driver n, n)
      else if \<not> nv_hasSMI n then ([], n)
      else let r = tl_run te (5 * Second)
                     [nv_smiPath n, ''--query-gpu=driver_version'', ''--format=csv,noheader,nounits''];
               n1 = (if er_ExitCode r = 0 then n\<lparr>nv_driver := firstLine (er_Stdout r)\<rparr> else n)
           in (nv_driver n1, n1))"

fun cuda_line :: "string list \<Rightarrow> string option" where
  "cuda_line [] = None"
| "cuda_line (l # ls) =
     (case after_first ''CUDA Version:'' l of
        Some rest \<Rightarrow> Some (TrimSpace (TrimRight rest ''| '')) | None \<Rightarrow> cuda_line ls)"

text \<open>\<open>RuntimeVersion\<close> runs the tool twice; the output of the first run is not used.\<close>

definition nv_RuntimeVersion :: "tool_env \<Rightarrow> NVIDIA \<Rightarrow> string \<times> NVIDIA" where
  "nv_RuntimeVersion te n =
     (if nv_cuda n \<noteq> [] then (nv_cuda n, n)
      else let r2 = tl_run te (5 * Second) [nv_smiPath n];
               n1 = (case cuda_line (split_on (CHR 0x0A) (er_Stdout r2)) of
                       Some v \<Rightarrow> n\<lparr>nv_cuda := v\<rparr> | None \<Rightarrow> n)
           in (nv_cuda n1, n1))"

definition nvQuery :: string where
  "nvQuery = ''index,uuid,name,driver_version,memory.used,memory.free,memory.total,'' @
     ''utilization.gpu,temperature.gpu,power.draw,power.limit,clocks.sm,clocks.mem,'' @
     ''ecc.errors.uncorrected.aggregate.total,ecc.errors.corrected.aggregate.total''"

definition blank_Identity :: Identity where
  "blank_Identity = \<lparr>id_SidecarInstanceID = [], id_Hostname = [], id_BackendID = [],
     id_Vendor = VendorUnknown, id_DeviceID = [], id_GPUModel = [], id_GPUUUID = [],
     id_DriverVersion = [], id_RuntimeVersion = [], id_BootID = [], id_SidecarVersion = []\<rparr>"

definition nv_discover_line :: "tool_env \<Rightarrow> Identity list \<times> NVIDIA \<Rightarrow> string \<Rightarrow> Identity list \<times> NVIDIA" where
  "nv_discover_line te acc line =
     (let f = splitCSV line; (ids, n) = acc
      in if length f < 4 then (ids, n)
         else let (v, n1) = nv_RuntimeVersion te n
              in (ids @ [blank_Identity\<lparr>id_DeviceID := f ! 0, id_GPUUUID := f ! 1, id_GPUModel := f ! 2,
                    id_DriverVersion := f ! 3, id_Vendor := VendorNVIDIA, id_RuntimeVersion := v\<rparr>], n1))"

definition default_scan :: nat where
  "default_scan = 64 * 1024"

definition nv_Discover :: "tool_env \<Rightarrow> duration \<Rightarrow> NVIDIA \<Rightarrow> (string + Identity list) \<times> NVIDIA" where
  "nv_Discover te timeout n =
     (if \<not> nv_hasSMI n then (Inl ''nvidia-smi unavailable'', n)
      else let r = tl_run te timeout
                     [nv_smiPath n, ''--query-gpu='' @ nvQuery, ''--format=csv,noheader,nounits'']
           in case er_Err r of
                Some e \<Rightarrow> (Inl (''nvidia-smi discover: '' @ e), n)
              | None \<Rightarrow> (let (ids, n1) = foldl (nv_discover_line te) ([], n)
                                          (scan_limited default_scan (er_Stdout r))
                        in (Inr ids, n1)))"

definition nv_hardMarkers :: "string list" where
  "nv_hardMarkers = [''no devices were found'', ''invalid device'',
     ''unable to determine the device handle'', ''no devices found'', ''device not found'',
     ''gpu is lost'', ''unknown device'']"

definition classify_by :: "string list \<Rightarrow> string \<Rightarrow> bool \<Rightarrow> string \<Rightarrow> ProbeFailure" where
  "classify_by markers timeoutDetail timedOut stderr =
     (if timedOut
      then \<lparr>pf_Class = FailureSoft, pf_Reason = ReasonProbeTimeout, pf_Detail = timeoutDetail\<rparr>
      else if list_ex (Contains (ToLower stderr)) markers
      then \<lparr>pf_Class = FailureHard, pf_Reason = ReasonDeviceDisappeared, pf_Detail = TrimSpace stderr\<rparr>
      else \<lparr>pf_Class = FailureSoft, pf_Reason = ReasonProbeFailure, pf_Detail = TrimSpace stderr\<rparr>)"

definition classifyNVFailure :: "bool \<Rightarrow> string \<Rightarrow> ProbeFailure" where
  "classifyNVFailure timedOut stderr =
     classify_by nv_hardMarkers ''nvidia-smi timed out'' timedOut stderr"

definition nv_computeProcs :: "tool_env \<Rightarrow> NVIDIA \<Rightarrow> string \<Rightarrow> duration \<Rightarrow> int Field" where
  "nv_computeProcs te n deviceID timeout =
     (let r = tl_run te timeout
                [nv_smiPath n, ''-i'', deviceID, ''--query-compute-apps=pid'', ''--format=csv,noheader'']
      in if run_failed r then Unsup 0
         else Sup (int (length (filter (\<lambda>l. TrimSpace l \<noteq> []) (split_on (CHR 0x0A) (er_Stdout r))))))"

text \<open>A match of the Xid pattern at the beginning of a text: the digits and the text after them.\<close>

definition xid_head :: string where
  "xid_head = ''NVRM: Xid (PCI:''"

definition xid_match :: "string \<Rightarrow> (string \<times> string) option" where
  "xid_match s =
     (if \<not> HasPrefix s xid_head then None
      else let s1 = dropWhile (\<lambda>c. c \<noteq> CHR '')'') (drop (length xid_head) s)
           in if \<not> HasPrefix s1 ''): '' then None
              else let s2 = drop 3 s1; ds = takeWhile is_digit s2
                   in if ds = [] then None else Some (ds, dropWhile is_digit s2))"

lemma xid_match_shorter:
  assumes "xid_match s = Some (ds, rest)"
  shows "length rest < length s"
proof -
  let ?s1 = "dropWhile (\<lambda>c. c \<noteq> CHR '')'') (drop (length xid_head) s)"
  have p: "HasPrefix s xid_head" and r: "rest = dropWhile is_digit (drop 3 ?s1)"
    using assms by (auto simp: xid_match_def Let_def split: if_splits)
  have "length rest \<le> length (drop 3 ?s1)" unfolding r by (rule length_dropWhile_le)
  also have "\<dots> \<le> length ?s1" by simp
  also have "\<dots> \<le> length (drop (length xid_head) s)" by (rule length_dropWhile_le)
  also have "\<dots> < length s" using p by (auto simp: prefix_def xid_head_def)
  finally show ?thesis .
qed

function find_xids :: "string \<Rightarrow> string list" where
  "find_xids [] = []"
| "find_xids (c # cs) =
     (case xid_match (c # cs) of Some (ds, rest) \<Rightarrow> ds # find_xids rest | None \<Rightarrow> find_xids cs)"
  by pat_completeness auto
termination by (relation "measure length") (auto dest: xid_match_shorter)

definition nv_xidErrors :: "tool_env \<Rightarrow> int list Field" where
  "nv_xidErrors te =
     (let r = tl_run te (4 * Second) [''dmesg'']
      in if run_failed r then Unsup [] else Sup (List.map_filter Atoi (find_xids (er_Stdout r))))"

definition nv_AccessProbe :: "tool_env \<Rightarrow> NVIDIA \<Rightarrow> string \<Rightarrow> duration \<Rightarrow> bool" where
  "nv_AccessProbe te n deviceID timeout =
     (let r = tl_run te timeout
                [nv_smiPath n, ''-i'', deviceID, ''--query-gpu=uuid'', ''--format=csv,noheader'']
      in er_ExitCode r = 0 \<and> er_Err r = None \<and> TrimSpace (er_Stdout r) \<noteq> [])"

text \<open>The fields of a complete line.\<close>

definition nv_fields :: "tool_env \<Rightarrow> NVIDIA \<Rightarrow> string \<Rightarrow> duration \<Rightarrow> string list \<Rightarrow> Health \<Rightarrow> Health" where
  "nv_fields te n deviceID timeout f h0 =
     (let (unc, n1) = supU te (f ! 13) ''ecc_uncorrectable'';
          (cor, n2) = supU te (f ! 14) ''ecc_correctable'';
          h = (note_unsupported (n1 @ n2 @ [''amd_ras:nvidia-vendor'']) h0)\<lparr>h_GPUVisible := True,
                h_MemUsedBytes := mibToBytes te (parseF te (f ! 4)),
                h_MemFreeBytes := mibToBytes te (parseF te (f ! 5)),
                h_MemTotalBytes := mibToBytes te (parseF te (f ! 6)),
                h_UtilizationGPU := supF te (f ! 7), h_TemperatureC := supF te (f ! 8),
                h_PowerWatts := supF te (f ! 9), h_PowerLimitWatts := supF te (f ! 10),
                h_SMClockMHz := supF te (f ! 11), h_MemClockMHz := supF te (f ! 12),
                h_ECCUncorrectable := unc, h_ECCCorrectable := cor,
                h_RASUncorrectable := Unsup 0, h_RASCorrectable := Unsup 0,
                h_ComputeProcs := nv_computeProcs te n deviceID timeout\<rparr>;
          total = h_MemTotalBytes h
      in h\<lparr>h_EffectiveFreeMemRatio :=
             (if fSupported total \<and> fValue total > 0
              then real (unat (fValue (h_MemFreeBytes h))) / real (unat (fValue total))
              else h_EffectiveFreeMemRatio h),
           h_XIDErrors := nv_xidErrors te\<rparr>)"

definition nv_query :: "tool_env \<Rightarrow> NVIDIA \<Rightarrow> string \<Rightarrow> duration \<Rightarrow> exec_result" where
  "nv_query te n deviceID timeout =
     tl_run te timeout [nv_smiPath n, ''-i'', deviceID, ''--query-gpu='' @ nvQuery,
       ''--format=csv,noheader,nounits'']"

definition nv_Sample :: "tool_env \<Rightarrow> NVIDIA \<Rightarrow> string \<Rightarrow> duration \<Rightarrow> Health \<times> string" where
  "nv_Sample te n deviceID timeout =
     (let h = zero_Health\<lparr>h_Timestamp := tl_now te\<rparr>
      in if \<not> nv_hasSMI n
         then (failed_sample ''all:nvidia-smi-missing'' \<lparr>pf_Class = FailureHard,
                 pf_Reason = ReasonAdapterInitFailed, pf_Detail = ''nvidia-smi not on PATH''\<rparr> h, [])
         else let r = nv_query te n deviceID timeout;
                  h1 = h\<lparr>h_ProbeLatencyMs := real_of_int (dur_Microseconds (tl_latency te)) / 1000\<rparr>;
                  raw = er_Stdout r
              in if run_failed r
                 then (failed_sample (exit_note r) (classifyNVFailure (er_TimedOut r) (er_Stderr r)) h1,
                       raw @ [CHR 0x0A] @ ''STDERR:'' @ er_Stderr r)
                 else let f = splitCSV (firstLine raw)
                      in if length f < 15
                         then (failed_sample ''sample:short-output'' \<lparr>pf_Class = FailureSoft,
                                 pf_Reason = ReasonProbeFailure,
                                 pf_Detail = ''short/malformed nvidia-smi output''\<rparr> h1, raw)
                         else (nv_fields te n deviceID timeout f h1, raw))"

section \<open>AMD\<close>

record AMD =
  am_rocmPath :: string
  am_hasROCm :: bool
  am_driver :: string
  am_rocmVer :: string
  am_model :: string

definition NewAMD :: "(string \<Rightarrow> string option) \<Rightarrow> AMD" where
  "NewAMD path =
     (let (p, ok) = LookPath path ''rocm-smi''
      in \<lparr>am_rocmPath = (if ok then p else []), am_hasROCm = ok, am_driver = [], am_rocmVer = [],
          am_model = []\<rparr>)"

definition am_Available :: "AMD \<Rightarrow> bool" where
  "am_Available a = am_hasROCm a"

text \<open>Indexing a Go map of strings: the empty string for a missing key.\<close>

definition mget :: "(string \<times> string) list \<Rightarrow> string \<Rightarrow> string" where
  "mget m k = (case map_of m k of Some v \<Rightarrow> v | None \<Rightarrow> [])"

definition am_DriverVersion :: "tool_env \<Rightarrow> AMD \<Rightarrow> string \<times> AMD" where
  "am_DriverVersion te a =
     (if am_driver a \<noteq> [] \<or> \<not> am_hasROCm a then (am_driver a, a)
      else let r = tl_run te (6 * Second) [am_rocmPath a, ''--showdriverversion'', ''--json''];
               a1 = (case tl_jsonMaps te (er_Stdout r) of
                       Some m \<Rightarrow> (case map_of m ''system'' of
                                    Some sys \<Rightarrow> a\<lparr>am_driver := mget sys ''Driver version''\<rparr> | None \<Rightarrow> a)
                     | None \<Rightarrow> a)
           in (am_driver a1, a1))"

definition am_RuntimeVersion :: "tool_env \<Rightarrow> AMD \<Rightarrow> string \<times> AMD" where
  "am_RuntimeVersion te a =
     (if am_rocmVer a \<noteq> [] then (am_rocmVer a, a)
      else let r = tl_run te (5 * Second) [am_rocmPath a, ''--version''];
               v = (case find (\<lambda>l. Contains (ToLower l) ''rocm-smi version'' \<or> Contains l ''ROCM'')
                           (split_on (CHR 0x0A) (er_Stdout r)) of
                      Some l \<Rightarrow> TrimSpace l | None \<Rightarrow> []);
               v1 = (if v = [] then ''rocm(unknown)'' else v)
           in (v1, a\<lparr>am_rocmVer := v1\<rparr>))"

definition am_cardKey :: "string \<Rightarrow> string" where
  "am_cardKey deviceID = ''card'' @ deviceID"

definition firstNonEmpty :: "string list \<Rightarrow> string" where
  "firstNonEmpty ss = (case find (\<lambda>s. TrimSpace s \<noteq> []) ss of Some s \<Rightarrow> s | None \<Rightarrow> [])"

definition am_discover_card ::
  "tool_env \<Rightarrow> string \<Rightarrow> Identity list \<times> AMD \<Rightarrow> string \<times> (string \<times> string) list \<Rightarrow> Identity list \<times> AMD" where
  "am_discover_card te drv acc kv =
     (let (ids, a) = acc; (k, v) = kv
      in if \<not> HasPrefix k ''card'' then (ids, a)
         else let uuid = (if mget v ''Unique ID'' = [] then mget v ''Serial Number'' else mget v ''Unique ID'');
                  model = firstNonEmpty [mget v ''Card Series'', mget v ''Card Model'',
                            mget v ''GFX Version'', ''AMD Instinct''];
                  (rv, a1) = am_RuntimeVersion te a
              in (ids @ [blank_Identity\<lparr>id_DeviceID := TrimPrefix k ''card'', id_GPUUUID := uuid,
                    id_GPUModel := model, id_DriverVersion := drv, id_Vendor := VendorAMD,
                    id_RuntimeVersion := rv\<rparr>], a1))"

text \<open>The text of a JSON error is not modelled.\<close>

definition am_Discover :: "tool_env \<Rightarrow> duration \<Rightarrow> AMD \<Rightarrow> (string + Identity list) \<times> AMD" where
  "am_Discover te timeout a =
     (if \<not> am_hasROCm a then (Inl ''rocm-smi unavailable'', a)
      else let r = tl_run te timeout
                     [am_rocmPath a, ''--showuniqueid'', ''--showserial'', ''--showproductname'', ''--json'']
           in case er_Err r of
                Some e \<Rightarrow> (Inl (''rocm-smi discover: '' @ e), a)
              | None \<Rightarrow> (case tl_jsonMaps te (er_Stdout r) of
                    None \<Rightarrow> (Inl ''rocm-smi json: '', a)
                  | Some m \<Rightarrow> (let (drv, a1) = am_DriverVersion te a;
                                  (ids, a2) = foldl (am_discover_card te drv) ([], a1) m
                              in (Inr ids, a2))))"

definition am_hardMarkers :: "string list" where
  "am_hardMarkers = [''no gpus'', ''device not found'', ''invalid device'', ''no such device'', ''not detected'']"

definition classifyAMDFailure :: "bool \<Rightarrow> string \<Rightarrow> ProbeFailure" where
  "classifyAMDFailure timedOut stderr = classify_by am_hardMarkers ''rocm-smi timed out'' timedOut stderr"

definition amdF :: "tool_env \<Rightarrow> (string \<times> string) list \<Rightarrow> string \<Rightarrow> f64 Field" where
  "amdF te cv key =
     (case map_of cv key of None \<Rightarrow> Unsup (Fin 0)
      | Some v \<Rightarrow> (case tl_parseFloat te (TrimSpace v) of Some f \<Rightarrow> Sup f | None \<Rightarrow> Unsup (Fin 0)))"

definition amdU :: "tool_env \<Rightarrow> (string \<times> string) list \<Rightarrow> string \<Rightarrow> 64 word Field" where
  "amdU te cv key =
     (case map_of cv key of None \<Rightarrow> Unsup 0
      | Some v \<Rightarrow> (case ParseUint (TrimSpace v) of
           Some u \<Rightarrow> Sup (of_nat u)
         | None \<Rightarrow> (case tl_parseFloat te (TrimSpace v) of
              Some f \<Rightarrow> if f64_le (Fin 0) f then Sup (u64_of te f) else Unsup 0
            | None \<Rightarrow> Unsup 0)))"

text \<open>The first match of the clock pattern: digits between an opening parenthesis and \<open>Mhz)\<close>.\<close>

fun find_clk :: "string \<Rightarrow> string option" where
  "find_clk [] = None"
| "find_clk (c # cs) =
     (if c = CHR ''('' \<and> takeWhile is_digit cs \<noteq> [] \<and> HasPrefix (dropWhile is_digit cs) ''Mhz)''
      then Some (takeWhile is_digit cs) else find_clk cs)"

definition am_clkMHz :: "tool_env \<Rightarrow> (string \<times> string) list \<Rightarrow> string \<Rightarrow> f64 Field" where
  "am_clkMHz te cv key =
     (case map_of cv key of None \<Rightarrow> Unsup (Fin 0)
      | Some v \<Rightarrow> (case find_clk v of None \<Rightarrow> Unsup (Fin 0)
           | Some ds \<Rightarrow> (case tl_parseFloat te ds of Some f \<Rightarrow> Sup f | None \<Rightarrow> Unsup (Fin 0))))"

text \<open>A row of the RAS table adds to the two sums; the flag says that some number was read.\<close>

definition ras_row :: "64 word \<times> 64 word \<times> bool \<Rightarrow> string \<Rightarrow> 64 word \<times> 64 word \<times> bool" where
  "ras_row acc line =
     (let (unc, cor, found) = acc; f = Fields line; k = length f
      in if k \<ge> 4 \<and> (f ! 1 = ''ENABLED'' \<or> f ! 1 = ''DISABLED'') then
           let c = ParseUint (f ! (k - 2)); u = ParseUint (f ! (k - 1))
           in ((case u of Some n \<Rightarrow> unc + of_nat n | None \<Rightarrow> unc),
               (case c of Some n \<Rightarrow> cor + of_nat n | None \<Rightarrow> cor),
               found \<or> c \<noteq> None \<or> u \<noteq> None)
         else acc)"

definition am_rasCounters :: "tool_env \<Rightarrow> AMD \<Rightarrow> string \<Rightarrow> duration \<Rightarrow> 64 word \<times> 64 word \<times> bool" where
  "am_rasCounters te a deviceID timeout =
     (let r = tl_run te timeout [am_rocmPath a, ''-d'', deviceID, ''--showrasinfo'']
      in if run_failed r then (0, 0, False)
         else foldl ras_row (0, 0, False) (split_on (CHR 0x0A) (er_Stdout r)))"

definition uses_device :: "string \<Rightarrow> string \<times> string \<Rightarrow> bool" where
  "uses_device deviceID kv \<longleftrightarrow>
     HasPrefix (fst kv) ''PID'' \<and>
     (let parts = split_on (CHR '','') (snd kv)
      in length parts \<ge> 2 \<and>
         (TrimSpace (parts ! 1) = deviceID \<or> Contains (TrimSpace (parts ! 1)) deviceID))"

definition am_computeProcs :: "tool_env \<Rightarrow> AMD \<Rightarrow> string \<Rightarrow> duration \<Rightarrow> int Field" where
  "am_computeProcs te a deviceID timeout =
     (let r = tl_run te timeout [am_rocmPath a, ''--showpids'', ''--json'']
      in if run_failed r then Unsup 0
         else case tl_jsonMaps te (er_Stdout r) of
           None \<Rightarrow> Unsup 0
         | Some m \<Rightarrow> (case map_of m ''system'' of
              None \<Rightarrow> Sup 0
            | Some sys \<Rightarrow> Sup (int (length (filter (uses_device deviceID) sys)))))"

definition am_AccessProbe :: "tool_env \<Rightarrow> AMD \<Rightarrow> string \<Rightarrow> duration \<Rightarrow> bool" where
  "am_AccessProbe te a deviceID timeout =
     (let r = tl_run te timeout [am_rocmPath a, ''-d'', deviceID, ''--showid'', ''--json'']
      in \<not> run_failed r \<and>
         (case tl_jsonMaps te (er_Stdout r) of None \<Rightarrow> False | Some m \<Rightarrow> map_of m (am_cardKey deviceID) \<noteq> None))"

definition am_fields :: "tool_env \<Rightarrow> AMD \<Rightarrow> string \<Rightarrow> duration \<Rightarrow> (string \<times> string) list \<Rightarrow> Health \<Rightarrow> Health" where
  "am_fields te a deviceID timeout cv h0 =
     (let total = amdU te cv ''VRAM Total Memory (B)'';
          used = amdU te cv ''VRAM Total Used Memory (B)'';
          both = (fSupported total \<and> fSupported used);
          free = (if fValue total > fValue used then fValue total - fValue used else 0);
          (unc, cor, rok) = am_rasCounters te a deviceID timeout
      in (note_unsupported ([''power_limit:rocm-smi-not-queried'', ''nvidia_xid:amd-vendor'',
             ''nvidia_ecc:amd-uses-ras''] @ (if rok then [] else [''amd_ras:unreadable''])) h0)
          \<lparr>h_GPUVisible := True,
           h_TemperatureC := amdF te cv ''Temperature (Sensor junction) (C)'',
           h_UtilizationGPU := amdF te cv ''GPU use (%)'',
           h_PowerWatts := amdF te cv ''Current Socket Graphics Package Power (W)'',
           h_SMClockMHz := am_clkMHz te cv ''sclk clock speed:'',
           h_MemClockMHz := am_clkMHz te cv ''mclk clock speed:'',
           h_MemTotalBytes := total, h_MemUsedBytes := used,
           h_MemFreeBytes := (if both then Sup free else Unsup 0),
           h_EffectiveFreeMemRatio := (if both \<and> fValue total > 0
              then real (unat free) / real (unat (fValue total)) else h_EffectiveFreeMemRatio h0),
           h_PowerLimitWatts := Unsup (Fin 0), h_ECCUncorrectable := Unsup 0,
           h_ECCCorrectable := Unsup 0, h_XIDErrors := Unsup [],
           h_RASUncorrectable := (if rok then Sup unc else Unsup 0),
           h_RASCorrectable := (if rok then Sup cor else Unsup 0),
           h_ComputeProcs := am_computeProcs te a deviceID timeout\<rparr>)"

definition am_query :: "tool_env \<Rightarrow> AMD \<Rightarrow> string \<Rightarrow> duration \<Rightarrow> exec_result" where
  "am_query te a deviceID timeout =
     tl_run te timeout [am_rocmPath a, ''-d'', deviceID, ''--showtemp'', ''--showuse'',
       ''--showpower'', ''--showmeminfo'', ''vram'', ''--showclocks'', ''--json'']"

definition am_Sample :: "tool_env \<Rightarrow> AMD \<Rightarrow> string \<Rightarrow> duration \<Rightarrow> Health \<times> string" where
  "am_Sample te a deviceID timeout =
     (let h = zero_Health\<lparr>h_Timestamp := tl_now te\<rparr>
      in if \<not> am_hasROCm a
         then (failed_sample ''all:rocm-smi-missing'' \<lparr>pf_Class = FailureHard,
                 pf_Reason = ReasonAdapterInitFailed, pf_Detail = ''rocm-smi not on PATH''\<rparr> h, [])
         else let r = am_query te a deviceID timeout;
                  h1 = h\<lparr>h_ProbeLatencyMs := real_of_int (dur_Microseconds (tl_latency te)) / 1000\<rparr>;
                  raw = er_Stdout r
              in if run_failed r
                 then (failed_sample (exit_note r) (classifyAMDFailure (er_TimedOut r) (er_Stderr r)) h1,
                       raw @ [CHR 0x0A] @ ''STDERR:'' @ er_Stderr r)
                 else case tl_jsonMaps te raw of
                   None \<Rightarrow> (failed_sample ''sample:json-parse-fail'' \<lparr>pf_Class = FailureSoft,
                              pf_Reason = ReasonProbeFailure, pf_Detail = ''rocm-smi json parse failed''\<rparr> h1, raw)
                 | Some m \<Rightarrow> (case map_of m (am_cardKey deviceID) of
                      None \<Rightarrow> (failed_sample ''sample:card-not-in-output'' \<lparr>pf_Class = FailureHard,
                                 pf_Reason = ReasonDeviceDisappeared,
                                 pf_Detail = ''card not present in rocm-smi output''\<rparr> h1, raw)
                    | Some cv \<Rightarrow> (am_fields te a deviceID timeout cv h1, raw)))"

section \<open>The fallback, fault injection and detection\<close>

definition gen_Discover :: "Identity list" where
  "gen_Discover = [blank_Identity\<lparr>id_DeviceID := ''0'', id_GPUModel := ''none'',
     id_Vendor := VendorUnknown, id_GPUUUID := ''generic-0''\<rparr>]"

definition gen_Sample :: "tool_env \<Rightarrow> string \<Rightarrow> Health \<times> string" where
  "gen_Sample te deviceID =
     (markUnsupportedAll (note_unsupported [''all:no-vendor-tool'']
        (zero_Health\<lparr>h_Timestamp := tl_now te, h_GPUVisible := False\<rparr>)),
      ''generic adapter: no vendor GPU tooling on device '' @ deviceID)"

definition gen_AccessProbe :: "string \<Rightarrow> bool" where
  "gen_AccessProbe deviceID = False"

fun splitLines_acc :: "string \<Rightarrow> string \<Rightarrow> string list" where
  "splitLines_acc cur [] = (if cur \<noteq> [] then [cur] else [])"
| "splitLines_acc cur (r # rs) =
     (if r = CHR 0x0A then cur # splitLines_acc [] rs else splitLines_acc (cur @ [r]) rs)"

definition splitLines :: "string \<Rightarrow> string list" where
  "splitLines s = splitLines_acc [] s"

definition fi_fields :: "string \<Rightarrow> string list" where
  "fi_fields s = fields_acc (\<lambda>r. r = CHR '' '' \<or> r = CHR 0x09) [] s"

text \<open>\<open>atoiSafe\<close> stops at the first character that is not a digit; the number wraps.\<close>

fun atoiSafe_acc :: "64 word \<Rightarrow> string \<Rightarrow> 64 word" where
  "atoiSafe_acc n [] = n"
| "atoiSafe_acc n (r # rs) =
     (if \<not> is_digit r then n else atoiSafe_acc (n * 10 + of_nat (digit_val r)) rs)"

definition atoiSafe :: "string \<Rightarrow> 64 word" where
  "atoiSafe s = atoiSafe_acc 0 s"

datatype fault_mode = FaultNone | FaultSoft | FaultHard

fun fault_lines :: "string \<Rightarrow> string list \<Rightarrow> fault_mode \<times> 64 word" where
  "fault_lines deviceID [] = (FaultNone, 0)"
| "fault_lines deviceID (l # ls) =
     (let ff = fi_fields l
      in if length ff \<ge> 2 \<and> ff ! 1 = deviceID then
           (if ff ! 0 = ''fail'' \<or> ff ! 0 = ''failsoft'' then (FaultSoft, 0)
            else if ff ! 0 = ''failhard'' then (FaultHard, 0)
            else if ff ! 0 = ''delay'' \<and> length ff \<ge> 3
            then (FaultNone, atoiSafe (ff ! 2) * word_of_int Millisecond)
            else fault_lines deviceID ls)
         else fault_lines deviceID ls)"

definition fi_refresh :: "tool_env \<Rightarrow> string \<Rightarrow> string \<Rightarrow> fault_mode \<times> 64 word" where
  "fi_refresh te file deviceID =
     (case tl_readFile te file of None \<Rightarrow> (FaultNone, 0)
      | Some s \<Rightarrow> fault_lines deviceID (splitLines s))"

datatype GpuAdapter = ANvidia NVIDIA | AAmd AMD | AGeneric | AFault string GpuAdapter

text \<open>The delay that a control file asks for: \<open>Sample\<close> sleeps that long first, if it is positive.\<close>

definition fi_delay :: "tool_env \<Rightarrow> string \<Rightarrow> string \<Rightarrow> duration" where
  "fi_delay te file deviceID = max 0 (sint (snd (fi_refresh te file deviceID)))"

definition fi_Sample :: "tool_env \<Rightarrow> string \<Rightarrow> (string \<Rightarrow> Health \<times> string) \<Rightarrow> string \<Rightarrow> Health \<times> string" where
  "fi_Sample te file inner deviceID =
     (let h = zero_Health\<lparr>h_Timestamp := tl_now te, h_GPUVisible := False\<rparr>
      in case fst (fi_refresh te file deviceID) of
           FaultSoft \<Rightarrow> (failed_sample ''fault-injected:soft-probe-failure'' \<lparr>pf_Class = FailureSoft,
             pf_Reason = ReasonProbeFailure, pf_Detail = ''fault-injected soft failure (experiment)''\<rparr> h,
             ''FAULT_INJECTED soft probe failure (experiment)'')
         | FaultHard \<Rightarrow> (failed_sample ''fault-injected:hard-device-gone'' \<lparr>pf_Class = FailureHard,
             pf_Reason = ReasonDeviceDisappeared, pf_Detail = ''fault-injected hard failure (experiment)''\<rparr> h,
             ''FAULT_INJECTED hard device-gone (experiment)'')
         | FaultNone \<Rightarrow> inner deviceID)"

definition fi_AccessProbe :: "tool_env \<Rightarrow> string \<Rightarrow> (string \<Rightarrow> bool) \<Rightarrow> string \<Rightarrow> bool" where
  "fi_AccessProbe te file inner deviceID =
     (if fst (fi_refresh te file deviceID) = FaultNone then inner deviceID else False)"

primrec ad_Sample :: "tool_env \<Rightarrow> duration \<Rightarrow> GpuAdapter \<Rightarrow> string \<Rightarrow> Health \<times> string" where
  "ad_Sample te timeout (ANvidia n) = (\<lambda>d. nv_Sample te n d timeout)"
| "ad_Sample te timeout (AAmd a) = (\<lambda>d. am_Sample te a d timeout)"
| "ad_Sample te timeout AGeneric = (\<lambda>d. gen_Sample te d)"
| "ad_Sample te timeout (AFault file a) = fi_Sample te file (ad_Sample te timeout a)"

primrec ad_AccessProbe :: "tool_env \<Rightarrow> duration \<Rightarrow> GpuAdapter \<Rightarrow> string \<Rightarrow> bool" where
  "ad_AccessProbe te timeout (ANvidia n) = (\<lambda>d. nv_AccessProbe te n d timeout)"
| "ad_AccessProbe te timeout (AAmd a) = (\<lambda>d. am_AccessProbe te a d timeout)"
| "ad_AccessProbe te timeout AGeneric = (\<lambda>d. gen_AccessProbe d)"
| "ad_AccessProbe te timeout (AFault file a) = fi_AccessProbe te file (ad_AccessProbe te timeout a)"

primrec ad_Vendor :: "GpuAdapter \<Rightarrow> Vendor" where
  "ad_Vendor (ANvidia n) = VendorNVIDIA"
| "ad_Vendor (AAmd a) = VendorAMD"
| "ad_Vendor AGeneric = VendorUnknown"
| "ad_Vendor (AFault file a) = ad_Vendor a"

primrec ad_Discover :: "tool_env \<Rightarrow> duration \<Rightarrow> GpuAdapter \<Rightarrow> (string + Identity list) \<times> GpuAdapter" where
  "ad_Discover te timeout (ANvidia n) = (let (r, n1) = nv_Discover te timeout n in (r, ANvidia n1))"
| "ad_Discover te timeout (AAmd a) = (let (r, a1) = am_Discover te timeout a in (r, AAmd a1))"
| "ad_Discover te timeout AGeneric = (Inr gen_Discover, AGeneric)"
| "ad_Discover te timeout (AFault file a) = (let (r, a1) = ad_Discover te timeout a in (r, AFault file a1))"

definition Detect :: "(string \<Rightarrow> string option) \<Rightarrow> GpuAdapter \<times> string" where
  "Detect path =
     (if nv_Available (NewNVIDIA path) then (ANvidia (NewNVIDIA path), ''nvidia (nvidia-smi)'')
      else if am_Available (NewAMD path) then (AAmd (NewAMD path), ''amd (rocm-smi)'')
      else (AGeneric, ''generic (no vendor tool)''))"

definition WrapFaultInject :: "string \<Rightarrow> GpuAdapter \<Rightarrow> GpuAdapter" where
  "WrapFaultInject faultFile inner = (if faultFile = [] then inner else AFault faultFile inner)"

section \<open>The contract of an adapter\<close>

definition no_metrics :: "Health \<Rightarrow> bool" where
  "no_metrics h \<longleftrightarrow>
     \<not> fSupported (h_UtilizationGPU h) \<and> \<not> fSupported (h_MemUsedBytes h) \<and>
     \<not> fSupported (h_MemFreeBytes h) \<and> \<not> fSupported (h_MemTotalBytes h) \<and>
     \<not> fSupported (h_TemperatureC h) \<and> \<not> fSupported (h_PowerWatts h) \<and>
     \<not> fSupported (h_PowerLimitWatts h) \<and> \<not> fSupported (h_SMClockMHz h) \<and>
     \<not> fSupported (h_MemClockMHz h) \<and> \<not> fSupported (h_ComputeProcs h) \<and>
     \<not> fSupported (h_ECCUncorrectable h) \<and> \<not> fSupported (h_ECCCorrectable h) \<and>
     \<not> fSupported (h_XIDErrors h) \<and> \<not> fSupported (h_RASUncorrectable h) \<and>
     \<not> fSupported (h_RASCorrectable h)"

definition probe_class :: "Health \<Rightarrow> FailureClass" where
  "probe_class h = pf_Class (h_ProbeFailure h)"

locale gpu_adapter =
  fixes sample :: "string \<Rightarrow> Health" and access :: "string \<Rightarrow> bool"
  assumes blind: "\<not> h_GPUVisible (sample d) \<Longrightarrow> no_metrics (sample d) \<and> h_UnsupportedFields (sample d) \<noteq> []"
    and seen: "h_GPUVisible (sample d) \<Longrightarrow> probe_class (sample d) = FailureNone"
    and unexplained: "\<not> h_GPUVisible (sample d) \<Longrightarrow> probe_class (sample d) = FailureNone \<Longrightarrow> \<not> access d"
    and unread_memory: "\<not> fSupported (h_MemTotalBytes (sample d)) \<Longrightarrow> h_EffectiveFreeMemRatio (sample d) = 0"
begin

lemma hard_exact:
  assumes "pi_health inp = sample d" and "pi_access inp = access d"
  shows "obs_hard (poll_obs ae inp ds) \<longleftrightarrow> probe_class (sample d) = FailureHard"
  using assms unexplained [of d] FailureClass.exhaust [of "probe_class (sample d)"]
  by (auto simp: obs_hard_def probe_class_def)

lemma healthy_exact:
  assumes "pi_health inp = sample d" and "pi_access inp = access d"
  shows "obs_healthy (poll_obs True inp ds) \<longleftrightarrow> h_GPUVisible (sample d) \<and> access d"
proof -
  have "o_ProbeOK (poll_obs True inp ds) \<longleftrightarrow> h_GPUVisible (sample d) \<and> access d"
    using assms by (auto simp: poll_obs_def poll_front_def poll_observation_def Let_def split: prod.splits)
  then show ?thesis
    using assms hard_exact [OF assms] seen [of d]
    by (auto simp: obs_healthy_def obs_soft_def probe_class_def)
qed

lemma unread_memory_ratio:
  assumes "pi_health inp = sample d" and "\<not> fSupported (h_MemTotalBytes (sample d))"
  shows "o_FreeMemRatio (poll_obs ae inp ds) = 0"
  using assms unread_memory [OF assms(2)]
  by (auto simp: poll_obs_def poll_front_def poll_observation_def Let_def split: prod.splits)

end

lemma failed_sample_simps [simp]:
  "h_GPUVisible (failed_sample note f h) = False"
  "no_metrics (failed_sample note f h)"
  "h_UnsupportedFields (failed_sample note f h) \<noteq> []"
  "probe_class (failed_sample note f h) = pf_Class f"
  "h_EffectiveFreeMemRatio (failed_sample note f h) = h_EffectiveFreeMemRatio h"
  "fSupported (h_MemTotalBytes (failed_sample note f h)) = False"
  by (simp_all add: failed_sample_def markUnsupportedAll_def note_unsupported_def no_metrics_def
      probe_class_def)

lemma zero_Health_simps [simp]:
  "h_EffectiveFreeMemRatio zero_Health = 0"
  "pf_Class (h_ProbeFailure zero_Health) = FailureNone"
  by (simp_all add: zero_Health_def)

lemma classify_by_explains [simp]: "pf_Class (classify_by ms d t s) \<noteq> FailureNone"
  by (simp add: classify_by_def Let_def)

lemma nv_fields_simps [simp]:
  "h_GPUVisible (nv_fields te n d t f h)"
  "probe_class (nv_fields te n d t f h) = probe_class h"
  "\<not> fSupported (h_MemTotalBytes (nv_fields te n d t f h)) \<Longrightarrow>
     h_EffectiveFreeMemRatio (nv_fields te n d t f h) = h_EffectiveFreeMemRatio h"
  by (simp_all add: nv_fields_def note_unsupported_def probe_class_def Let_def case_prod_beta)

lemma am_fields_simps [simp]:
  "h_GPUVisible (am_fields te a d t cv h)"
  "probe_class (am_fields te a d t cv h) = probe_class h"
  "\<not> fSupported (h_MemTotalBytes (am_fields te a d t cv h)) \<Longrightarrow>
     h_EffectiveFreeMemRatio (am_fields te a d t cv h) = h_EffectiveFreeMemRatio h"
  by (simp_all add: am_fields_def note_unsupported_def probe_class_def Let_def case_prod_beta)

text \<open>What every record of a vendor tool satisfies.\<close>

definition explained :: "Health \<Rightarrow> bool" where
  "explained h \<longleftrightarrow>
     (if h_GPUVisible h then probe_class h = FailureNone
      else no_metrics h \<and> h_UnsupportedFields h \<noteq> [] \<and> probe_class h \<noteq> FailureNone) \<and>
     (fSupported (h_MemTotalBytes h) \<or> h_EffectiveFreeMemRatio h = 0)"

lemma explained_failed:
  "pf_Class f \<noteq> FailureNone \<Longrightarrow> h_EffectiveFreeMemRatio h = 0 \<Longrightarrow> explained (failed_sample w f h)"
  by (simp add: explained_def)

lemma explained_read:
  "probe_class h = FailureNone \<Longrightarrow> h_EffectiveFreeMemRatio h = 0 \<Longrightarrow> explained (nv_fields te n d t f h)"
  "probe_class h = FailureNone \<Longrightarrow> h_EffectiveFreeMemRatio h = 0 \<Longrightarrow> explained (am_fields te a d t cv h)"
  unfolding explained_def using nv_fields_simps(3) am_fields_simps(3) by (simp, metis)+

lemma nv_Sample_explained: "explained (fst (nv_Sample te n d t))"
  unfolding nv_Sample_def Let_def
  by (auto simp: classifyNVFailure_def probe_class_def intro!: explained_failed explained_read)

lemma am_Sample_explained: "explained (fst (am_Sample te a d t))"
  unfolding am_Sample_def Let_def
  by (auto simp: classifyAMDFailure_def probe_class_def intro!: explained_failed explained_read
      split: option.split)

lemma explained_adapter:
  assumes "\<And>d. explained (sample d)"
  shows "gpu_adapter sample access"
proof
  fix d
  show "\<not> h_GPUVisible (sample d) \<Longrightarrow> no_metrics (sample d) \<and> h_UnsupportedFields (sample d) \<noteq> []"
    using assms [of d] by (simp add: explained_def)
  show "h_GPUVisible (sample d) \<Longrightarrow> probe_class (sample d) = FailureNone"
    using assms [of d] by (simp add: explained_def)
  show "\<not> h_GPUVisible (sample d) \<Longrightarrow> probe_class (sample d) = FailureNone \<Longrightarrow> \<not> access d"
    using assms [of d] by (simp add: explained_def)
  show "\<not> fSupported (h_MemTotalBytes (sample d)) \<Longrightarrow> h_EffectiveFreeMemRatio (sample d) = 0"
    using assms [of d] by (simp add: explained_def)
qed

interpretation nvidia: gpu_adapter "\<lambda>d. fst (nv_Sample te n d t)" "\<lambda>d. nv_AccessProbe te' n d t"
  for te te' n t
  by (rule explained_adapter) (rule nv_Sample_explained)

interpretation amd: gpu_adapter "\<lambda>d. fst (am_Sample te a d t)" "\<lambda>d. am_AccessProbe te' a d t"
  for te te' a t
  by (rule explained_adapter) (rule am_Sample_explained)

interpretation generic: gpu_adapter "\<lambda>d. fst (gen_Sample te d)" gen_AccessProbe for te
  by unfold_locales (simp_all add: gen_Sample_def markUnsupportedAll_def note_unsupported_def
      no_metrics_def gen_AccessProbe_def)

text \<open>A fault injector keeps the contract of the adapter that it wraps.\<close>

lemma injected_adapter:
  assumes "gpu_adapter (\<lambda>d. fst (sample d)) access"
  shows "gpu_adapter (\<lambda>d. fst (fi_Sample te file sample d)) (fi_AccessProbe te' file access)"
proof -
  from assms have g: "gpu_adapter (\<lambda>d. fst (sample d)) access" .
  show ?thesis
    by unfold_locales
      (auto simp: fi_Sample_def fi_AccessProbe_def Let_def split: fault_mode.splits if_splits
        dest: gpu_adapter.blind [OF g] gpu_adapter.seen [OF g] gpu_adapter.unexplained [OF g]
          gpu_adapter.unread_memory [OF g])
qed

interpretation adapter: gpu_adapter "\<lambda>d. fst (ad_Sample te t a d)" "ad_AccessProbe te' t a"
  for te te' t a
  by (induction a) (simp_all add: nvidia.gpu_adapter_axioms amd.gpu_adapter_axioms
      generic.gpu_adapter_axioms injected_adapter)

section \<open>Reading back a line of nvidia-smi\<close>

text \<open>A field as the tool prints it, and a line of fields.\<close>

definition csv_field :: "string \<Rightarrow> bool" where
  "csv_field x \<longleftrightarrow> x \<noteq> [] \<and> CHR '','' \<notin> set x \<and> CHR 0x0A \<notin> set x \<and>
     \<not> is_space (hd x) \<and> \<not> is_space (last x)"

fun csv_line :: "string list \<Rightarrow> string" where
  "csv_line [] = []"
| "csv_line [x] = x"
| "csv_line (x # y # zs) = x @ '', '' @ csv_line (y # zs)"

lemma csv_line_shape:
  assumes "fs \<noteq> []" and "list_all csv_field fs"
  shows "csv_line fs \<noteq> [] \<and> hd (csv_line fs) = hd (hd fs) \<and> last (csv_line fs) = last (last fs) \<and>
    CHR 0x0A \<notin> set (csv_line fs)"
  using assms by (induction fs rule: csv_line.induct) (auto simp: csv_field_def)

lemma splitCSV_space: "splitCSV (CHR '' '' # s) = splitCSV s"
  by (cases "split_on (CHR '','') s") (auto simp: splitCSV_def TrimSpace_def is_space_def)

lemma splitCSV_line:
  assumes "fs \<noteq> []" and "list_all csv_field fs"
  shows "splitCSV (csv_line fs) = fs"
  using assms
proof (induction fs rule: csv_line.induct)
  case (3 x y zs)
  have "splitCSV (x @ CHR '','' # s) = x # splitCSV s" for s
    using 3(3) by (simp add: splitCSV_def split_on_append csv_field_def TrimSpace_id)
  then show ?case using 3 by (simp add: splitCSV_space)
qed (simp_all add: splitCSV_def split_on_word csv_field_def TrimSpace_id)

lemma firstLine_line:
  assumes "fs \<noteq> []" and "list_all csv_field fs"
  shows "firstLine (csv_line fs @ [CHR 0x0A]) = csv_line fs"
proof -
  let ?l = "csv_line fs"
  have s: "?l \<noteq> [] \<and> \<not> is_space (hd ?l) \<and> \<not> is_space (last ?l) \<and> CHR 0x0A \<notin> set ?l"
    using csv_line_shape [OF assms] assms by (auto simp: csv_field_def list_all_iff)
  then have "TrimSpace (?l @ [CHR 0x0A]) = TrimSpace ?l"
    by (cases ?l) (auto simp: TrimSpace_def is_space_def)
  moreover have "TrimSpace ?l = ?l" using s by (simp add: TrimSpace_id)
  moreover have "break_at (\<lambda>c. c = CHR 0x0A) ?l = None"
    using s by (auto simp: break_at_def dropWhile_eq_Nil_conv split: list.split)
  ultimately show ?thesis by (simp add: firstLine_def)
qed

section \<open>Memory that cannot be read\<close>

lemma step_not_ready:
  assumes "fst (classifyHealthy m ob) \<noteq> StateReady" and "lm_state m \<noteq> StateReady"
  shows "lm_state (fst (Step m ob)) \<noteq> StateReady"
proof -
  have c: "fst (classifyHealthy m' ob) \<noteq> StateReady"
    if "lm_cfg m' = lm_cfg m" "lm_draining m' = lm_draining m" for m'
    using assms(1) classify_cong [OF that] by simp
  show ?thesis
    using assms(2) by (cases rule: Step_cases [of ob m]) (auto simp: lm_defs Let_def c)
qed

lemma unread_memory_run:
  assumes "0 \<le> lc_BusyMemRatio cfg"
    and "\<And>ob. ob \<in> set (observations ops) \<Longrightarrow> o_FreeMemRatio ob = 0"
  shows "lm_state (lm_run cfg ops) \<noteq> StateReady"
  using assms(2)
proof (induction ops rule: rev_induct)
  case (snoc op ops)
  show ?case
  proof (cases op)
    case (OpStep ob)
    then have "fst (classifyHealthy (lm_run cfg ops) ob) \<noteq> StateReady"
      using snoc.prems [of ob] assms(1) by (auto simp: classifyHealthy_def)
    then show ?thesis using OpStep snoc by (simp add: step_not_ready)
  qed (use snoc in simp)
qed (simp add: NewLifecycleMachine_def)

section \<open>Properties\<close>

definition probe_of :: "Health \<Rightarrow> bool \<Rightarrow> duration \<Rightarrow> walltime \<Rightarrow> ProbeInput" where
  "probe_of h access now wall = \<lparr>pi_health = h, pi_access = access, pi_mono = now, pi_wall = wall\<rparr>"


text \<open>C36: Hard evidence is exact. A poll through the NVIDIA adapter counts as hard evidence of a
  lost device exactly when nvidia-smi is not installed, or it failed without a timeout and its error
  output has one of the markers; through the AMD adapter also when the tool succeeded and its output
  has no entry for the card. A timeout is never hard evidence.\<close>

theorem hard_evidence_exact:
  fixes te te' :: tool_env and t now :: duration and wall :: walltime and d :: string
  shows "(obs_hard (poll_obs ae (probe_of (fst (nv_Sample te n d t)) (nv_AccessProbe te' n d t) now wall) ds) \<longleftrightarrow>
     (if nv_hasSMI n then
        let r = nv_query te n d t in run_failed r \<and> \<not> er_TimedOut r \<and>
          list_ex (Contains (ToLower (er_Stderr r))) nv_hardMarkers
      else True)) \<and>
   (obs_hard (poll_obs ae (probe_of (fst (am_Sample te a d t)) (am_AccessProbe te' a d t) now wall) ds) \<longleftrightarrow>
     (if am_hasROCm a then
        let r = am_query te a d t in
          if run_failed r then \<not> er_TimedOut r \<and> list_ex (Contains (ToLower (er_Stderr r))) am_hardMarkers
          else (case tl_jsonMaps te (er_Stdout r) of
                  None \<Rightarrow> False | Some m \<Rightarrow> map_of m (am_cardKey d) = None)
      else True))"
proof -
  have n: "obs_hard (poll_obs ae (probe_of (fst (nv_Sample te n d t)) (nv_AccessProbe te' n d t) now wall) ds) \<longleftrightarrow>
      probe_class (fst (nv_Sample te n d t)) = FailureHard"
    by (rule nvidia.hard_exact) (simp_all add: probe_of_def)
  have a: "obs_hard (poll_obs ae (probe_of (fst (am_Sample te a d t)) (am_AccessProbe te' a d t) now wall) ds) \<longleftrightarrow>
      probe_class (fst (am_Sample te a d t)) = FailureHard"
    by (rule amd.hard_exact) (simp_all add: probe_of_def)
  have z: "probe_class (zero_Health\<lparr>h_Timestamp := x, h_ProbeLatencyMs := y\<rparr>) = FailureNone" for x y
    by (simp add: probe_class_def)
  show ?thesis
    unfolding n a by (simp add: nv_Sample_def am_Sample_def Let_def classifyNVFailure_def
        classifyAMDFailure_def classify_by_def z split: option.split)
qed

text \<open>What nvidia-smi prints is what is published. If the tool prints one line of fifteen
  fields, the sample shows the device and each metric is the number of its own column, or unsupported
  where the column holds no number; the free memory ratio is free memory over total memory.\<close>

lemma nvidia_line_published:
  fixes te :: tool_env and n :: NVIDIA and d :: string and t :: duration and fs :: "string list"
  assumes "nv_hasSMI n" and "\<not> run_failed (nv_query te n d t)"
    and "er_Stdout (nv_query te n d t) = csv_line fs @ [CHR 0x0A]"
    and "length fs = 15" and "list_all csv_field fs"
  defines "h \<equiv> fst (nv_Sample te n d t)" and "mem i \<equiv> mibToBytes te (parseF te (fs ! i))"
  shows "h_GPUVisible h \<and> probe_class h = FailureNone \<and>
    h_MemUsedBytes h = mem 4 \<and> h_MemFreeBytes h = mem 5 \<and> h_MemTotalBytes h = mem 6 \<and>
    [h_UtilizationGPU h, h_TemperatureC h, h_PowerWatts h, h_PowerLimitWatts h, h_SMClockMHz h,
     h_MemClockMHz h] = map (\<lambda>i. supF te (fs ! i)) [7 ..< 13] \<and>
    h_ECCUncorrectable h = fst (supU te (fs ! 13) ''ecc_uncorrectable'') \<and>
    h_ECCCorrectable h = fst (supU te (fs ! 14) ''ecc_correctable'') \<and>
    h_EffectiveFreeMemRatio h =
      (if fSupported (mem 6) \<and> fValue (mem 6) > 0
       then real (unat (fValue (mem 5))) / real (unat (fValue (mem 6))) else 0)"
proof -
  have "fs \<noteq> []" using assms(4) by auto
  then have "splitCSV (firstLine (er_Stdout (nv_query te n d t))) = fs"
    using assms by (simp add: firstLine_line splitCSV_line)
  then have "h = nv_fields te n d t fs (zero_Health\<lparr>h_Timestamp := tl_now te,
      h_ProbeLatencyMs := real_of_int (dur_Microseconds (tl_latency te)) / 1000\<rparr>)"
    using assms by (simp add: nv_Sample_def Let_def)
  then show ?thesis
    by (simp add: nv_fields_def note_unsupported_def mem_def probe_class_def Let_def case_prod_beta
        upt_rec)
qed

definition smi_env :: "string list \<Rightarrow> tool_env" where
  "smi_env fs = \<lparr>
     tl_run = (\<lambda>t args. \<lparr>er_Stdout = csv_line fs @ [CHR 0x0A], er_Stderr = [], er_ExitCode = 0,
                 er_Err = None, er_Duration = Millisecond, er_TimedOut = False, er_Truncated = False\<rparr>),
     tl_parseFloat = (\<lambda>s. map_option (\<lambda>k. Fin (real k)) (ParseUint s)),
     tl_outOfRange = (\<lambda>v. 0), tl_readFile = (\<lambda>f. None), tl_jsonMaps = (\<lambda>s. None), tl_now = 5,
     tl_latency = Millisecond\<rparr>"

definition smi_nvidia :: NVIDIA where
  "smi_nvidia = NewNVIDIA (\<lambda>name. Some (''/usr/bin/'' @ name))"

lemma smi_env_run [simp]:
  "nv_hasSMI smi_nvidia"
  "\<not> run_failed (nv_query (smi_env fs) smi_nvidia d t)"
  "er_Stdout (nv_query (smi_env fs) smi_nvidia d t) = csv_line fs @ [CHR 0x0A]"
  by (simp_all add: smi_nvidia_def NewNVIDIA_def LookPath_def smi_env_def nv_query_def run_failed_def)

text \<open>C37: A device whose memory cannot be read is never READY. An adapter that cannot read the
  total memory leaves the free memory ratio at zero, and the lifecycle reads a ratio of zero as
  exhausted memory: if every poll of a device is of this kind, the device never becomes READY, though
  each poll may be healthy.\<close>

theorem unread_memory_never_ready:
  fixes cfg :: LifecycleConfig and ops :: "LifecycleOp list" and a :: GpuAdapter and d :: string
  assumes "0 \<le> lc_BusyMemRatio cfg"
    and "\<And>ob. ob \<in> set (observations ops) \<Longrightarrow>
      \<exists>te t inp ae ds. ob = poll_obs ae inp ds \<and> pi_health inp = fst (ad_Sample te t a d) \<and>
        \<not> fSupported (h_MemTotalBytes (pi_health inp))"
  shows "lm_state (lm_run cfg ops) \<noteq> StateReady"
proof (rule unread_memory_run [OF assms(1)])
  fix ob
  assume "ob \<in> set (observations ops)"
  then obtain te t inp ae ds where "ob = poll_obs ae inp ds" and "pi_health inp = fst (ad_Sample te t a d)"
    and "\<not> fSupported (h_MemTotalBytes (pi_health inp))"
    using assms(2) by blast
  then show "o_FreeMemRatio ob = 0" using adapter.unread_memory_ratio [of inp te t a d ae ds] by simp
qed

definition blind_line :: "string list" where
  "blind_line = [''0'', ''GPU-1'', ''GB10'', ''550.1'', ''[N/A]'', ''[N/A]'', ''[N/A]'', ''0'', ''55'', ''30'',
     ''[N/A]'', ''1980'', ''2619'', ''0'', ''0'']"

definition blind_probe :: ProbeInput where
  "blind_probe = probe_of (fst (ad_Sample (smi_env blind_line) Second (ANvidia smi_nvidia) ''0''))
     (ad_AccessProbe (smi_env blind_line) Second (ANvidia smi_nvidia) ''0'') 1 2"

definition blind_obs :: LifecycleObservation where
  "blind_obs = poll_obs True blind_probe (newDeviceState sample_supervisor sample_identity)"

lemma blind_probe_unread:
  "h_GPUVisible (pi_health blind_probe)" "\<not> fSupported (h_MemTotalBytes (pi_health blind_probe))"
proof -
  have l: "list_all csv_field blind_line" "length blind_line = 15"
    by (simp_all add: blind_line_def csv_field_def is_space_def)
  then have "splitCSV (firstLine (csv_line blind_line @ [CHR 0x0A])) = blind_line"
    by (metis firstLine_line splitCSV_line list.size(3) zero_neq_numeral)
  moreover have "parseF te (blind_line ! 6) = None" for te
    by (simp add: blind_line_def parseF_def TrimSpace_def is_space_def)
  ultimately show "h_GPUVisible (pi_health blind_probe)"
      "\<not> fSupported (h_MemTotalBytes (pi_health blind_probe))"
    using l(2) by (simp_all add: blind_probe_def probe_of_def nv_Sample_def nv_fields_def mibToBytes_def
        Let_def case_prod_beta)
qed

lemma blind_obs_healthy: "obs_healthy blind_obs"
proof -
  have "ad_AccessProbe (smi_env blind_line) Second (ANvidia smi_nvidia) ''0''"
    by (simp add: nv_AccessProbe_def smi_env_def TrimSpace_def blind_line_def is_space_def)
  then show ?thesis
    unfolding blind_obs_def using blind_probe_unread(1)
    by (subst adapter.healthy_exact [of _ "smi_env blind_line" Second "ANvidia smi_nvidia" "''0''"
          "smi_env blind_line"]) (simp_all add: blind_probe_def probe_of_def)
qed

theorem unread_memory_never_ready_witness:
  "obs_healthy blind_obs \<and>
   lm_state (lm_run DefaultLifecycleConfig [OpStep blind_obs, OpStep blind_obs]) \<noteq> StateReady"
proof
  have "\<exists>te t inp ae ds. blind_obs = poll_obs ae inp ds \<and>
      pi_health inp = fst (ad_Sample te t (ANvidia smi_nvidia) ''0'') \<and>
      \<not> fSupported (h_MemTotalBytes (pi_health inp))"
    using blind_probe_unread(2) unfolding blind_obs_def
    by (metis blind_probe_def probe_of_def ProbeInput.select_convs(1))
  then show "lm_state (lm_run DefaultLifecycleConfig [OpStep blind_obs, OpStep blind_obs]) \<noteq> StateReady"
    by (intro unread_memory_never_ready [of _ _ "ANvidia smi_nvidia" "''0''"])
      (auto simp: DefaultLifecycleConfig_def)
qed (rule blind_obs_healthy)

end
