(* ===== verification/Sidecar_Config.thy ===== *)
theory Sidecar_Config
  imports Go_Strings Host_Supervisor
begin

text \<open>
  The configuration of the sidecar (\<open>internal/config/config.go\<close>): the record, its defaults, and
  \<open>IsLoopback\<close>, which decides whether the daemon warns that its unauthenticated drain endpoint is
  reachable from the network.
\<close>

section \<open>Configuration\<close>

record Config =
  cf_ListenAddr :: string
  cf_PollInterval :: duration
  cf_ProbeTimeout :: duration
  cf_AccessProbeEach :: bool
  cf_Devices :: "string list"
  cf_WindowSeconds :: real
  cf_ProbeRingCap :: nat
  cf_PointRingCap :: nat
  cf_EventRingCap :: nat
  cf_WorkerCgroupHint :: string
  cf_EnableThroughputProbe :: bool
  cf_PersistPath :: string
  cf_Lifecycle :: LifecycleConfig
  cf_Stability :: StabilityConfig

definition Default :: Config where
  "Default = \<lparr>cf_ListenAddr = ''127.0.0.1:9095'', cf_PollInterval = 2 * Second,
     cf_ProbeTimeout = 8 * Second, cf_AccessProbeEach = True, cf_Devices = [], cf_WindowSeconds = 120,
     cf_ProbeRingCap = 2048, cf_PointRingCap = 4096, cf_EventRingCap = 512, cf_WorkerCgroupHint = [],
     cf_EnableThroughputProbe = False, cf_PersistPath = [], cf_Lifecycle = DefaultLifecycleConfig,
     cf_Stability = DefaultStabilityConfig\<rparr>"

section \<open>Loopback addresses\<close>

text \<open>The last position of a byte, -1 if there is none. \<open>lastColon\<close> finds it in an upward loop and
  \<open>lastIndexByte\<close> in a downward one.\<close>

fun last_pos :: "char \<Rightarrow> int \<Rightarrow> int \<Rightarrow> string \<Rightarrow> int" where
  "last_pos b i idx [] = idx"
| "last_pos b i idx (c # cs) = last_pos b (i + 1) (if c = b then i else idx) cs"

fun lastIndexByte_from :: "char \<Rightarrow> string \<Rightarrow> nat \<Rightarrow> int" where
  "lastIndexByte_from b s 0 = -1"
| "lastIndexByte_from b s (Suc i) = (if s ! i = b then int i else lastIndexByte_from b s i)"

definition lastIndexByte :: "string \<Rightarrow> char \<Rightarrow> int" where
  "lastIndexByte s b = lastIndexByte_from b s (length s)"

definition lastColon :: "string \<Rightarrow> int" where
  "lastColon s =
     (let idx = last_pos (CHR '':'') 0 (-1) s; r = lastIndexByte s (CHR '']'')
      in if r \<ge> 0 \<and> idx < r then -1 else idx)"

definition trimBrackets :: "string \<Rightarrow> string" where
  "trimBrackets s =
     (if length s \<ge> 2 \<and> s ! 0 = CHR ''['' \<and> s ! (length s - 1) = CHR '']''
      then take (length s - 2) (drop 1 s) else s)"

definition IsLoopback :: "string \<Rightarrow> bool" where
  "IsLoopback addr =
     (let i = lastColon addr;
          host = trimBrackets (if i \<ge> 0 then take (nat i) addr else addr)
      in host \<in> {''127.0.0.1'', ''::1'', ''localhost''} \<or> length host \<ge> 4 \<and> take 4 host = ''127.'')"

section \<open>What is accepted\<close>

text \<open>The two loops agree, and \<open>lastColon\<close> finds the colon before a port.\<close>

lemma last_pos_none: "b \<notin> set t \<Longrightarrow> last_pos b i idx t = idx"
  by (induction t arbitrary: i) auto

lemma last_pos_append:
  "last_pos b i idx (xs @ ys) = last_pos b (i + int (length xs)) (last_pos b i idx xs) ys"
  by (induction xs arbitrary: i idx) (simp_all add: algebra_simps)

lemma lastIndexByte_take: "k \<le> length s \<Longrightarrow> lastIndexByte_from b s k = last_pos b 0 (-1) (take k s)"
  by (induction k) (simp_all add: take_Suc_conv_app_nth last_pos_append)

lemma lastIndexByte_eq: "lastIndexByte s b = last_pos b 0 (-1) s"
  unfolding lastIndexByte_def using lastIndexByte_take [of "length s" s b] by simp

lemma last_pos_bound: "last_pos b i idx s < i + int (length s) \<or> last_pos b i idx s = idx"
proof (induction s arbitrary: i idx)
  case (Cons c cs)
  show ?case using Cons [of "i + 1" "if c = b then i else idx"] by (cases "c = b") (simp_all, linarith+)
qed simp

text \<open>An address with a port: the decision is about the host alone.\<close>

lemma IsLoopback_port:
  assumes "CHR '':'' \<notin> set port" and "CHR '']'' \<notin> set port"
  shows "IsLoopback (host @ CHR '':'' # port) =
    (trimBrackets host \<in> {''127.0.0.1'', ''::1'', ''localhost''} \<or> take 4 (trimBrackets host) = ''127.'')"
proof -
  let ?a = "host @ CHR '':'' # port"
  have "last_pos (CHR '']'') 0 (-1) ?a = last_pos (CHR '']'') 0 (-1) host"
    using assms(2) by (simp add: last_pos_append last_pos_none)
  then have r: "\<not> int (length host) < lastIndexByte ?a (CHR '']'')"
    using last_pos_bound [of "CHR '']''" 0 "-1" host] by (auto simp: lastIndexByte_eq)
  have c: "lastColon ?a = int (length host)"
    using r assms(1) by (simp add: lastColon_def Let_def last_pos_append last_pos_none)
  have "length (trimBrackets host) \<ge> 4" if "take 4 (trimBrackets host) = ''127.''"
    using arg_cong [OF that, of length] by simp
  then show ?thesis unfolding IsLoopback_def c Let_def by auto
qed

end
