(* ===== verification/Backend_Registry.thy ===== *)
theory Backend_Registry
  imports Core_Model "HOL-Library.AList"
begin

text \<open>
  The router's registry (\<open>internal/router/registry.go\<close>): it polls the sidecars off the hot path
  and keeps an immutable snapshot of backend states, the directory of cached prefixes and the last
  counter sample per backend.

  A poll is a function of the decoded replies to its five requests; a number in JSON is finite, so
  the floats of a backend state are \<open>real\<close>. Polls run in parallel in the code; each touches the
  counter sample of its own backend only, and lemma \<open>serviceRate_commute\<close> shows that the order in
  which they take the lock does not matter when the identifiers differ. The two publications of a
  refresh, of the snapshot and of the directory, are separate steps.
\<close>

section \<open>Decoded JSON\<close>

text \<open>What \<open>encoding/json\<close> stores in an \<open>any\<close>. An object is a map; its list has one pair per key.\<close>

datatype json = JNull | JBool bool | JNum real | JStr string | JArr "json list"
  | JObj "(string \<times> json) list"

type_synonym jobj = "(string \<times> json) list"

text \<open>Type assertions with the two-value form: the zero value when the type differs or the key is
  missing.\<close>

definition as_bool :: "json option \<Rightarrow> bool" where
  "as_bool v = (case v of Some (JBool b) \<Rightarrow> b | _ \<Rightarrow> False)"

definition as_float :: "json option \<Rightarrow> real option" where
  "as_float v = (case v of Some (JNum x) \<Rightarrow> Some x | _ \<Rightarrow> None)"

definition as_string :: "json option \<Rightarrow> string option" where
  "as_string v = (case v of Some (JStr s) \<Rightarrow> Some s | _ \<Rightarrow> None)"

definition as_object :: "json option \<Rightarrow> jobj option" where
  "as_object v = (case v of Some (JObj m) \<Rightarrow> Some m | _ \<Rightarrow> None)"

definition intOf :: "json option \<Rightarrow> int" where
  "intOf v = (case as_float v of Some f \<Rightarrow> go_trunc f | None \<Rightarrow> 0)"

definition fieldVal :: "json option \<Rightarrow> real" where
  "fieldVal v =
     (case as_object v of
        Some m \<Rightarrow> (case as_float (map_of m ''value'') of Some f \<Rightarrow> f | None \<Rightarrow> 0)
      | None \<Rightarrow> (case as_float v of Some f \<Rightarrow> f | None \<Rightarrow> 0))"

definition fieldSupported :: "json option \<Rightarrow> bool" where
  "fieldSupported v =
     (case as_object v of
        Some m \<Rightarrow> as_bool (map_of m ''supported'')
      | None \<Rightarrow> as_float v \<noteq> None)"

text \<open>\<open>getJSON\<close>: \<open>reply\<close> is the body of the HTTP reply, \<open>None\<close> for a failed request or the timeout;
  \<open>unmarshal\<close> is \<open>json.Unmarshal\<close> into a map, \<open>None\<close> for an error and for the document \<open>null\<close>, which
  leaves the map nil.\<close>

definition getJSON :: "(string \<Rightarrow> jobj option) \<Rightarrow> string option \<Rightarrow> jobj option" where
  "getJSON unmarshal reply =
     (case reply of None \<Rightarrow> None | Some body \<Rightarrow> unmarshal (take (4 * 1024 * 1024) body))"

section \<open>Backends\<close>

record Backend =
  b_ID :: string
  b_Vendor :: string
  b_SidecarURL :: string
  b_SnapshotURL :: string

record BackendState =
  bs_Backend :: Backend
  bs_Reachable :: bool
  bs_LifecycleState :: string
  bs_ControlPlaneReady :: bool
  bs_StabilityScore :: real
  bs_HostCapacityHint :: real
  bs_QueueDepth :: int
  bs_QueueInflight :: int
  bs_QueueMax :: int
  bs_RuntimeHealthy :: bool
  bs_RuntimeWaiting :: real
  bs_RuntimeRunning :: real
  bs_KVCacheUtil :: real
  bs_SnapshotAgeMs :: int
  bs_GenTokensPerSec :: real
  bs_ServiceRateSupported :: bool
  bs_CacheObservationSupported :: bool
  bs_CacheMatchSupported :: bool
  bs_CacheReady :: bool
  bs_CacheConfidence :: real
  bs_CacheSnapshotAgeMs :: int
  bs_KVHeadroom :: real
  bs_KVHeadroomSupported :: bool
  bs_CacheEventSequence :: int
  bs_CacheIndexSize :: int
  bs_CacheResetEpoch :: int
  bs_CacheProvider :: string
  bs_PrefixMatchedTokens :: int

definition zero_BackendState :: "Backend \<Rightarrow> BackendState" where
  "zero_BackendState b = \<lparr>bs_Backend = b, bs_Reachable = False, bs_LifecycleState = [],
     bs_ControlPlaneReady = False, bs_StabilityScore = 0, bs_HostCapacityHint = 0,
     bs_QueueDepth = 0, bs_QueueInflight = 0, bs_QueueMax = 0, bs_RuntimeHealthy = False,
     bs_RuntimeWaiting = 0, bs_RuntimeRunning = 0, bs_KVCacheUtil = 0, bs_SnapshotAgeMs = 0,
     bs_GenTokensPerSec = 0, bs_ServiceRateSupported = False, bs_CacheObservationSupported = False,
     bs_CacheMatchSupported = False, bs_CacheReady = False, bs_CacheConfidence = 0,
     bs_CacheSnapshotAgeMs = 0, bs_KVHeadroom = 0, bs_KVHeadroomSupported = False,
     bs_CacheEventSequence = 0, bs_CacheIndexSize = 0, bs_CacheResetEpoch = 0,
     bs_CacheProvider = [], bs_PrefixMatchedTokens = 0\<rparr>"

record BackendSnapshot =
  sn_Backends :: "BackendState list"
  sn_Timestamp :: walltime

section \<open>The registry\<close>

record counterSample =
  cs_genTokensTotal :: real
  cs_supported :: bool
  cs_at :: walltime

type_synonym directory = "(string \<times> int) list"

record Registry =
  rg_backends :: "Backend list"
  rg_interval :: duration
  rg_snap :: BackendSnapshot
  rg_cacheDir :: "(string \<times> directory) list"
  rg_cacheDirMax :: int
  rg_prev :: "(string \<times> counterSample) list"

definition NewRegistry :: "Backend list \<Rightarrow> duration \<Rightarrow> walltime \<Rightarrow> Registry" where
  "NewRegistry backends interval now = \<lparr>rg_backends = backends, rg_interval = interval,
     rg_snap = \<lparr>sn_Backends = [], sn_Timestamp = now\<rparr>, rg_cacheDir = [], rg_cacheDirMax = 4096,
     rg_prev = []\<rparr>"

definition LookupPrefixTokens :: "Registry \<Rightarrow> string \<Rightarrow> string \<Rightarrow> int" where
  "LookupPrefixTokens r backendID prefixKeyHash =
     (if prefixKeyHash = [] then 0
      else case map_of (rg_cacheDir r) backendID of
             Some d \<Rightarrow> (case map_of d prefixKeyHash of Some n \<Rightarrow> n | None \<Rightarrow> 0)
           | None \<Rightarrow> 0)"

definition reg_Snapshot :: "Registry \<Rightarrow> BackendSnapshot" where
  "reg_Snapshot r = rg_snap r"

definition serviceRate ::
  "walltime \<Rightarrow> string \<Rightarrow> real \<Rightarrow> bool \<Rightarrow> (string \<times> counterSample) list \<Rightarrow>
   (real \<times> bool) \<times> (string \<times> counterSample) list" where
  "serviceRate now backendID genTotal supported prevs =
     (let prev = map_of prevs backendID;
          prevs' = AList.update backendID
            \<lparr>cs_genTokensTotal = genTotal, cs_supported = supported, cs_at = now\<rparr> prevs
      in (case prev of
            None \<Rightarrow> (0, False)
          | Some p \<Rightarrow>
              if \<not> supported \<or> \<not> cs_supported p then (0, False)
              else let dt = dur_Seconds (now - cs_at p)
                   in if dt \<le> 0 then (0, False)
                      else let d = genTotal - cs_genTokensTotal p
                           in if d < 0 then (0, True) else (d / dt, True), prevs'))"

section \<open>One poll\<close>

text \<open>The decoded replies of one backend, by request path, and the clock at the counter sample.\<close>

record poll_replies =
  pr_readyz :: "jobj option"
  pr_status :: "jobj option"
  pr_queue :: "jobj option"
  pr_runtime :: "jobj option"
  pr_cache :: "jobj option"
  pr_now :: walltime

definition poll_readyz :: "jobj option \<Rightarrow> BackendState \<Rightarrow> BackendState" where
  "poll_readyz rz st =
     (case rz of None \<Rightarrow> st
      | Some m \<Rightarrow> st\<lparr>bs_Reachable := True,
          bs_ControlPlaneReady := as_bool (map_of m ''control_plane_ready'')\<rparr>)"

definition poll_device :: "jobj \<Rightarrow> BackendState \<Rightarrow> BackendState" where
  "poll_device d0 st0 =
     (let st1 = (case as_string (map_of d0 ''lifecycle_state'') of
                   Some ls \<Rightarrow> st0\<lparr>bs_LifecycleState := ls\<rparr> | None \<Rightarrow> st0);
          st2 = (case as_object (map_of d0 ''stability'') of
                   Some stab \<Rightarrow> st1\<lparr>bs_StabilityScore :=
                     (case as_float (map_of stab ''score'') of Some x \<Rightarrow> x | None \<Rightarrow> 0)\<rparr>
                 | None \<Rightarrow> st1)
      in case as_object (map_of d0 ''capacity'') of
           Some cap \<Rightarrow> st2\<lparr>bs_HostCapacityHint :=
             (case as_float (map_of cap ''host_capacity_hint'') of Some x \<Rightarrow> x | None \<Rightarrow> 0)\<rparr>
         | None \<Rightarrow> st2)"

definition poll_status :: "jobj option \<Rightarrow> BackendState \<Rightarrow> BackendState" where
  "poll_status status st0 =
     (case status of None \<Rightarrow> st0
      | Some m \<Rightarrow>
          let st = st0\<lparr>bs_Reachable := True\<rparr>
          in case map_of m ''devices'' of
               Some (JArr (JObj d0 # _)) \<Rightarrow> poll_device d0 st
             | _ \<Rightarrow> st)"

definition poll_queue :: "jobj option \<Rightarrow> BackendState \<Rightarrow> BackendState" where
  "poll_queue q st =
     (case q of None \<Rightarrow> st
      | Some m \<Rightarrow> st\<lparr>bs_QueueDepth := intOf (map_of m ''queued_requests''),
          bs_QueueInflight := intOf (map_of m ''inflight_requests''),
          bs_QueueMax := intOf (map_of m ''max_queued_requests'')\<rparr>)"

definition poll_runtime ::
  "walltime \<Rightarrow> jobj option \<Rightarrow> (string \<times> counterSample) list \<Rightarrow> BackendState \<Rightarrow>
   BackendState \<times> (string \<times> counterSample) list" where
  "poll_runtime now rt prevs st =
     (case rt of None \<Rightarrow> (st, prevs)
      | Some m \<Rightarrow>
          let st1 = st\<lparr>bs_RuntimeHealthy := as_bool (map_of m ''healthy''),
                bs_RuntimeWaiting := fieldVal (map_of m ''requests_waiting''),
                bs_RuntimeRunning := fieldVal (map_of m ''requests_running''),
                bs_KVCacheUtil := fieldVal (map_of m ''kv_cache_utilization''),
                bs_SnapshotAgeMs := (case as_float (map_of m ''scrape_age_ms'') of
                   Some age \<Rightarrow> go_trunc age | None \<Rightarrow> bs_SnapshotAgeMs st)\<rparr>;
              ((rate, sup), prevs') = serviceRate now (b_ID (bs_Backend st))
                (fieldVal (map_of m ''generation_tokens_per_s''))
                (fieldSupported (map_of m ''generation_tokens_per_s'')) prevs
          in (st1\<lparr>bs_GenTokensPerSec := rate, bs_ServiceRateSupported := sup\<rparr>, prevs'))"

definition poll_cache :: "jobj option \<Rightarrow> BackendState \<Rightarrow> BackendState \<times> directory option" where
  "poll_cache c st =
     (case c of None \<Rightarrow> (st, None)
      | Some m \<Rightarrow>
          (st\<lparr>bs_CacheObservationSupported := as_bool (map_of m ''supported''),
             bs_CacheMatchSupported := as_bool (map_of m ''match_supported''),
             bs_CacheReady := as_bool (map_of m ''ready''),
             bs_CacheConfidence :=
               (case as_float (map_of m ''confidence'') of Some x \<Rightarrow> x | None \<Rightarrow> 0),
             bs_CacheSnapshotAgeMs := (case as_float (map_of m ''snapshot_age_ms'') of
               Some a \<Rightarrow> go_trunc a | None \<Rightarrow> bs_CacheSnapshotAgeMs st),
             bs_CacheEventSequence := (case as_float (map_of m ''last_event_sequence'') of
               Some s \<Rightarrow> go_trunc s | None \<Rightarrow> bs_CacheEventSequence st),
             bs_CacheResetEpoch := (case as_float (map_of m ''cache_reset_epoch'') of
               Some e \<Rightarrow> go_trunc e | None \<Rightarrow> bs_CacheResetEpoch st),
             bs_CacheIndexSize := intOf (map_of m ''index_entries''),
             bs_CacheProvider :=
               (case as_string (map_of m ''provider'') of Some s \<Rightarrow> s | None \<Rightarrow> []),
             bs_KVHeadroom := (case as_float (map_of m ''kv_headroom'') of
               Some h \<Rightarrow> h | None \<Rightarrow> bs_KVHeadroom st),
             bs_KVHeadroomSupported := as_bool (map_of m ''kv_headroom_supported'')\<rparr>,
           case as_object (map_of m ''directory'') of
             Some d \<Rightarrow> if d = [] then None else Some (map (\<lambda>(k, v). (k, intOf (Some v))) d)
           | None \<Rightarrow> None))"

definition poll_headroom :: "BackendState \<Rightarrow> BackendState" where
  "poll_headroom st =
     (if \<not> bs_KVHeadroomSupported st \<and> bs_RuntimeHealthy st
      then st\<lparr>bs_KVHeadroom := 1 - bs_KVCacheUtil st, bs_KVHeadroomSupported := True\<rparr> else st)"

definition pollBackend ::
  "poll_replies \<Rightarrow> Backend \<Rightarrow> (string \<times> counterSample) list \<Rightarrow>
   (BackendState \<times> directory option) \<times> (string \<times> counterSample) list" where
  "pollBackend rs b prevs =
     (let st1 = poll_queue (pr_queue rs) (poll_status (pr_status rs)
                  (poll_readyz (pr_readyz rs) (zero_BackendState b)));
          (st2, prevs') = poll_runtime (pr_now rs) (pr_runtime rs) prevs st1;
          (st3, dir) = poll_cache (pr_cache rs) st2
      in ((poll_headroom st3, dir), prevs'))"

section \<open>A refresh\<close>

text \<open>The polls of all backends, with the replies that each one's base URL gave.\<close>

fun poll_all ::
  "(string \<Rightarrow> poll_replies) \<Rightarrow> Backend list \<Rightarrow> (string \<times> counterSample) list \<Rightarrow>
   (BackendState \<times> directory option) list \<times> (string \<times> counterSample) list" where
  "poll_all net [] prevs = ([], prevs)"
| "poll_all net (b # bs) prevs =
     (let (sd, prevs1) = pollBackend (net (b_SnapshotURL b)) b prevs;
          (sds, prevs2) = poll_all net bs prevs1
      in (sd # sds, prevs2))"

definition dir_step :: "(string \<times> directory) list \<Rightarrow> Backend \<times> directory option \<Rightarrow>
    (string \<times> directory) list" where
  "dir_step m bd = (case snd bd of Some x \<Rightarrow> AList.update (b_ID (fst bd)) x m | None \<Rightarrow> m)"

definition new_dir :: "Backend list \<Rightarrow> directory option list \<Rightarrow> (string \<times> directory) list" where
  "new_dir backends dirs = foldl dir_step [] (zip backends dirs)"

definition publish_snapshot :: "walltime \<Rightarrow> BackendState list \<Rightarrow> Registry \<Rightarrow> Registry" where
  "publish_snapshot now states r =
     r\<lparr>rg_snap := \<lparr>sn_Backends = states, sn_Timestamp = now\<rparr>\<rparr>"

definition publish_directory :: "(string \<times> directory) list \<Rightarrow> Registry \<Rightarrow> Registry" where
  "publish_directory dir r = r\<lparr>rg_cacheDir := dir\<rparr>"

definition refresh :: "walltime \<Rightarrow> (string \<Rightarrow> poll_replies) \<Rightarrow> Registry \<Rightarrow> Registry" where
  "refresh now net r =
     (let (sds, prevs) = poll_all net (rg_backends r) (rg_prev r);
          r1 = publish_snapshot now (map fst sds) (r\<lparr>rg_prev := prevs\<rparr>)
      in publish_directory (new_dir (rg_backends r) (map snd sds)) r1)"

text \<open>The loop: one refresh at the start and one per tick.\<close>

definition reg_loop :: "(walltime \<times> (string \<Rightarrow> poll_replies)) list \<Rightarrow> Registry \<Rightarrow> Registry" where
  "reg_loop ticks r = foldl (\<lambda>r (now, net). refresh now net r) r ticks"

section \<open>Service rate\<close>

lemma serviceRate_prev [simp]:
  "map_of (snd (serviceRate now i g s prevs)) j =
     (if j = i then Some \<lparr>cs_genTokensTotal = g, cs_supported = s, cs_at = now\<rparr> else map_of prevs j)"
  by (simp add: serviceRate_def Let_def update_conv')

lemma serviceRate_local: "map_of p i = map_of q i \<Longrightarrow>
    fst (serviceRate now i g s p) = fst (serviceRate now i g s q)"
  by (simp add: serviceRate_def Let_def)

lemma serviceRate_commute:
  assumes "i \<noteq> j"
  shows "map_of (snd (serviceRate t i g s (snd (serviceRate u j h z prevs)))) =
      map_of (snd (serviceRate u j h z (snd (serviceRate t i g s prevs))))"
    and "fst (serviceRate t i g s (snd (serviceRate u j h z prevs))) = fst (serviceRate t i g s prevs)"
  using assms by (auto simp: fun_eq_iff intro: serviceRate_local)

section \<open>What a refresh publishes\<close>

lemma poll_id [simp]:
  "bs_Backend (poll_readyz rz st) = bs_Backend st" "bs_Backend (poll_queue q st) = bs_Backend st"
  "bs_Backend (fst (poll_cache c st)) = bs_Backend st" "bs_Backend (poll_headroom st) = bs_Backend st"
  by (simp_all add: poll_readyz_def poll_queue_def poll_cache_def poll_headroom_def
      split: option.split)

lemma poll_device_id [simp]: "bs_Backend (poll_device d st) = bs_Backend st"
  by (simp add: poll_device_def Let_def split: option.split)

lemma poll_status_id [simp]: "bs_Backend (poll_status s st) = bs_Backend st"
  by (simp add: poll_status_def Let_def split: option.split json.split list.split)

lemma poll_runtime_id [simp]: "bs_Backend (fst (poll_runtime now rt prevs st)) = bs_Backend st"
  by (simp add: poll_runtime_def Let_def split: option.split prod.split)

lemma pollBackend_id [simp]: "bs_Backend (fst (fst (pollBackend rs b prevs))) = b"
proof -
  let ?st = "poll_queue (pr_queue rs) (poll_status (pr_status rs)
      (poll_readyz (pr_readyz rs) (zero_BackendState b)))"
  obtain st2 p2 where r: "poll_runtime (pr_now rs) (pr_runtime rs) prevs ?st = (st2, p2)" by fastforce
  obtain st3 d where c: "poll_cache (pr_cache rs) st2 = (st3, d)" by fastforce
  have "bs_Backend st2 = bs_Backend ?st" using poll_runtime_id r by (metis fst_conv)
  moreover have "bs_Backend st3 = bs_Backend st2" using poll_id(3) c by (metis fst_conv)
  ultimately show ?thesis
    by (simp add: pollBackend_def r c Let_def) (simp add: zero_BackendState_def)
qed

text \<open>The directory a poll reports depends on the reply to the cache request alone.\<close>

definition reply_dir :: "jobj option \<Rightarrow> directory option" where
  "reply_dir c = snd (poll_cache c (zero_BackendState \<lparr>b_ID = [], b_Vendor = [], b_SidecarURL = [],
     b_SnapshotURL = []\<rparr>))"

lemma poll_cache_dir: "snd (poll_cache c st) = reply_dir c"
  by (simp add: reply_dir_def poll_cache_def split: option.split)

lemma pollBackend_dir [simp]: "snd (fst (pollBackend rs b prevs)) = reply_dir (pr_cache rs)"
  using poll_cache_dir [of "pr_cache rs"]
  by (fastforce simp: pollBackend_def Let_def split: prod.split dest: arg_cong [where f = snd])

lemma poll_all_shape:
  "map (\<lambda>sd. bs_Backend (fst sd)) (fst (poll_all net bs prevs)) = bs \<and>
   map snd (fst (poll_all net bs prevs)) = map (\<lambda>b. reply_dir (pr_cache (net (b_SnapshotURL b)))) bs"
proof (induction bs arbitrary: prevs)
  case (Cons b bs)
  obtain sd p1 where sd: "pollBackend (net (b_SnapshotURL b)) b prevs = (sd, p1)" by fastforce
  obtain sds p2 where rest: "poll_all net bs p1 = (sds, p2)" by fastforce
  have "bs_Backend (fst sd) = b" "snd sd = reply_dir (pr_cache (net (b_SnapshotURL b)))"
    using pollBackend_id pollBackend_dir sd by (metis fst_conv)+
  then show ?case using Cons [of p1] by (simp add: sd rest)
qed simp

lemma dir_step_lookup:
  "map_of (dir_step m bd) i =
     (if i = b_ID (fst bd) \<and> snd bd \<noteq> None then snd bd else map_of m i)"
  by (auto simp: dir_step_def update_conv' split: option.split)

lemma dir_fold_other:
  "i \<notin> set (map (b_ID \<circ> fst) zs) \<Longrightarrow> map_of (foldl dir_step m zs) i = map_of m i"
  by (induction zs arbitrary: m) (simp_all add: dir_step_lookup)

lemma dir_fold_own:
  assumes "distinct (map (b_ID \<circ> fst) zs)" and "(b, d) \<in> set zs" and "map_of m (b_ID b) = None"
  shows "map_of (foldl dir_step m zs) (b_ID b) = d"
  using assms
proof (induction zs arbitrary: m)
  case (Cons z zs)
  have z: "b_ID (fst z) \<notin> set (map (b_ID \<circ> fst) zs)" "distinct (map (b_ID \<circ> fst) zs)"
    using Cons.prems(1) unfolding list.map distinct.simps comp_def by simp_all
  show ?case
  proof (cases "(b, d) = z")
    case True
    then have "b_ID b = b_ID (fst z)" "snd z = d" by auto
    with dir_fold_other [OF z(1), of "dir_step m z"] Cons.prems(3) show ?thesis
      by (simp add: dir_step_lookup)
  next
    case False
    then have b: "(b, d) \<in> set zs" using Cons.prems(2) by simp
    then have "b_ID b \<in> set (map (b_ID \<circ> fst) zs)" by (simp add: rev_image_eqI [where x = "(b, d)"])
    then have "b_ID b \<noteq> b_ID (fst z)" using z(1) by (intro notI) simp
    with Cons.IH [OF z(2) b] Cons.prems(3) show ?thesis by (simp add: dir_step_lookup)
  qed
qed simp

lemma new_dir_lookup:
  assumes "distinct (map b_ID bs)"
  shows "b \<in> set bs \<Longrightarrow> map_of (new_dir bs (map f bs)) (b_ID b) = f b"
    and "i \<notin> b_ID ` set bs \<Longrightarrow> map_of (new_dir bs (map f bs)) i = None"
proof -
  have z: "zip bs (map f bs) = map (\<lambda>b. (b, f b)) bs" by (simp add: zip_map2 zip_same_conv_map)
  have d: "distinct (map (b_ID \<circ> fst) (map (\<lambda>b. (b, f b)) bs))" using assms by (simp add: comp_def)
  show "b \<in> set bs \<Longrightarrow> map_of (new_dir bs (map f bs)) (b_ID b) = f b"
    using dir_fold_own [OF d, of b "f b" "[]"] unfolding new_dir_def z by auto
  show "i \<notin> b_ID ` set bs \<Longrightarrow> map_of (new_dir bs (map f bs)) i = None"
    using dir_fold_other [of i "map (\<lambda>b. (b, f b)) bs" "[]"] unfolding new_dir_def z by auto
qed

lemma refresh_published:
  "map bs_Backend (sn_Backends (reg_Snapshot (refresh now net r))) = rg_backends r"
  "rg_cacheDir (refresh now net r) =
     new_dir (rg_backends r) (map (\<lambda>b. reply_dir (pr_cache (net (b_SnapshotURL b)))) (rg_backends r))"
  "rg_backends (refresh now net r) = rg_backends r"
  using poll_all_shape [of net "rg_backends r" "rg_prev r"]
  by (auto simp: refresh_def reg_Snapshot_def publish_snapshot_def publish_directory_def Let_def comp_def
      split: prod.split)

section \<open>Properties\<close>

text \<open>A service rate needs two samples in a row. After a first sample of a backend's cumulative
  counter and any samples of other backends, the next sample yields a rate exactly when both samples
  are supported and the clock has moved; the rate is the increase over the elapsed seconds, zero when
  the counter went back, and never negative.\<close>

lemma service_rate_exact:
  fixes t1 t2 :: walltime and g1 g2 :: real and sup1 sup2 :: bool and i :: string
    and p0 q :: "(string \<times> counterSample) list"
  assumes "\<forall>s \<in> set others. fst s \<noteq> i"
  defines "prevs \<equiv> foldl (\<lambda>p (j, t, g, b). snd (serviceRate t j g b p))
      (snd (serviceRate t1 i g1 sup1 p0)) others"
  shows "fst (serviceRate t2 i g2 sup2 prevs) =
     (if sup1 \<and> sup2 \<and> t1 < t2
      then (max 0 (g2 - g1) / (real_of_int (t2 - t1) / 10 ^ 9), True) else (0, False)) \<and>
     0 \<le> fst (fst (serviceRate t2 i g2 sup2 q))"
proof
  have "map_of (foldl (\<lambda>p (j, t, g, b). snd (serviceRate t j g b p)) p others) i = map_of p i"
    for p using assms(1) by (induction others arbitrary: p) (auto split: prod.split)
  then have "map_of prevs i = Some \<lparr>cs_genTokensTotal = g1, cs_supported = sup1, cs_at = t1\<rparr>"
    by (simp add: prevs_def)
  then show "fst (serviceRate t2 i g2 sup2 prevs) =
     (if sup1 \<and> sup2 \<and> t1 < t2
      then (max 0 (g2 - g1) / (real_of_int (t2 - t1) / 10 ^ 9), True) else (0, False))"
    by (auto simp: serviceRate_def Let_def dur_Seconds_def max_def)
  show "0 \<le> fst (fst (serviceRate t2 i g2 sup2 q))"
    by (auto simp: serviceRate_def Let_def split: option.split)
qed

text \<open>A refresh replaces everything. Whatever was published before, after a refresh the snapshot
  has one state per configured backend, in order, and the prefix lookup of a configured backend
  answers what that backend's own reply to the cache request says about the key, zero when the reply
  is missing or has no directory or no such key; an unknown backend always answers zero.\<close>

lemma refresh_replaces_directory:
  assumes "distinct (map b_ID (rg_backends r))" and "k \<noteq> []"
  shows "map bs_Backend (sn_Backends (reg_Snapshot (refresh now net r))) = rg_backends r \<and>
     (\<forall>b \<in> set (rg_backends r). LookupPrefixTokens (refresh now net r) (b_ID b) k =
        (case reply_dir (pr_cache (net (b_SnapshotURL b))) of None \<Rightarrow> 0
         | Some d \<Rightarrow> (case map_of d k of None \<Rightarrow> 0 | Some n \<Rightarrow> n))) \<and>
     (\<forall>i. i \<notin> b_ID ` set (rg_backends r) \<longrightarrow> LookupPrefixTokens (refresh now net r) i k = 0)"
  using assms new_dir_lookup [OF assms(1)]
  by (auto simp: LookupPrefixTokens_def refresh_published split: option.split)

end
