(* ===== verification/Http_Api.thy ===== *)
theory Http_Api
  imports Http_Writer Host_Supervisor Backend_Registry
begin

text \<open>
  The HTTP interface of the sidecar (\<open>internal/api/server.go\<close>): every handler, the routing table and
  the Prometheus exposition.

  A handler gets the supervisor and a writer. The document of an answer is a value of \<open>api_doc\<close>;
  turning it into text is \<open>encoding/json\<close>, a field of \<open>api_env\<close> as are the decoding of a drain body,
  the formatting of floats and of quoted strings, and the clock. The snapshot functions that the
  daemon attaches are given by what they return.
\<close>

section \<open>Requests and answers\<close>

record ApiRequest =
  aq_method :: string
  aq_path :: string
  aq_query :: "(string \<times> string) list"
  aq_form :: "(string \<times> string) list"
  aq_header :: header
  aq_body :: string
  aq_remote :: string

datatype api_doc =
    DHealth string walltime
  | DError string
  | DErrorDevice string string
  | DDevice DeviceReadiness
  | DReady ReadinessResult
  | DStatus HostStatus
  | DHistory "HistoryPoint list"
  | DEvents "Event list"
  | DDrain string bool bool
  | DSnap json
  | DIndex string string "string list"

text \<open>\<open>an_tie\<close> is the order in which \<open>sort.Slice\<close>, which is not stable, leaves equal elements.
  \<open>an_drainBody\<close> decodes the two optional fields of a drain body, \<open>Inl\<close> an error text.\<close>

record api_env =
  an_encode :: "api_doc \<Rightarrow> string"
  an_drainBody :: "string \<Rightarrow> string + string option \<times> bool option"
  an_quote :: "string \<Rightarrow> string"
  an_fmtF :: "f64 \<Rightarrow> string"
  an_fmtG :: "f64 \<Rightarrow> string"
  an_tie :: "Event list \<Rightarrow> Event list"
  an_now :: walltime

record 'c Server =
  sr_version :: string
  sr_chatHandler :: "'c option"
  sr_runtimeSnap :: "json option"
  sr_queueSnap :: "json option"
  sr_cacheSnap :: "json option"

definition NewServer :: "string \<Rightarrow> 'c Server" where
  "NewServer version = \<lparr>sr_version = version, sr_chatHandler = None, sr_runtimeSnap = None,
     sr_queueSnap = None, sr_cacheSnap = None\<rparr>"

definition AttachDataPlane :: "'c \<Rightarrow> json \<Rightarrow> json \<Rightarrow> 'c Server \<Rightarrow> 'c Server" where
  "AttachDataPlane chat rt q srv =
     srv\<lparr>sr_chatHandler := Some chat, sr_runtimeSnap := Some rt, sr_queueSnap := Some q\<rparr>"

definition AttachCacheObserver :: "json \<Rightarrow> 'c Server \<Rightarrow> 'c Server" where
  "AttachCacheObserver c srv = srv\<lparr>sr_cacheSnap := Some c\<rparr>"

definition writeJSON :: "api_env \<Rightarrow> int \<Rightarrow> api_doc \<Rightarrow> Writer \<Rightarrow> Writer" where
  "writeJSON an code v w =
     wr_write (an_encode an v) (WriteHeader code (wr_set ''Content-Type'' ''application/json'' w))"

section \<open>Handlers\<close>

text \<open>A chat request is handed to the attached handler, or answered here.\<close>

datatype 'c api_outcome = Answered Writer | Delegated 'c

definition api_chat :: "api_env \<Rightarrow> 'c Server \<Rightarrow> ApiRequest \<Rightarrow> Writer \<Rightarrow> 'c api_outcome" where
  "api_chat an srv r w =
     (case sr_chatHandler srv of
        None \<Rightarrow> Answered (writeJSON an 501
          (DError ''data plane not enabled on this sidecar (telemetry-only)'') w)
      | Some h \<Rightarrow> if aq_method r \<noteq> ''POST''
                 then Answered (writeJSON an 405 (DError ''use POST'') (wr_set ''Allow'' ''POST'' w))
                 else Delegated h)"

definition api_runtime :: "api_env \<Rightarrow> 'c Server \<Rightarrow> Writer \<Rightarrow> Writer" where
  "api_runtime an srv w =
     (case sr_runtimeSnap srv of
        None \<Rightarrow> writeJSON an 200 (DSnap (JObj [(''runtime_enabled'', JBool False)])) w
      | Some v \<Rightarrow> writeJSON an 200 (DSnap v) w)"

definition api_queue :: "api_env \<Rightarrow> 'c Server \<Rightarrow> Writer \<Rightarrow> Writer" where
  "api_queue an srv w =
     (case sr_queueSnap srv of
        None \<Rightarrow> writeJSON an 200 (DSnap (JObj [(''queue_enabled'', JBool False)])) w
      | Some v \<Rightarrow> writeJSON an 200 (DSnap v) w)"

definition api_cache :: "api_env \<Rightarrow> 'c Server \<Rightarrow> Writer \<Rightarrow> Writer" where
  "api_cache an srv w =
     (case sr_cacheSnap srv of
        None \<Rightarrow> writeJSON an 200 (DSnap (JObj [(''enabled'', JBool False),
          (''provider'', JStr ''disabled''), (''supported'', JBool False),
          (''match_supported'', JBool False), (''ready'', JBool False), (''confidence'', JNum 0)])) w
      | Some v \<Rightarrow> writeJSON an 200 (DSnap v) w)"

definition api_healthz :: "api_env \<Rightarrow> 'c Server \<Rightarrow> Writer \<Rightarrow> Writer" where
  "api_healthz an srv w = writeJSON an 200 (DHealth (sr_version srv) (an_now an)) w"

definition form_get :: "(string \<times> string) list \<Rightarrow> string \<Rightarrow> string" where
  "form_get vs k = (case map_of vs k of Some v \<Rightarrow> v | None \<Rightarrow> [])"

definition readyz :: "api_env \<Rightarrow> ApiRequest \<Rightarrow> Supervisor \<Rightarrow> Writer \<Rightarrow> Writer" where
  "readyz an r s w =
     (let dev = form_get (aq_query r) ''device''
      in if dev \<noteq> [] then
           (case sup_DeviceReadiness dev (an_now an) s of
              None \<Rightarrow> writeJSON an 404 (DErrorDevice ''unmanaged device'' dev) w
            | Some dr \<Rightarrow> writeJSON an (if dr_Ready dr then 200 else 503) (DDevice dr) w)
         else let res = Readiness (an_now an) s
              in writeJSON an (if rr_ControlPlaneReady res then 200 else 503) (DReady res) w)"

definition api_status :: "api_env \<Rightarrow> Supervisor \<Rightarrow> Writer \<Rightarrow> Writer" where
  "api_status an s w = writeJSON an 200 (DStatus (sup_HostStatus (an_now an) s)) w"

definition api_history :: "api_env \<Rightarrow> ApiRequest \<Rightarrow> Supervisor \<Rightarrow> Writer \<Rightarrow> Writer" where
  "api_history an r s w =
     (let dev = form_get (aq_query r) ''device'';
          pts = (if dev \<noteq> [] then filter (\<lambda>p. hp_DeviceID p = dev) (sup_History s) else sup_History s)
      in writeJSON an 200 (DHistory pts) w)"

definition sorted_events :: "api_env \<Rightarrow> Supervisor \<Rightarrow> Event list" where
  "sorted_events an s = sort_key ev_Timestamp (an_tie an (sup_Events s))"

definition api_events :: "api_env \<Rightarrow> Supervisor \<Rightarrow> Writer \<Rightarrow> Writer" where
  "api_events an s w = writeJSON an 200 (DEvents (sorted_events an s)) w"

text \<open>\<open>strconv.ParseBool\<close> and \<open>strconv.FormatBool\<close>.\<close>

definition ParseBool :: "string \<Rightarrow> bool option" where
  "ParseBool s =
     (if s \<in> {''1'', ''t'', ''T'', ''TRUE'', ''true'', ''True''} then Some True
      else if s \<in> {''0'', ''f'', ''F'', ''FALSE'', ''false'', ''False''} then Some False else None)"

definition FormatBool :: "bool \<Rightarrow> string" where
  "FormatBool b = (if b then ''true'' else ''false'')"

text \<open>The device and the switch that a drain request names, or the error answered with 400.\<close>

definition drain_params :: "api_env \<Rightarrow> ApiRequest \<Rightarrow> string + string \<times> string" where
  "drain_params an r =
     (if HasPrefix (hdr_get ''Content-Type'' (aq_header r)) ''application/json'' then
        (case an_drainBody an (aq_body r) of
           Inl e \<Rightarrow> Inl (''invalid JSON body: '' @ e)
         | Inr (Some dev, Some on) \<Rightarrow> Inr (dev, FormatBool on)
         | Inr _ \<Rightarrow> Inl ''fields 'device' and 'on' are required'')
      else Inr (form_get (aq_form r) ''device'', form_get (aq_form r) ''on''))"

definition api_drain :: "api_env \<Rightarrow> ApiRequest \<Rightarrow> Supervisor \<Rightarrow> Writer \<Rightarrow> Writer \<times> Supervisor" where
  "api_drain an r s w =
     (if aq_method r \<noteq> ''POST'' \<and> aq_method r \<noteq> ''PUT'' then
        (writeJSON an 405 (DError (''drain is state-changing; use POST or PUT, not '' @ aq_method r))
           (wr_set ''Allow'' ''POST, PUT'' w), s)
      else case drain_params an r of
        Inl e \<Rightarrow> (writeJSON an 400 (DError e) w, s)
      | Inr (dev, onStr) \<Rightarrow>
          if dev = [] then (writeJSON an 400 (DError ''field 'device' is required'') w, s)
          else case ParseBool onStr of
            None \<Rightarrow> (writeJSON an 400 (DError (''field 'on' must be a boolean (got '' @
                       an_quote an onStr @ '')'')) w, s)
          | Some on \<Rightarrow>
              (let (s', found, changed) = sup_SetDraining dev on (aq_remote r) (an_now an) s
               in if \<not> found then (writeJSON an 404 (DErrorDevice ''unknown device'' dev) w, s')
                  else (writeJSON an 200 (DDrain dev on changed) w, s')))"

definition api_index :: "api_env \<Rightarrow> 'c Server \<Rightarrow> Writer \<Rightarrow> Writer" where
  "api_index an srv w =
     writeJSON an 200 (DIndex ''gpu-host-sidecar'' (sr_version srv)
       [''/healthz'', ''/readyz'', ''/v1/status'', ''/v1/history'', ''/v1/events'', ''/v1/drain'', ''/metrics'']) w"

section \<open>Prometheus exposition\<close>

fun vendor_string :: "Vendor \<Rightarrow> string" where
  "vendor_string VendorNVIDIA = ''nvidia''"
| "vendor_string VendorAMD = ''amd''"
| "vendor_string VendorUnknown = ''unknown''"

text \<open>One line of samples: name, labels in order, and the formatted value.\<close>

record metric_line =
  ml_name :: string
  ml_labels :: "(string \<times> string) list"
  ml_value :: string

definition mk_line :: "string \<Rightarrow> (string \<times> string) list \<Rightarrow> string \<Rightarrow> metric_line" where
  "mk_line name ls v = \<lparr>ml_name = name, ml_labels = ls, ml_value = v\<rparr>"

fun commas :: "string list \<Rightarrow> string" where
  "commas [] = []"
| "commas [x] = x"
| "commas (x # y # zs) = x @ '','' @ commas (y # zs)"

definition render_line :: "api_env \<Rightarrow> metric_line \<Rightarrow> string" where
  "render_line an l = ml_name l @ ''{'' @ commas (map (\<lambda>(k, v). k @ ''='' @ an_quote an v) (ml_labels l)) @
     ''} '' @ ml_value l @ [CHR 0x0A]"

definition metric_help :: "string \<Rightarrow> string \<Rightarrow> string \<Rightarrow> string" where
  "metric_help name typ h =
     ''# HELP '' @ name @ '' '' @ h @ [CHR 0x0A] @ ''# TYPE '' @ name @ '' '' @ typ @ [CHR 0x0A]"

definition lifecycle_states :: "LifecycleState list" where
  "lifecycle_states = [StateUnknown, StateReady, StateBusy, StateDegraded, StateDraining, StateOffline,
     StateRecovering]"

text \<open>The fields of a device that was never polled are zero values.\<close>

definition dev_identity :: "DeviceStatus option \<Rightarrow> string \<times> string" where
  "dev_identity d = (case d of None \<Rightarrow> ([], [])
     | Some st \<Rightarrow> (id_DeviceID (ds_Identity st), id_BackendID (ds_Identity st)))"

definition dev_health :: "DeviceStatus option \<Rightarrow> Health" where
  "dev_health d = (case d of None \<Rightarrow> zero_Health | Some st \<Rightarrow> ds_Health st)"

definition dev_rel :: "DeviceStatus option \<Rightarrow> Reliability" where
  "dev_rel d = (case d of None \<Rightarrow> zero_Reliability | Some st \<Rightarrow> ds_Reliability st)"

definition metric_labels :: "HostStatus \<Rightarrow> DeviceStatus option \<Rightarrow> (string \<times> string) list" where
  "metric_labels hs d = [(''host'', hs_Hostname hs), (''vendor'', vendor_string (hs_Vendor hs)),
     (''device'', fst (dev_identity d)), (''backend'', snd (dev_identity d))]"

definition state_lines :: "HostStatus \<Rightarrow> DeviceStatus option \<Rightarrow> metric_line list" where
  "state_lines hs d =
     map (\<lambda>st. mk_line ''gpu_lifecycle_state''
            [(''host'', hs_Hostname hs), (''vendor'', vendor_string (hs_Vendor hs)),
             (''device'', fst (dev_identity d)), (''state'', state_string st)]
            (Itoa (if map_option ds_LifecycleState d = Some st then 1 else 0)))
       lifecycle_states"

text \<open>A line for a field only if the field is supported.\<close>

definition sup_line :: "string \<Rightarrow> (string \<times> string) list \<Rightarrow> ('a \<Rightarrow> string) \<Rightarrow> 'a Field \<Rightarrow> metric_line list" where
  "sup_line name ls fmt f = (if fSupported f then [mk_line name ls (fmt (fValue f))] else [])"

definition fmt_u64 :: "64 word \<Rightarrow> string" where
  "fmt_u64 u = Itoa (uint u)"

definition device_lines :: "api_env \<Rightarrow> HostStatus \<Rightarrow> DeviceStatus option \<Rightarrow> metric_line list" where
  "device_lines an hs d =
     (let l = metric_labels hs d; h = dev_health d; rel = dev_rel d; fmtF = an_fmtF an
      in [mk_line ''gpu_stability_score'' l
            (fmtF (Fin (case d of None \<Rightarrow> 0 | Some st \<Rightarrow> ss_Score (ds_Stability st)))),
          mk_line ''gpu_host_capacity_hint'' l
            (fmtF (Fin (case d of None \<Rightarrow> 0 | Some st \<Rightarrow> ch_HostCapacityHint (ds_Capacity st))))] @
         state_lines hs d @
         sup_line ''gpu_utilization_pct'' l fmtF (h_UtilizationGPU h) @
         sup_line ''gpu_mem_used_bytes'' l fmt_u64 (h_MemUsedBytes h) @
         sup_line ''gpu_mem_free_bytes'' l fmt_u64 (h_MemFreeBytes h) @
         sup_line ''gpu_temperature_celsius'' l fmtF (h_TemperatureC h) @
         sup_line ''gpu_power_watts'' l fmtF (h_PowerWatts h) @
         [mk_line ''gpu_probe_latency_ms'' l (fmtF (Fin (h_ProbeLatencyMs h))),
          mk_line ''gpu_consecutive_probe_failures'' l (Itoa (r_ConsecutiveFailures rel)),
          mk_line ''gpu_recent_availability'' l (fmtF (Fin (r_RecentAvailability rel))),
          mk_line ''gpu_disconnect_count'' l (Itoa (r_DisconnectCount rel)),
          mk_line ''gpu_rejoin_count'' l (Itoa (r_RejoinCount rel)),
          mk_line ''gpu_worker_starts_total'' l (Itoa (r_WorkerStarts rel)),
          mk_line ''gpu_worker_stops_total'' l (Itoa (r_WorkerStops rel))] @
         (if fSupported (h_ECCUncorrectable h)
          then sup_line ''gpu_ecc_uncorrectable_total'' l fmt_u64 (h_ECCUncorrectable h)
          else sup_line ''gpu_ecc_uncorrectable_total'' l fmt_u64 (h_RASUncorrectable h)))"

definition gauge_helps :: "(string \<times> string \<times> string) list" where
  "gauge_helps =
     [(''gpu_stability_score'', ''gauge'', ''normalized stability score [0,1]''),
      (''gpu_host_capacity_hint'', ''gauge'', ''heuristic host-derived capacity hint [0,1] '' @
         [CHR 0xE2, CHR 0x80, CHR 0x94] @ '' NOT serving capacity''),
      (''gpu_lifecycle_state'', ''gauge'', ''1 for the active lifecycle state label''),
      (''gpu_utilization_pct'', ''gauge'', ''GPU utilization percent''),
      (''gpu_mem_used_bytes'', ''gauge'', ''GPU memory used bytes''),
      (''gpu_mem_free_bytes'', ''gauge'', ''GPU memory free bytes''),
      (''gpu_temperature_celsius'', ''gauge'', ''GPU temperature C''),
      (''gpu_power_watts'', ''gauge'', ''GPU power draw W''),
      (''gpu_probe_latency_ms'', ''gauge'', ''telemetry probe latency ms''),
      (''gpu_consecutive_probe_failures'', ''gauge'', ''consecutive probe failures''),
      (''gpu_recent_availability'', ''gauge'', ''recent availability ratio''),
      (''gpu_disconnect_count'', ''counter'', ''observed disconnects''),
      (''gpu_rejoin_count'', ''counter'', ''observed rejoins''),
      (''gpu_worker_starts_total'', ''counter'', ''observed worker starts''),
      (''gpu_worker_stops_total'', ''counter'', ''observed worker stops''),
      (''gpu_ecc_uncorrectable_total'', ''counter'', ''NVIDIA ECC uncorrectable (or AMD RAS)'')]"

definition host_text :: "api_env \<Rightarrow> HostStatus \<Rightarrow> string" where
  "host_text an hs =
     metric_help ''gpu_sidecar_up'' ''gauge'' ''1 if sidecar process is alive'' @
     render_line an (mk_line ''gpu_sidecar_up'' [(''host'', hs_Hostname hs)] ''1'') @
     metric_help ''gpu_sidecar_uptime_seconds'' ''gauge'' ''sidecar uptime'' @
     render_line an (mk_line ''gpu_sidecar_uptime_seconds'' [(''host'', hs_Hostname hs)]
       (an_fmtF an (Fin (hs_UptimeSeconds hs))))"

datatype cache_gauge = CBool string string string | CFloat string string string

definition cache_gauges :: "cache_gauge list" where
  "cache_gauges =
     [CBool ''gpu_cache_supported'' ''1 if cache observation is supported'' ''supported'',
      CBool ''gpu_cache_match_supported'' ''1 if per-request prefix matching is trustworthy'' ''match_supported'',
      CBool ''gpu_cache_ready'' ''1 if cache observation is ready (fresh, non-stale)'' ''ready'',
      CFloat ''gpu_cache_confidence'' ''cache locality confidence [0,1]'' ''confidence'',
      CFloat ''gpu_cache_snapshot_age_ms'' ''age of the cache snapshot in ms'' ''snapshot_age_ms'',
      CFloat ''gpu_cache_last_event_sequence'' ''last ingested event sequence number'' ''last_event_sequence'',
      CFloat ''gpu_cache_reset_epoch'' ''cache reset epoch (bumped on clear/restart)'' ''cache_reset_epoch'',
      CFloat ''gpu_cache_index_entries'' ''present entries in the local prefix index'' ''index_entries'',
      CFloat ''gpu_cache_kv_headroom'' ''KV headroom [0,1] (1-kv_util) when measurable'' ''kv_headroom'',
      CFloat ''gpu_cache_events_received_total'' ''total cache events received'' ''events_received_total'',
      CFloat ''gpu_cache_events_dropped_total'' ''total cache entries evicted/dropped'' ''events_dropped_total'',
      CFloat ''gpu_cache_sequence_gaps_total'' ''total detected event sequence gaps'' ''sequence_gaps_total'',
      CFloat ''gpu_cache_stale_invalidations_total'' ''total stale-state invalidations''
        ''stale_invalidations_total'',
      CFloat ''gpu_cache_duplicate_events_total'' ''total duplicate events dropped'' ''duplicate_events_total'',
      CFloat ''gpu_cache_out_of_order_events_total'' ''total out-of-order events'' ''out_of_order_events_total'',
      CFloat ''gpu_cache_resets_total'' ''total cache resets (clear/restart)'' ''resets_total'']"

definition cache_line :: "api_env \<Rightarrow> jobj \<Rightarrow> (string \<times> string) list \<Rightarrow> cache_gauge \<Rightarrow> string \<times> metric_line" where
  "cache_line an snap l g =
     (case g of
        CBool name hlp key \<Rightarrow> (metric_help name ''gauge'' hlp,
          mk_line name l (Itoa (if as_bool (map_of snap key) then 1 else 0)))
      | CFloat name hlp key \<Rightarrow> (metric_help name ''gauge'' hlp,
          mk_line name l (an_fmtG an
            (Fin (case as_float (map_of snap key) of Some v \<Rightarrow> v | None \<Rightarrow> 0)))))"

text \<open>The attached function is called twice, since its result is a struct and not a map; the value
  in the model is that of the second call. A value that is not an object leaves the map nil.\<close>

definition cacheMetrics :: "api_env \<Rightarrow> 'c Server \<Rightarrow> string \<Rightarrow> (string \<times> metric_line) list" where
  "cacheMetrics an srv host =
     (case sr_cacheSnap srv of
        Some (JObj snap) \<Rightarrow>
          (let p = (case as_string (map_of snap ''provider'') of Some x \<Rightarrow> x | None \<Rightarrow> []);
               provider = (if p = [] then ''unknown'' else p)
           in map (cache_line an snap [(''host'', host), (''provider'', provider)]) cache_gauges)
      | _ \<Rightarrow> [])"

definition metrics_text :: "api_env \<Rightarrow> 'c Server \<Rightarrow> HostStatus \<Rightarrow> string" where
  "metrics_text an srv hs =
     host_text an hs @
     concat (map (\<lambda>(name, typ, hlp). metric_help name typ hlp) gauge_helps) @
     concat (map (render_line an) (concat (map (device_lines an hs) (hs_Devices hs)))) @
     concat (map (\<lambda>(hlp, l). hlp @ render_line an l) (cacheMetrics an srv (hs_Hostname hs)))"

definition api_metrics :: "api_env \<Rightarrow> 'c Server \<Rightarrow> Supervisor \<Rightarrow> Writer \<Rightarrow> Writer" where
  "api_metrics an srv s w =
     wr_write (metrics_text an srv (sup_HostStatus (an_now an) s))
       (WriteHeader 200 (wr_set ''Content-Type'' ''text/plain; version=0.0.4'' w))"

section \<open>The routing table\<close>

text \<open>\<open>http.ServeMux\<close> with exact patterns and the catch-all; the path is in clean form.\<close>

definition serve_api ::
  "api_env \<Rightarrow> 'c Server \<Rightarrow> ApiRequest \<Rightarrow> Supervisor \<Rightarrow> Writer \<Rightarrow> 'c api_outcome \<times> Supervisor" where
  "serve_api an srv r s w =
     (let p = aq_path r
      in if p = ''/healthz'' then (Answered (api_healthz an srv w), s)
         else if p = ''/readyz'' then (Answered (readyz an r s w), s)
         else if p = ''/v1/status'' then (Answered (api_status an s w), s)
         else if p = ''/v1/history'' then (Answered (api_history an r s w), s)
         else if p = ''/v1/events'' then (Answered (api_events an s w), s)
         else if p = ''/v1/drain'' then (let (w', s') = api_drain an r s w in (Answered w', s'))
         else if p = ''/v1/runtime'' then (Answered (api_runtime an srv w), s)
         else if p = ''/v1/queue'' then (Answered (api_queue an srv w), s)
         else if p = ''/v1/cache'' then (Answered (api_cache an srv w), s)
         else if p = ''/v1/chat/completions'' then (api_chat an srv r w, s)
         else if p = ''/metrics'' then (Answered (api_metrics an srv s w), s)
         else (Answered (api_index an srv w), s))"

section \<open>What the handlers promise\<close>

definition drain_request :: "api_env \<Rightarrow> ApiRequest \<Rightarrow> (string \<times> bool) option" where
  "drain_request an r =
     (case drain_params an r of
        Inl _ \<Rightarrow> None
      | Inr (dev, onStr) \<Rightarrow> if dev = [] then None else map_option (Pair dev) (ParseBool onStr))"

definition answered_with :: "int \<Rightarrow> 'c api_outcome \<Rightarrow> bool" where
  "answered_with code out = (case out of Answered w \<Rightarrow> wr_status w = Some code | Delegated _ \<Rightarrow> False)"

lemma writeJSON_status [simp]: "wr_status w = None \<Longrightarrow> wr_status (writeJSON an code v w) = Some code"
  by (simp add: writeJSON_def)

lemma SetDraining_simps:
  "sv_devices s dev = None \<Longrightarrow> sup_SetDraining dev on src t s = (s, False, False)"
  "sv_devices s dev = Some ds \<Longrightarrow> fst (snd (sup_SetDraining dev on src t s))"
  "sv_devices s dev = Some ds \<Longrightarrow> sup_Draining dev (fst (sup_SetDraining dev on src t s)) = on"
  "sv_devices s dev = Some ds \<Longrightarrow> lm_draining (dv_machine ds) = on \<Longrightarrow> fst (sup_SetDraining dev on src t s) = s"
  "d \<noteq> dev \<Longrightarrow> sv_devices (fst (sup_SetDraining dev on src t s)) d = sv_devices s d"
  by (auto simp: sup_SetDraining_def sup_Draining_def drain_device_def SetDrainingChecked_def Let_def
      on_hist_def split: option.split)

text \<open>\<open>drain\<close> as a function of the request it accepts.\<close>

lemma api_drain_request:
  assumes "aq_method r \<in> {''POST'', ''PUT''}" and "drain_request an r = Some (dev, on)"
  shows "snd (api_drain an r s w) = fst (sup_SetDraining dev on (aq_remote r) (an_now an) s)"
    and "wr_status w = None \<Longrightarrow> wr_status (fst (api_drain an r s w)) =
      Some (if fst (snd (sup_SetDraining dev on (aq_remote r) (an_now an) s)) then 200 else 404)"
  using assms
  by (auto simp: api_drain_def drain_request_def Let_def case_prod_beta split: sum.splits prod.splits
      if_splits option.splits)

lemma api_drain_refused:
  assumes "aq_method r \<in> {''POST'', ''PUT''}" and "drain_request an r = None"
  shows "snd (api_drain an r s w) = s"
    and "wr_status w = None \<Longrightarrow> wr_status (fst (api_drain an r s w)) = Some 400"
  using assms
  by (auto simp: api_drain_def drain_request_def split: sum.splits prod.splits if_splits option.splits)

text \<open>C38: The drain endpoint is the only one that changes the supervisor, and it answers precisely. On
  every other path the state stays; on \<open>/v1/drain\<close> a method other than POST and PUT gets 405, a
  request without a device or a readable switch 400 and an unmanaged device 404, all without a
  change; otherwise the answer is 200, the device drains exactly if asked to, repeating the present
  setting changes nothing, and no other device is touched.\<close>

theorem api_drain_contract:
  fixes s :: Supervisor and w :: Writer and srv :: "'c Server" and an :: api_env and r :: ApiRequest
  assumes "wr_status w = None"
  defines "out \<equiv> fst (serve_api an srv r s w)" and "s' \<equiv> snd (serve_api an srv r s w)"
  shows "if aq_path r \<noteq> ''/v1/drain'' then s' = s
    else if aq_method r \<notin> {''POST'', ''PUT''} then answered_with 405 out \<and> s' = s
    else case drain_request an r of
      None \<Rightarrow> answered_with 400 out \<and> s' = s
    | Some (dev, on) \<Rightarrow>
        (case sv_devices s dev of
           None \<Rightarrow> answered_with 404 out \<and> s' = s
         | Some ds \<Rightarrow> answered_with 200 out \<and> sup_Draining dev s' = on \<and>
             (lm_draining (dv_machine ds) = on \<longrightarrow> s' = s) \<and>
             (\<forall>d. d \<noteq> dev \<longrightarrow> sv_devices s' d = sv_devices s d))"
proof (cases "aq_path r = ''/v1/drain''")
  case False
  then show ?thesis by (simp add: s'_def serve_api_def Let_def)
next
  case path: True
  then have o: "out = Answered (fst (api_drain an r s w))" "s' = snd (api_drain an r s w)"
    by (simp_all add: out_def s'_def serve_api_def Let_def case_prod_beta)
  show ?thesis
  proof (cases "aq_method r \<in> {''POST'', ''PUT''}")
    case False
    then show ?thesis using path assms(1) unfolding o by (simp add: api_drain_def answered_with_def)
  next
    case m: True
    show ?thesis
    proof (cases "drain_request an r")
      case None
      then show ?thesis using path m assms(1) api_drain_refused [OF m None]
        unfolding o answered_with_def by simp
    next
      case (Some p)
      then obtain dev on where p: "drain_request an r = Some (dev, on)" by (cases p) auto
      show ?thesis
        using path m api_drain_request [OF m p] assms(1) SetDraining_simps [where s = s and dev = dev]
        unfolding o answered_with_def p by (auto split: option.split)
    qed
  qed
qed

definition sample_api :: api_env where
  "sample_api = \<lparr>an_encode = (\<lambda>_. ''{}''), an_drainBody = (\<lambda>_. Inl ''EOF''), an_quote = (\<lambda>s. s),
     an_fmtF = (\<lambda>_. ''0''), an_fmtG = (\<lambda>_. ''0''), an_tie = (\<lambda>es. es), an_now = 5\<rparr>"

definition drain_post :: ApiRequest where
  "drain_post = \<lparr>aq_method = ''POST'', aq_path = ''/v1/drain'', aq_query = [],
     aq_form = [(''device'', ''0''), (''on'', ''true'')], aq_header = [], aq_body = [], aq_remote = ''op''\<rparr>"

definition sample_host :: Supervisor where
  "sample_host = snd (Init [] (Inr [sample_identity]) sample_supervisor)"

lemma drain_post_request: "drain_request sample_api drain_post = Some (''0'', True)"
  by (simp add: drain_request_def drain_params_def drain_post_def form_get_def hdr_get_def ParseBool_def)

lemma sample_host_device:
  "sv_devices sample_host ''0'' = Some (newDeviceState sample_supervisor sample_identity)"
  by (simp add: sample_host_def Init_def add_device_def sample_identity_def)

theorem api_drain_contract_witness:
  "answered_with 200 (fst (serve_api sample_api (NewServer ''v'' :: unit Server) drain_post sample_host
     new_writer)) \<and>
   sup_Draining ''0'' (snd (serve_api sample_api (NewServer ''v'' :: unit Server) drain_post sample_host
     new_writer))"
proof -
  have "aq_path drain_post = ''/v1/drain''" "aq_method drain_post = ''POST''"
    by (simp_all add: drain_post_def)
  then show ?thesis
    using api_drain_contract [where w = new_writer and r = drain_post and an = sample_api and s = sample_host
        and srv = "NewServer ''v'' :: unit Server"]
    by (simp add: drain_post_request sample_host_device)
qed

definition exported :: "string \<Rightarrow> metric_line list \<Rightarrow> string list" where
  "exported name ls = map ml_value (filter (\<lambda>l. ml_name l = name) ls)"

definition active_states :: "metric_line list \<Rightarrow> (string \<times> string) list list" where
  "active_states ls = map ml_labels (filter (\<lambda>l. ml_name l = ''gpu_lifecycle_state'' \<and> ml_value l = ''1'') ls)"

definition shown :: "('a \<Rightarrow> string) \<Rightarrow> 'a Field \<Rightarrow> string list" where
  "shown fmt f = (if fSupported f then [fmt (fValue f)] else [])"

lemma exported_simps [simp]:
  "exported name (xs @ ys) = exported name xs @ exported name ys"
  "exported name [] = []"
  "exported name (mk_line n ls v # xs) = (if n = name then [v] else []) @ exported name xs"
  "exported name (sup_line n ls fmt f) = (if n = name then shown fmt f else [])"
  "exported name (state_lines hs d) =
     (if name = ''gpu_lifecycle_state'' then map ml_value (state_lines hs d) else [])"
  by (auto simp: exported_def mk_line_def sup_line_def shown_def state_lines_def lifecycle_states_def)

lemma active_states_simps [simp]:
  "active_states (xs @ ys) = active_states xs @ active_states ys"
  "active_states [] = []"
  "n \<noteq> ''gpu_lifecycle_state'' \<Longrightarrow> active_states (mk_line n ls v # xs) = active_states xs"
  "n \<noteq> ''gpu_lifecycle_state'' \<Longrightarrow> active_states (sup_line n ls fmt f) = []"
  by (auto simp: active_states_def mk_line_def sup_line_def)

lemma Itoa_01 [simp]: "Itoa 1 = ''1''" "Itoa 0 \<noteq> ''1''"
  by code_simp+

lemma active_states_state_lines:
  "active_states (state_lines hs d) =
     (case d of None \<Rightarrow> []
      | Some st \<Rightarrow> [[(''host'', hs_Hostname hs), (''vendor'', vendor_string (hs_Vendor hs)),
          (''device'', id_DeviceID (ds_Identity st)), (''state'', state_string (ds_LifecycleState st))]])"
proof (cases d)
  case (Some st)
  then show ?thesis
    by (cases "ds_LifecycleState st")
      (simp_all add: active_states_def state_lines_def lifecycle_states_def mk_line_def dev_identity_def)
qed (simp add: active_states_def state_lines_def lifecycle_states_def mk_line_def)

text \<open>The metrics endpoint exports what was measured and nothing else. For each device the line of
  a vendor metric is present exactly if the field is supported, with its value; the uncorrectable
  error counter is the ECC counter, or else the RAS counter; and of the lifecycle lines, one for each
  state, exactly the one of the device's state is 1.\<close>

lemma metrics_export_exact:
  fixes an :: api_env and hs :: HostStatus and d :: "DeviceStatus option"
  defines "h \<equiv> dev_health d" and "ls \<equiv> device_lines an hs d"
  shows "exported ''gpu_utilization_pct'' ls = shown (an_fmtF an) (h_UtilizationGPU h) \<and>
    exported ''gpu_mem_used_bytes'' ls = shown fmt_u64 (h_MemUsedBytes h) \<and>
    exported ''gpu_mem_free_bytes'' ls = shown fmt_u64 (h_MemFreeBytes h) \<and>
    exported ''gpu_temperature_celsius'' ls = shown (an_fmtF an) (h_TemperatureC h) \<and>
    exported ''gpu_power_watts'' ls = shown (an_fmtF an) (h_PowerWatts h) \<and>
    exported ''gpu_ecc_uncorrectable_total'' ls =
      shown fmt_u64 (if fSupported (h_ECCUncorrectable h) then h_ECCUncorrectable h else h_RASUncorrectable h) \<and>
    active_states ls =
      (case d of None \<Rightarrow> []
       | Some st \<Rightarrow> [[(''host'', hs_Hostname hs), (''vendor'', vendor_string (hs_Vendor hs)),
           (''device'', id_DeviceID (ds_Identity st)), (''state'', state_string (ds_LifecycleState st))]])"
  unfolding ls_def h_def device_lines_def Let_def by (simp add: active_states_state_lines)

end
