(* ===== verification/Cache_Index.thy ===== *)
theory Cache_Index
  imports Go_Prelude "HOL-Library.AList"
begin

text \<open>
  The bounded prefix index of \<open>internal/cache/index.go\<close>. The Go map of entries is an association
  list with distinct keys; where the code ranges over the map, whose order Go leaves open, the order
  is an argument \<open>perm\<close>, a permutation of the entries. Each method reads the clock once, at \<open>now\<close>.

  The lemmas show the bound on the number of entries and what breaks it, what a lookup returns after
  each event, the range of the confidence and its behaviour under gaps and age, and that the
  directory handed to the router agrees with single lookups.
\<close>

section \<open>State\<close>

record IndexConfig =
  ic_MaxEntries :: int
  ic_EntryTTL :: duration
  ic_StaleAfter :: duration
  ic_BlockSize :: int

definition DefaultIndexConfig :: IndexConfig where
  "DefaultIndexConfig = \<lparr>ic_MaxEntries = 100000, ic_EntryTTL = 600 * Second,
     ic_StaleAfter = 30 * Second, ic_BlockSize = 16\<rparr>"

record IndexEntry =
  e_Key :: string
  e_Parent :: string
  e_MatchedTokens :: int
  e_BlockSize :: int
  e_Present :: bool
  e_LastSeq :: int
  e_UpdatedAt :: walltime

type_synonym entries = "(string \<times> IndexEntry) list"

record Index =
  ix_cfg :: IndexConfig
  ix_entries :: entries
  ix_lastSeq :: int
  ix_haveSeq :: bool
  ix_resetEpoch :: int
  ix_lastUpdate :: walltime
  ix_startedAt :: walltime
  ix_eventsReceived :: nat
  ix_eventsDropped :: nat
  ix_sequenceGaps :: nat
  ix_duplicates :: nat
  ix_outOfOrder :: nat
  ix_staleInvalidated :: nat
  ix_resets :: nat

definition NewIndex :: "IndexConfig \<Rightarrow> walltime \<Rightarrow> Index" where
  "NewIndex cfg now =
     (let cfg1 = (if ic_MaxEntries cfg \<le> 0
                  then cfg\<lparr>ic_MaxEntries := ic_MaxEntries DefaultIndexConfig\<rparr> else cfg)
      in \<lparr>ix_cfg = cfg1, ix_entries = [], ix_lastSeq = 0, ix_haveSeq = False, ix_resetEpoch = 0,
          ix_lastUpdate = 0, ix_startedAt = now, ix_eventsReceived = 0, ix_eventsDropped = 0,
          ix_sequenceGaps = 0, ix_duplicates = 0, ix_outOfOrder = 0, ix_staleInvalidated = 0,
          ix_resets = 0\<rparr>)"

section \<open>Events\<close>

definition checkSeqLocked :: "int \<Rightarrow> Index \<Rightarrow> bool \<times> Index" where
  "checkSeqLocked seq idx =
     (if \<not> ix_haveSeq idx then (True, idx\<lparr>ix_haveSeq := True, ix_lastSeq := seq\<rparr>)
      else if seq = ix_lastSeq idx + 1 then (True, idx\<lparr>ix_lastSeq := seq\<rparr>)
      else if seq = ix_lastSeq idx then (True, idx)
      else if seq < ix_lastSeq idx then (True, idx\<lparr>ix_outOfOrder := ix_outOfOrder idx + 1\<rparr>)
      else (True, idx\<lparr>ix_sequenceGaps := ix_sequenceGaps idx + 1, ix_lastSeq := seq\<rparr>))"

text \<open>The scan for the oldest entry, over the entries in iteration order: \<open>None\<close> is \<open>first\<close>. The
  empty key stands for ``none found'', as in the code.\<close>

definition oldest_step :: "(string \<times> walltime) option \<Rightarrow> string \<times> IndexEntry \<Rightarrow>
    (string \<times> walltime) option" where
  "oldest_step acc ke =
     (case acc of None \<Rightarrow> Some (fst ke, e_UpdatedAt (snd ke))
      | Some (k, t) \<Rightarrow> if e_UpdatedAt (snd ke) < t then Some (fst ke, e_UpdatedAt (snd ke)) else acc)"

definition oldest_key :: "entries \<Rightarrow> string" where
  "oldest_key es = (case foldl oldest_step None es of None \<Rightarrow> [] | Some (k, _) \<Rightarrow> k)"

primrec evict :: "(nat \<Rightarrow> entries \<Rightarrow> entries) \<Rightarrow> nat \<Rightarrow> Index \<Rightarrow> Index" where
  "evict perm 0 idx = idx"
| "evict perm (Suc n) idx =
     (let k = oldest_key (perm n (ix_entries idx))
      in if k = [] then idx
         else evict perm n (idx\<lparr>ix_entries := AList.delete k (ix_entries idx),
                                ix_eventsDropped := ix_eventsDropped idx + 1\<rparr>))"

definition evictIfNeededLocked :: "(nat \<Rightarrow> entries \<Rightarrow> entries) \<Rightarrow> Index \<Rightarrow> Index" where
  "evictIfNeededLocked perm idx =
     evict perm (nat (int (length (ix_entries idx)) - ic_MaxEntries (ix_cfg idx))) idx"

definition ApplyStore ::
  "(nat \<Rightarrow> entries \<Rightarrow> entries) \<Rightarrow> walltime \<Rightarrow> int \<Rightarrow> string \<Rightarrow> string \<Rightarrow> int \<Rightarrow> int \<Rightarrow> Index \<Rightarrow> Index" where
  "ApplyStore perm now seq key parent matchedTokens blockSize idx0 =
     (let idx1 = idx0\<lparr>ix_eventsReceived := ix_eventsReceived idx0 + 1\<rparr>;
          (accept, idx2) = checkSeqLocked seq idx1
      in if \<not> accept then idx2
         else let idx = idx2\<lparr>ix_lastUpdate := now\<rparr>
              in case map_of (ix_entries idx) key of
                   Some e \<Rightarrow>
                     if e_Present e \<and> e_LastSeq e = seq
                     then idx\<lparr>ix_duplicates := ix_duplicates idx + 1\<rparr>
                     else idx\<lparr>ix_entries := AList.update key
                            (e\<lparr>e_Present := True, e_Parent := parent,
                               e_MatchedTokens := (if matchedTokens > 0 then matchedTokens
                                                   else e_MatchedTokens e),
                               e_BlockSize := (if blockSize > 0 then blockSize else e_BlockSize e),
                               e_LastSeq := seq, e_UpdatedAt := now\<rparr>) (ix_entries idx)\<rparr>
                 | None \<Rightarrow>
                     evictIfNeededLocked perm (idx\<lparr>ix_entries := AList.update key
                       \<lparr>e_Key = key, e_Parent = parent, e_MatchedTokens = matchedTokens,
                        e_BlockSize = blockSize, e_Present = True, e_LastSeq = seq,
                        e_UpdatedAt = now\<rparr> (ix_entries idx)\<rparr>))"

definition ApplyRemove :: "walltime \<Rightarrow> int \<Rightarrow> string \<Rightarrow> Index \<Rightarrow> Index" where
  "ApplyRemove now seq key idx0 =
     (let idx1 = idx0\<lparr>ix_eventsReceived := ix_eventsReceived idx0 + 1\<rparr>;
          (accept, idx2) = checkSeqLocked seq idx1
      in if \<not> accept then idx2
         else let idx = idx2\<lparr>ix_lastUpdate := now\<rparr>
              in case map_of (ix_entries idx) key of
                   Some e \<Rightarrow> idx\<lparr>ix_entries := AList.update key
                     (e\<lparr>e_Present := False, e_LastSeq := seq, e_UpdatedAt := now\<rparr>) (ix_entries idx)\<rparr>
                 | None \<Rightarrow> idx)"

definition ApplyClear :: "walltime \<Rightarrow> int \<Rightarrow> Index \<Rightarrow> Index" where
  "ApplyClear now seq idx0 =
     (let idx1 = idx0\<lparr>ix_eventsReceived := ix_eventsReceived idx0 + 1\<rparr>;
          (accept, idx) = checkSeqLocked seq idx1
      in idx\<lparr>ix_entries := [], ix_resetEpoch := ix_resetEpoch idx + 1,
             ix_resets := ix_resets idx + 1, ix_lastUpdate := now\<rparr>)"

definition Reset :: "walltime \<Rightarrow> Index \<Rightarrow> Index" where
  "Reset now idx =
     idx\<lparr>ix_entries := [], ix_haveSeq := False, ix_lastSeq := 0,
         ix_resetEpoch := ix_resetEpoch idx + 1, ix_resets := ix_resets idx + 1,
         ix_lastUpdate := 0, ix_startedAt := now\<rparr>"

section \<open>Reads\<close>

definition isStaleLocked :: "walltime \<Rightarrow> Index \<Rightarrow> bool" where
  "isStaleLocked now idx =
     (if ic_StaleAfter (ix_cfg idx) \<le> 0 then False
      else if time_IsZero (ix_lastUpdate idx) then True
      else now - ix_lastUpdate idx > ic_StaleAfter (ix_cfg idx))"

definition gap_penalty :: "nat \<Rightarrow> real" where
  "gap_penalty gaps = (let p = 25 / 100 * real gaps in if p > 75 / 100 then 75 / 100 else p)"

definition confidenceLocked :: "walltime \<Rightarrow> Index \<Rightarrow> real" where
  "confidenceLocked now idx =
     (if time_IsZero (ix_lastUpdate idx) \<or> isStaleLocked now idx then 0
      else let age = now - ix_lastUpdate idx;
               c0 = (if ic_StaleAfter (ix_cfg idx) > 0
                     then (let c = 1 - dur_Seconds age / dur_Seconds (ic_StaleAfter (ix_cfg idx))
                           in if c < 0 then 0 else c)
                     else 1);
               c1 = (if ix_sequenceGaps idx > 0 then c0 * (1 - gap_penalty (ix_sequenceGaps idx))
                     else c0)
           in if c1 < 0 then 0 else c1)"

definition fresh_entry :: "walltime \<Rightarrow> Index \<Rightarrow> IndexEntry \<Rightarrow> bool" where
  "fresh_entry now idx e \<longleftrightarrow>
     e_Present e \<and> (ic_EntryTTL (ix_cfg idx) \<le> 0 \<or> now - e_UpdatedAt e \<le> ic_EntryTTL (ix_cfg idx))"

definition lookupKeyLocked :: "walltime \<Rightarrow> string \<Rightarrow> Index \<Rightarrow> int \<times> bool" where
  "lookupKeyLocked now key idx =
     (case map_of (ix_entries idx) key of None \<Rightarrow> (0, False)
      | Some e \<Rightarrow>
          if \<not> e_Present e then (0, False)
          else if ic_EntryTTL (ix_cfg idx) > 0 \<and> now - e_UpdatedAt e > ic_EntryTTL (ix_cfg idx)
            then (0, False)
          else (e_MatchedTokens e, True))"

definition ageMsLocked :: "walltime \<Rightarrow> Index \<Rightarrow> int" where
  "ageMsLocked now idx =
     (if time_IsZero (ix_lastUpdate idx) then - 1 else dur_Milliseconds (now - ix_lastUpdate idx))"

definition LookupKey :: "walltime \<Rightarrow> string \<Rightarrow> Index \<Rightarrow> int \<times> real \<times> int" where
  "LookupKey now key idx =
     (if isStaleLocked now idx then (0, 0, ageMsLocked now idx)
      else let (t, present) = lookupKeyLocked now key idx
           in if \<not> present then (0, confidenceLocked now idx, ageMsLocked now idx)
              else (t, confidenceLocked now idx, ageMsLocked now idx))"

text \<open>\<open>Directory\<close>: \<open>perm\<close> is the order of the range over the map; sorting a permutation of the
  candidates by recency leaves ties in any order, as \<open>sort.Slice\<close> does.\<close>

definition Directory :: "(entries \<Rightarrow> entries) \<Rightarrow> walltime \<Rightarrow> int \<Rightarrow> Index \<Rightarrow> (string \<times> int) list" where
  "Directory perm now mx idx =
     (if isStaleLocked now idx \<or> time_IsZero (ix_lastUpdate idx) then []
      else let cap = (if mx \<le> 0 then ic_MaxEntries (ix_cfg idx) else mx);
               cand = filter (\<lambda>ke. fresh_entry now idx (snd ke)) (perm (ix_entries idx));
               row = (\<lambda>ke. (fst ke, e_MatchedTokens (snd ke)))
           in if int (length (ix_entries idx)) \<le> cap then map row cand
              else map row (take (nat cap) (sort_key (\<lambda>ke. - e_UpdatedAt (snd ke)) cand)))"

record CacheSnapshot =
  cs_Enabled :: bool
  cs_Provider :: string
  cs_Supported :: bool
  cs_MatchSupported :: bool
  cs_Ready :: bool
  cs_Confidence :: real
  cs_SnapshotAgeMs :: int
  cs_LastEventSequence :: int
  cs_CacheResetEpoch :: int
  cs_IndexEntries :: nat
  cs_IndexMaxEntries :: int
  cs_KVHeadroom :: f64
  cs_KVHeadroomSupported :: bool
  cs_EventsReceivedTotal :: nat
  cs_EventsDroppedTotal :: nat
  cs_SequenceGapsTotal :: nat
  cs_StaleInvalidations :: nat
  cs_DuplicateEventsTotal :: nat
  cs_OutOfOrderEventsTotal :: nat
  cs_ResetsTotal :: nat
  cs_UpdatedAt :: walltime

definition zero_CacheSnapshot :: CacheSnapshot where
  "zero_CacheSnapshot = \<lparr>cs_Enabled = False, cs_Provider = [], cs_Supported = False,
     cs_MatchSupported = False, cs_Ready = False, cs_Confidence = 0, cs_SnapshotAgeMs = 0,
     cs_LastEventSequence = 0, cs_CacheResetEpoch = 0, cs_IndexEntries = 0, cs_IndexMaxEntries = 0,
     cs_KVHeadroom = Fin 0, cs_KVHeadroomSupported = False, cs_EventsReceivedTotal = 0,
     cs_EventsDroppedTotal = 0, cs_SequenceGapsTotal = 0, cs_StaleInvalidations = 0,
     cs_DuplicateEventsTotal = 0, cs_OutOfOrderEventsTotal = 0, cs_ResetsTotal = 0,
     cs_UpdatedAt = 0\<rparr>"

definition SnapshotMeta :: "walltime \<Rightarrow> Index \<Rightarrow> Index \<times> CacheSnapshot" where
  "SnapshotMeta now idx0 =
     (let stale = isStaleLocked now idx0;
          idx = (if stale \<and> \<not> time_IsZero (ix_lastUpdate idx0)
                 then idx0\<lparr>ix_staleInvalidated := ix_staleInvalidated idx0 + 1\<rparr> else idx0)
      in (idx, zero_CacheSnapshot\<lparr>
           cs_Confidence := confidenceLocked now idx, cs_SnapshotAgeMs := ageMsLocked now idx,
           cs_LastEventSequence := ix_lastSeq idx, cs_CacheResetEpoch := ix_resetEpoch idx,
           cs_IndexEntries := length (filter (\<lambda>ke. e_Present (snd ke)) (ix_entries idx)),
           cs_IndexMaxEntries := ic_MaxEntries (ix_cfg idx),
           cs_EventsReceivedTotal := ix_eventsReceived idx,
           cs_EventsDroppedTotal := ix_eventsDropped idx,
           cs_SequenceGapsTotal := ix_sequenceGaps idx,
           cs_StaleInvalidations := ix_staleInvalidated idx,
           cs_DuplicateEventsTotal := ix_duplicates idx,
           cs_OutOfOrderEventsTotal := ix_outOfOrder idx, cs_ResetsTotal := ix_resets idx,
           cs_Ready := (\<not> stale \<and> \<not> time_IsZero (ix_lastUpdate idx)),
           cs_UpdatedAt := ix_lastUpdate idx\<rparr>))"

section \<open>Eviction\<close>

definition perm_ok :: "(nat \<Rightarrow> entries \<Rightarrow> entries) \<Rightarrow> bool" where
  "perm_ok perm \<longleftrightarrow> (\<forall>n es. mset (perm n es) = mset es)"

lemma perm_ok_set: "perm_ok perm \<Longrightarrow> set (perm n es) = set es"
  unfolding perm_ok_def by (metis set_mset_mset)

lemma oldest_step_simps [simp]:
  "oldest_step None ke = Some (fst ke, e_UpdatedAt (snd ke))"
  "oldest_step (Some (k, t)) ke =
     (if e_UpdatedAt (snd ke) < t then Some (fst ke, e_UpdatedAt (snd ke)) else Some (k, t))"
  by (simp_all add: oldest_step_def)

text \<open>The scan finds an entry with the least update time.\<close>

lemma oldest_scan:
  "foldl oldest_step (Some (k, t)) es = Some (k', t') \<Longrightarrow>
   ((k', t') = (k, t) \<or> (\<exists>e. (k', e) \<in> set es \<and> e_UpdatedAt e = t')) \<and>
   t' \<le> t \<and> (\<forall>(k2, e2) \<in> set es. t' \<le> e_UpdatedAt e2)"
proof (induction es arbitrary: k t)
  case (Cons ke es)
  obtain k0 e0 where ke: "ke = (k0, e0)" by fastforce
  show ?case
  proof (cases "e_UpdatedAt e0 < t")
    case True
    with Cons.prems have "foldl oldest_step (Some (k0, e_UpdatedAt e0)) es = Some (k', t')"
      by (simp add: ke)
    from Cons.IH [OF this] True ke show ?thesis by auto
  next
    case False
    with Cons.prems have "foldl oldest_step (Some (k, t)) es = Some (k', t')"
      by (simp add: ke)
    from Cons.IH [OF this] False ke show ?thesis by auto
  qed
qed simp

lemma oldest_step_Some: "\<exists>k t. foldl oldest_step (Some a) es = Some (k, t)"
  by (induction es arbitrary: a) (auto split: prod.splits)

lemma oldest_key_min:
  assumes "es \<noteq> []"
  shows "\<exists>e. (oldest_key es, e) \<in> set es \<and> (\<forall>(k2, e2) \<in> set es. e_UpdatedAt e \<le> e_UpdatedAt e2)"
proof -
  obtain k0 e0 es' where es: "es = (k0, e0) # es'" using assms by (cases es) auto
  have f: "foldl oldest_step None es = foldl oldest_step (Some (k0, e_UpdatedAt e0)) es'"
    by (simp add: es)
  obtain k t where kt: "foldl oldest_step (Some (k0, e_UpdatedAt e0)) es' = Some (k, t)"
    using oldest_step_Some by blast
  have k: "oldest_key es = k" by (simp add: oldest_key_def f kt)
  from oldest_scan [OF kt] show ?thesis unfolding k by (auto simp: es)
qed

lemma length_delete:
  "distinct (map fst es) \<Longrightarrow> k \<in> fst ` set es \<Longrightarrow> length (AList.delete k es) = length es - 1"
proof (induction es)
  case (Cons ke es)
  show ?case
  proof (cases "fst ke = k")
    case True
    then have "k \<notin> fst ` set es" using Cons.prems(1) by auto
    then have "AList.delete k es = es" unfolding AList.delete_eq by (intro filter_True) force
    with True show ?thesis by (cases ke) simp
  next
    case False
    then have k: "k \<in> fst ` set es" using Cons.prems(2) by auto
    then have "0 < length es" by (cases es) auto
    with False Cons k show ?thesis by (cases ke) simp
  qed
qed simp

lemma keys_delete: "fst ` set (AList.delete k es) = fst ` set es - {k}"
  by (auto simp: AList.delete_eq)

definition index_ok :: "Index \<Rightarrow> bool" where
  "index_ok idx \<longleftrightarrow> distinct (map fst (ix_entries idx)) \<and> [] \<notin> fst ` set (ix_entries idx) \<and>
     0 < ic_MaxEntries (ix_cfg idx)"

lemma evict_length:
  assumes "perm_ok perm" and "index_ok idx" and "n \<le> length (ix_entries idx)"
  shows "length (ix_entries (evict perm n idx)) = length (ix_entries idx) - n \<and>
         index_ok (evict perm n idx) \<and> ix_cfg (evict perm n idx) = ix_cfg idx"
  using assms(2,3)
proof (induction n arbitrary: idx)
  case (Suc n)
  let ?es = "ix_entries idx"
  let ?k = "oldest_key (perm n ?es)"
  let ?i = "idx\<lparr>ix_entries := AList.delete ?k ?es, ix_eventsDropped := ix_eventsDropped idx + 1\<rparr>"
  have ne: "perm n ?es \<noteq> []"
    using Suc.prems(2) perm_ok_set [OF assms(1), of n ?es] by auto
  have mem: "?k \<in> fst ` set ?es"
    using oldest_key_min [OF ne] perm_ok_set [OF assms(1)] by (force simp: image_iff)
  then have k: "?k \<noteq> []" using Suc.prems(1) unfolding index_ok_def by metis
  have len: "length (AList.delete ?k ?es) = length ?es - 1"
    using Suc.prems(1) mem by (intro length_delete) (auto simp: index_ok_def)
  have ok: "index_ok ?i"
    using Suc.prems(1) by (simp add: index_ok_def distinct_delete keys_delete)
  from Suc.IH [OF ok] len Suc.prems(2) k show ?case by (simp add: Let_def)
qed simp

section \<open>Histories of events\<close>

datatype IndexOp =
    IStore "nat \<Rightarrow> entries \<Rightarrow> entries" walltime int string string int int
  | IRemove walltime int string | IClear walltime int | IReset walltime | ISnapshot walltime

fun ix_apply :: "Index \<Rightarrow> IndexOp \<Rightarrow> Index" where
  "ix_apply i (IStore perm now seq key parent tok bs) = ApplyStore perm now seq key parent tok bs i"
| "ix_apply i (IRemove now seq key) = ApplyRemove now seq key i"
| "ix_apply i (IClear now seq) = ApplyClear now seq i"
| "ix_apply i (IReset now) = Reset now i"
| "ix_apply i (ISnapshot now) = fst (SnapshotMeta now i)"

text \<open>Legal events have a key; map iterations are permutations.\<close>

fun legal_op :: "IndexOp \<Rightarrow> bool" where
  "legal_op (IStore perm now seq key parent tok bs) \<longleftrightarrow> perm_ok perm \<and> key \<noteq> []"
| "legal_op _ \<longleftrightarrow> True"

lemma checkSeq_simps [simp]:
  "fst (checkSeqLocked seq i) = True"
  "ix_entries (snd (checkSeqLocked seq i)) = ix_entries i"
  "ix_cfg (snd (checkSeqLocked seq i)) = ix_cfg i"
  "ix_lastUpdate (snd (checkSeqLocked seq i)) = ix_lastUpdate i"
  "ix_sequenceGaps i \<le> ix_sequenceGaps (snd (checkSeqLocked seq i))"
  by (simp_all add: checkSeqLocked_def)

lemma checkSeq_result:
  "checkSeqLocked seq i = (b, j) \<Longrightarrow> b \<and> ix_entries j = ix_entries i \<and> ix_cfg j = ix_cfg i"
  by (auto simp: checkSeqLocked_def split: if_splits)

text \<open>\<open>ApplyStore\<close> and \<open>ApplyRemove\<close> with the sequence check, which always accepts, resolved.\<close>

definition after_seq :: "walltime \<Rightarrow> int \<Rightarrow> Index \<Rightarrow> Index" where
  "after_seq now seq i =
     (snd (checkSeqLocked seq (i\<lparr>ix_eventsReceived := ix_eventsReceived i + 1\<rparr>)))
       \<lparr>ix_lastUpdate := now\<rparr>"

lemma after_seq_simps [simp]:
  "ix_entries (after_seq now seq i) = ix_entries i" "ix_cfg (after_seq now seq i) = ix_cfg i"
  "ix_lastUpdate (after_seq now seq i) = now"
  "ix_sequenceGaps i \<le> ix_sequenceGaps (after_seq now seq i)"
  by (simp_all add: after_seq_def order_trans [OF _ checkSeq_simps(5)])

lemma ApplyStore_cases:
  "ApplyStore perm now seq key parent tok bs i =
     (let j = after_seq now seq i
      in case map_of (ix_entries i) key of
           Some e \<Rightarrow>
             if e_Present e \<and> e_LastSeq e = seq then j\<lparr>ix_duplicates := ix_duplicates j + 1\<rparr>
             else j\<lparr>ix_entries := AList.update key
                    (e\<lparr>e_Present := True, e_Parent := parent,
                       e_MatchedTokens := (if tok > 0 then tok else e_MatchedTokens e),
                       e_BlockSize := (if bs > 0 then bs else e_BlockSize e),
                       e_LastSeq := seq, e_UpdatedAt := now\<rparr>) (ix_entries i)\<rparr>
         | None \<Rightarrow> evictIfNeededLocked perm (j\<lparr>ix_entries := AList.update key
             \<lparr>e_Key = key, e_Parent = parent, e_MatchedTokens = tok, e_BlockSize = bs,
              e_Present = True, e_LastSeq = seq, e_UpdatedAt = now\<rparr> (ix_entries i)\<rparr>))"
proof -
  obtain b j where cs: "checkSeqLocked seq (i\<lparr>ix_eventsReceived := ix_eventsReceived i + 1\<rparr>) = (b, j)"
    by fastforce
  with checkSeq_result [OF cs] show ?thesis 
    by (simp add: ApplyStore_def Let_def after_seq_def split: option.split)
qed

lemma ApplyRemove_cases:
  "ApplyRemove now seq key i =
     (let j = after_seq now seq i
      in case map_of (ix_entries i) key of
           Some e \<Rightarrow> j\<lparr>ix_entries := AList.update key
             (e\<lparr>e_Present := False, e_LastSeq := seq, e_UpdatedAt := now\<rparr>) (ix_entries i)\<rparr>
         | None \<Rightarrow> j)"
proof -
  obtain b j where cs: "checkSeqLocked seq (i\<lparr>ix_eventsReceived := ix_eventsReceived i + 1\<rparr>) = (b, j)"
    by fastforce
  with checkSeq_result [OF cs] show ?thesis 
    by (simp add: ApplyRemove_def Let_def after_seq_def split: option.split)
qed

lemma ApplyClear_cases:
  "ApplyClear now seq i = (after_seq now seq i)\<lparr>ix_entries := [],
     ix_resetEpoch := ix_resetEpoch (after_seq now seq i) + 1,
     ix_resets := ix_resets (after_seq now seq i) + 1\<rparr>"
  by (simp add: ApplyClear_def after_seq_def Let_def split: prod.split)

text \<open>The invariant: distinct non-empty keys and at most \<open>MaxEntries\<close> of them.\<close>

definition index_inv :: "Index \<Rightarrow> bool" where
  "index_inv i \<longleftrightarrow> index_ok i \<and> int (length (ix_entries i)) \<le> ic_MaxEntries (ix_cfg i)"

lemma length_update_known:
  "map_of es k = Some e \<Longrightarrow> length (AList.update k e' es) = length es"
  by (induction es) auto

lemma length_update_new: "map_of es k = None \<Longrightarrow> length (AList.update k e es) = Suc (length es)"
  by (induction es) auto

lemma index_ok_update:
  "index_ok i \<Longrightarrow> k \<noteq> [] \<Longrightarrow> ix_cfg j = ix_cfg i \<Longrightarrow>
   index_ok (j\<lparr>ix_entries := AList.update k e (ix_entries i)\<rparr>)"
  by (auto simp: index_ok_def distinct_update dom_update)

lemma index_inv_new: "index_inv (NewIndex cfg now)"
  by (simp add: index_inv_def index_ok_def NewIndex_def Let_def DefaultIndexConfig_def)

lemma index_inv_evict:
  assumes "perm_ok perm" and "index_ok i"
  shows "index_inv (evictIfNeededLocked perm i)"
proof -
  let ?n = "nat (int (length (ix_entries i)) - ic_MaxEntries (ix_cfg i))"
  have "?n \<le> length (ix_entries i)" using assms(2) unfolding index_ok_def by linarith
  from evict_length [OF assms this] assms(2) show ?thesis
    by (auto simp: index_inv_def evictIfNeededLocked_def index_ok_def)
qed

lemma index_inv_store:
  assumes inv: "index_inv i" and perm: "perm_ok perm" and key: "key \<noteq> []"
  shows "index_inv (ApplyStore perm now seq key parent tok bs i)"
proof (cases "map_of (ix_entries i) key")
  case None
  have "index_ok i" using inv by (simp add: index_inv_def)
  from index_inv_evict [OF perm index_ok_update [OF this key]] None show ?thesis
    by (simp add: ApplyStore_cases Let_def)
next
  case (Some e)
  then have k: "key \<in> fst ` set (ix_entries i)" by (force dest: map_of_SomeD)
  have "index_ok i" using inv by (simp add: index_inv_def)
  from index_ok_update [OF this key, of "after_seq now seq i"] Some inv show ?thesis
    by (simp add: ApplyStore_cases Let_def index_inv_def length_update_known)
       (simp add: index_ok_def)
qed

lemma index_inv_step: "index_inv i \<Longrightarrow> legal_op op \<Longrightarrow> index_inv (ix_apply i op)"
proof (cases op)
  case (IRemove now seq key)
  assume inv: "index_inv i"
  show ?thesis
  proof (cases "map_of (ix_entries i) key")
    case None
    with inv IRemove show ?thesis
      by (simp add: ApplyRemove_cases Let_def index_inv_def index_ok_def)
  next
    case (Some e)
    have "key \<noteq> []" using inv Some by (force simp: index_inv_def index_ok_def dest: map_of_SomeD)
    moreover have "index_ok i" using inv by (simp add: index_inv_def)
    ultimately show ?thesis
      using index_ok_update [of i key "after_seq now seq i"] inv IRemove Some
      by (simp add: ApplyRemove_cases Let_def index_inv_def length_update_known)
  qed
next
  case (IClear now seq)
  then show "index_inv i \<Longrightarrow> ?thesis"
    by (simp add: ApplyClear_cases index_inv_def index_ok_def)
next
  case (IStore perm now seq key parent tok bs)
  then show "index_inv i \<Longrightarrow> legal_op op \<Longrightarrow> ?thesis" by (simp add: index_inv_store)
qed (simp_all add: index_inv_def index_ok_def Reset_def SnapshotMeta_def Let_def)

interpretation ixm: guarded_machine "NewIndex cfg t0" ix_apply index_inv legal_op
  by unfold_locales (simp_all add: index_inv_new index_inv_step)

section \<open>Confidence\<close>

lemma gap_penalty_range: "0 \<le> gap_penalty n" "gap_penalty n \<le> 75 / 100"
  by (simp_all add: gap_penalty_def Let_def)

lemma gap_penalty_mono: "m \<le> n \<Longrightarrow> gap_penalty m \<le> gap_penalty n"
  by (simp add: gap_penalty_def Let_def)

lemma gap_penalty_zero [simp]: "gap_penalty 0 = 0"
  by (simp add: gap_penalty_def)

text \<open>The freshness part of the confidence.\<close>

definition freshness :: "walltime \<Rightarrow> Index \<Rightarrow> real" where
  "freshness now i =
     (if ic_StaleAfter (ix_cfg i) > 0
      then max 0 (1 - real_of_int (now - ix_lastUpdate i) / real_of_int (ic_StaleAfter (ix_cfg i)))
      else 1)"

lemma freshness_range: "ix_lastUpdate i \<le> now \<Longrightarrow> 0 \<le> freshness now i \<and> freshness now i \<le> 1"
  by (simp add: freshness_def)

lemma freshness_antimono: "now \<le> later \<Longrightarrow> freshness later i \<le> freshness now i"
proof -
  assume le: "now \<le> later"
  have "real_of_int (now - ix_lastUpdate i) / real_of_int (ic_StaleAfter (ix_cfg i))
      \<le> real_of_int (later - ix_lastUpdate i) / real_of_int (ic_StaleAfter (ix_cfg i))"
    if "0 < ic_StaleAfter (ix_cfg i)" using le that by (intro divide_right_mono) simp_all
  then show ?thesis unfolding freshness_def by (auto intro: max.coboundedI2)
qed

lemma confidence_product:
  "confidenceLocked now i =
     (if ix_lastUpdate i = 0 \<or> isStaleLocked now i then 0
      else freshness now i * (1 - gap_penalty (ix_sequenceGaps i)))"
proof -
  have d: "dur_Seconds a / dur_Seconds b = real_of_int a / real_of_int b" for a b
    by (simp add: dur_Seconds_def)
  have m: "(if c < 0 then 0 else c) = max 0 c" for c :: real by (simp add: max_def)
  have p: "0 \<le> 1 - gap_penalty n" for n using gap_penalty_range(2) [of n] by simp
  have f: "0 \<le> freshness now i" by (simp add: freshness_def)
  have "confidenceLocked now i = (if ix_lastUpdate i = 0 \<or> isStaleLocked now i then 0
      else max 0 (freshness now i * (1 - gap_penalty (ix_sequenceGaps i))))"
    by (simp add: confidenceLocked_def Let_def time_IsZero_def d m freshness_def)
  with mult_nonneg_nonneg [OF f p] show ?thesis by (simp add: max_def)
qed

lemma LookupKey_confidence: "fst (snd (LookupKey now key i)) = confidenceLocked now i"
  by (simp add: LookupKey_def confidenceLocked_def split: prod.split)

lemma evict_gaps [simp]: "ix_sequenceGaps (evict perm n i) = ix_sequenceGaps i"
  by (induction n arbitrary: i) (simp_all add: Let_def)

lemma gaps_step: "ix_sequenceGaps i \<le> ix_sequenceGaps (ix_apply i op)"
  by (cases op)
     (simp_all add: ApplyStore_cases ApplyRemove_cases ApplyClear_cases Reset_def SnapshotMeta_def
      evictIfNeededLocked_def Let_def split: option.split)

lemma gaps_run: "ix_sequenceGaps i \<le> ix_sequenceGaps (foldl ix_apply i ops)"
  by (induction ops arbitrary: i) (auto intro: order_trans [OF gaps_step])

section \<open>Lookups and the directory\<close>

lemma LookupKey_tokens:
  assumes "\<not> isStaleLocked now i"
  shows "fst (LookupKey now key i) =
     (case map_of (ix_entries i) key of None \<Rightarrow> 0
      | Some e \<Rightarrow> if fresh_entry now i e then e_MatchedTokens e else 0)"
  using assms
  by (auto simp: LookupKey_def lookupKeyLocked_def fresh_entry_def split: option.split)

lemma Directory_candidates:
  assumes "\<forall>es. mset (perm es) = mset es"
  shows "set (Directory perm now mx i) \<subseteq>
     {(k, e_MatchedTokens e) | k e. (k, e) \<in> set (ix_entries i) \<and> fresh_entry now i e}"
proof -
  have "set (perm es) = set es" for es using assms by (metis set_mset_mset)
  then show ?thesis
    by (auto simp: Directory_def Let_def dest!: in_set_takeD)
qed

section \<open>Properties\<close>

text \<open>C19: The index is bounded. After any sequence of store, remove, clear and reset events with
  non-empty keys, whatever order Go iterates the map in, the index holds at most \<open>MaxEntries\<close>
  entries, one per key.\<close>

theorem index_bounded:
  fixes cfg t0
  assumes "list_all legal_op ops"
  defines "i \<equiv> foldl ix_apply (NewIndex cfg t0) ops"
  shows "int (length (ix_entries i)) \<le> ic_MaxEntries (ix_cfg i) \<and> distinct (map fst (ix_entries i))"
  using ixm.guarded_run [OF assms(1)] by (simp add: i_def index_inv_def index_ok_def)


text \<open>Eviction removes the oldest entry. Storing a new key into a full index keeps all entries
  but one, and that one was updated no later than any other, the new one included.\<close>

lemma evicts_oldest:
  fixes parent tok bs seq now
  assumes "index_inv i" and "perm_ok perm" and "key \<noteq> []" and "map_of (ix_entries i) key = None"
    and "int (length (ix_entries i)) = ic_MaxEntries (ix_cfg i)"
  defines "e \<equiv> \<lparr>e_Key = key, e_Parent = parent, e_MatchedTokens = tok, e_BlockSize = bs,
     e_Present = True, e_LastSeq = seq, e_UpdatedAt = now\<rparr>"
  defines "all \<equiv> AList.update key e (ix_entries i)"
  shows "\<exists>k v. (k, v) \<in> set all \<and> (\<forall>(k2, v2) \<in> set all. e_UpdatedAt v \<le> e_UpdatedAt v2) \<and>
           ix_entries (ApplyStore perm now seq key parent tok bs i) = AList.delete k all"
proof -
  have len: "length all = Suc (length (ix_entries i))"
    using assms(4) by (simp add: all_def length_update_new)
  let ?k = "oldest_key (perm 0 all)"
  have ne: "perm 0 all \<noteq> []" using perm_ok_set [OF assms(2), of 0 all] len by auto
  obtain v where v: "(?k, v) \<in> set all" "\<forall>(k2, v2) \<in> set all. e_UpdatedAt v \<le> e_UpdatedAt v2"
    using oldest_key_min [OF ne] perm_ok_set [OF assms(2)] by auto
  have "[] \<notin> fst ` set all"
    using index_ok_update [of i key i e] assms(1,3) by (simp add: index_inv_def index_ok_def all_def)
  then have k: "?k \<noteq> []" using v(1) by force
  have "ix_entries (ApplyStore perm now seq key parent tok bs i) = AList.delete ?k all"
    using assms(4,5) k len
    by (simp add: ApplyStore_cases Let_def evictIfNeededLocked_def e_def [symmetric] all_def [symmetric])
  with v show ?thesis by blast
qed

text \<open>The confidence of a lookup is in the unit interval, is 0 when the index is stale or has
  never received an event, and only falls as the index ages or more gaps are counted.\<close>

lemma confidence_range:
  assumes "ix_lastUpdate i \<le> now" and "now \<le> later" and "g \<le> ix_sequenceGaps i"
  shows "0 \<le> fst (snd (LookupKey now k i)) \<and> fst (snd (LookupKey now k i)) \<le> 1 \<and>
         (isStaleLocked now i \<longrightarrow> fst (LookupKey now k i) = 0 \<and> fst (snd (LookupKey now k i)) = 0) \<and>
         fst (snd (LookupKey later k i)) \<le> fst (snd (LookupKey now k i)) \<and>
         fst (snd (LookupKey now k i)) \<le> fst (snd (LookupKey now k (i\<lparr>ix_sequenceGaps := g\<rparr>)))"
proof -
  have p: "0 \<le> 1 - gap_penalty n" "1 - gap_penalty n \<le> 1" for n
    using gap_penalty_range [of n] by simp_all
  have f: "0 \<le> freshness now i" "freshness now i \<le> 1" "0 \<le> freshness later i"
    using freshness_range [of i now] freshness_range [of i later] assms(1,2) by auto
  have fl: "freshness later i \<le> freshness now i" by (rule freshness_antimono [OF assms(2)])
  have st: "isStaleLocked now i \<Longrightarrow> isStaleLocked later i"
    using assms(2) by (auto simp: isStaleLocked_def split: if_splits)
  have gg: "1 - gap_penalty (ix_sequenceGaps i) \<le> 1 - gap_penalty g"
    using gap_penalty_mono [OF assms(3)] by simp
  have sg: "isStaleLocked now (i\<lparr>ix_sequenceGaps := g\<rparr>) = isStaleLocked now i"
      "freshness now (i\<lparr>ix_sequenceGaps := g\<rparr>) = freshness now i"
    by (simp_all add: isStaleLocked_def freshness_def)
  have "confidenceLocked later i \<le> confidenceLocked now i"
    using st f p mult_right_mono [OF fl p(1) [of "ix_sequenceGaps i"]]
    by (auto simp: confidence_product)
  moreover have "confidenceLocked now i \<le> confidenceLocked now (i\<lparr>ix_sequenceGaps := g\<rparr>)"
    using mult_left_mono [OF gg f(1)] by (simp add: confidence_product sg)
  moreover have "0 \<le> confidenceLocked now i" "confidenceLocked now i \<le> 1"
    using f p [of "ix_sequenceGaps i"] by (auto simp: confidence_product intro: mult_le_one)
  moreover have "isStaleLocked now i \<Longrightarrow> confidenceLocked now i = 0 \<and> fst (LookupKey now k i) = 0"
    by (simp add: confidence_product LookupKey_def)
  ultimately show ?thesis by (auto simp: LookupKey_confidence)
qed

text \<open>C20: A sequence gap is never forgiven. Once three gaps have been counted, no sequence of later
  events, not even a clear, a reset or a runtime restart, lets the confidence of a lookup rise
  above one quarter.\<close>

theorem gaps_never_forgiven:
  fixes ops now k
  assumes "3 \<le> ix_sequenceGaps i"
  defines "j \<equiv> foldl ix_apply i ops"
  assumes "ix_lastUpdate j \<le> now"
  shows "fst (snd (LookupKey now k j)) \<le> 1 / 4"
proof -
  have "3 \<le> ix_sequenceGaps j" using assms(1) gaps_run [of i ops] by (simp add: j_def)
  then have g: "gap_penalty (ix_sequenceGaps j) = 3 / 4"
    using gap_penalty_mono [of 3 "ix_sequenceGaps j"] gap_penalty_range(2) [of "ix_sequenceGaps j"]
    by (simp add: gap_penalty_def Let_def)
  have "0 \<le> freshness now j \<and> freshness now j \<le> 1" using assms(3) by (rule freshness_range)
  then show ?thesis by (simp add: LookupKey_confidence confidence_product g)
qed

text \<open>The directory that the router materialises agrees with single lookups: every row is a key
  with exactly the tokens a lookup of that key returns, no key occurs twice, at most \<open>max\<close> rows
  are given, and if the index is not larger than \<open>max\<close> no warm key is missing.\<close>

lemma directory_agrees:
  assumes "index_inv i" and "\<forall>es. mset (perm es) = mset es" and "0 < mx"
  shows "(\<forall>(k, t) \<in> set (Directory perm now mx i). fst (LookupKey now k i) = t) \<and>
         distinct (map fst (Directory perm now mx i)) \<and>
         int (length (Directory perm now mx i)) \<le> mx \<and>
         (int (length (ix_entries i)) \<le> mx \<and> ix_lastUpdate i \<noteq> 0 \<longrightarrow>
            (\<forall>k. fst (LookupKey now k i) \<noteq> 0 \<longrightarrow> k \<in> fst ` set (Directory perm now mx i)))"
proof (cases "isStaleLocked now i \<or> ix_lastUpdate i = 0")
  case True
  then show ?thesis using assms(3)
    by (auto simp: Directory_def time_IsZero_def LookupKey_def)
next
  case False
  let ?D = "Directory perm now mx i"
  let ?cand = "filter (\<lambda>ke. fresh_entry now i (snd ke)) (perm (ix_entries i))"
  have d: "distinct (map fst (ix_entries i))" using assms(1) by (simp add: index_inv_def index_ok_def)
  have sp: "set (perm (ix_entries i)) = set (ix_entries i)" using assms(2) by (metis set_mset_mset)
  have lp: "length (perm (ix_entries i)) = length (ix_entries i)" using assms(2) by (metis size_mset)
  have "mset (map fst (perm (ix_entries i))) = mset (map fst (ix_entries i))"
    using assms(2) by simp
  then have dp: "distinct (map fst (perm (ix_entries i)))" using d by (metis mset_eq_imp_distinct_iff)
  have dc: "distinct (map fst ?cand)" by (rule distinct_map_filter [OF dp])
  have D: "map fst ?D = (if int (length (ix_entries i)) \<le> mx then map fst ?cand
      else map fst (take (nat mx) (sort_key (\<lambda>ke. - e_UpdatedAt (snd ke)) ?cand)))"
    using False assms(3) by (simp add: Directory_def Let_def time_IsZero_def o_def)
  have ds: "distinct (map fst (sort_key (\<lambda>ke. - e_UpdatedAt (snd ke)) ?cand))"
    using dc by (metis mset_map mset_sort mset_eq_imp_distinct_iff)
  have dist: "distinct (map fst ?D)"
    unfolding D using dc ds by (simp add: take_map [symmetric])
  have len: "int (length ?D) \<le> mx"
  proof -
    have "length ?cand \<le> length (ix_entries i)" by (metis length_filter_le lp)
    then have "int (length (map fst ?D)) \<le> mx" unfolding D using assms(3) by auto
    then show ?thesis by simp
  qed
  have sound: "fst (LookupKey now k i) = t" if kt: "(k, t) \<in> set ?D" for k t
  proof -
    obtain e where "(k, e) \<in> set (ix_entries i)" "fresh_entry now i e" "t = e_MatchedTokens e"
      using Directory_candidates [OF assms(2), of now mx i] kt by blast
    moreover have "map_of (ix_entries i) k = Some e" using d calculation(1) by simp
    ultimately show ?thesis using False by (simp add: LookupKey_tokens)
  qed
  have complete: "k \<in> fst ` set ?D"
    if small: "int (length (ix_entries i)) \<le> mx" and warm: "fst (LookupKey now k i) \<noteq> 0" for k
  proof -
    obtain e where e: "map_of (ix_entries i) k = Some e" "fresh_entry now i e"
      using warm False by (auto simp: LookupKey_tokens split: option.splits if_splits)
    then have "(k, e) \<in> set ?cand" using sp by (auto dest: map_of_SomeD)
    then have "k \<in> set (map fst ?D)" unfolding D using small by force
    then show ?thesis by simp
  qed
  show ?thesis using sound dist len complete by blast
qed

section \<open>Witnesses\<close>

definition store1 :: IndexOp where
  "store1 = IStore (\<lambda>_ es. es) 5 1 ''a'' [] 64 16"

definition sample_index :: Index where
  "sample_index = foldl ix_apply (NewIndex (DefaultIndexConfig\<lparr>ic_MaxEntries := 1\<rparr>) 1) [store1]"

lemma sample_index_simps [simp]:
  "ix_entries sample_index = [(''a'', \<lparr>e_Key = ''a'', e_Parent = [], e_MatchedTokens = 64,
     e_BlockSize = 16, e_Present = True, e_LastSeq = 1, e_UpdatedAt = 5\<rparr>)]"
  "ic_MaxEntries (ix_cfg sample_index) = 1" "ix_lastUpdate sample_index = 5"
  "ix_sequenceGaps sample_index = 0" "ic_StaleAfter (ix_cfg sample_index) = 30 * Second"
  "ic_EntryTTL (ix_cfg sample_index) = 600 * Second"
  by (simp_all add: sample_index_def store1_def ApplyStore_def checkSeqLocked_def NewIndex_def
      DefaultIndexConfig_def Let_def evictIfNeededLocked_def)

lemma sample_index_inv: "index_inv sample_index"
  by (simp add: index_inv_def index_ok_def)

lemma id_perm_ok: "perm_ok (\<lambda>_ es. es)"
  by (simp add: perm_ok_def)

theorem index_bounded_witness:
  "int (length (ix_entries sample_index)) \<le> ic_MaxEntries (ix_cfg sample_index)"
proof -
  have "list_all legal_op [store1]" by (simp add: store1_def id_perm_ok)
  from index_bounded [OF this, of "DefaultIndexConfig\<lparr>ic_MaxEntries := 1\<rparr>" 1] show ?thesis
    unfolding sample_index_def by blast
qed

definition gappy_index :: Index where
  "gappy_index = sample_index\<lparr>ix_sequenceGaps := 3\<rparr>"

theorem gaps_never_forgiven_witness:
  "fst (snd (LookupKey 12 ''a'' (foldl ix_apply gappy_index [IReset 8, store1]))) \<le> 1 / 4"
proof -
  have "ix_lastUpdate (foldl ix_apply gappy_index [IReset 8, store1]) = 5"
    by (simp add: gappy_index_def store1_def ApplyStore_cases Reset_def evictIfNeededLocked_def Let_def)
  with gaps_never_forgiven [of gappy_index "[IReset 8, store1]" 12 "''a''"] show ?thesis
    by (simp add: gappy_index_def)
qed

end
