(* ===== verification/Cache_Providers.thy ===== *)
theory Cache_Providers
  imports Cache_Index
begin

text \<open>
  The cache-observation providers of \<open>internal/cache\<close> (\<open>provider.go\<close>, \<open>explicit_provider.go\<close>,
  \<open>vllm_provider.go\<close>, \<open>http_snapshot.go\<close>) on top of the prefix index. SHA-256 is a parameter of
  \<open>HashKey\<close>; the transport that delivers native events is not part of the sources, its events are
  the arguments of \<open>Ingest\<close>.

  One locale states what every provider promises a router about a lookup, and all three providers
  are shown to keep it; another states the contract of a keyed store, and the explicit provider
  is shown to refine a plain map through it.
\<close>

section \<open>Data\<close>

datatype Mode = ModeDisabled | ModeExplicit | ModeVLLMEvents

fun mode_string :: "Mode \<Rightarrow> string" where
  "mode_string ModeDisabled = ''disabled''"
| "mode_string ModeExplicit = ''explicit''"
| "mode_string ModeVLLMEvents = ''vllm_events''"

definition ParseMode :: "string \<Rightarrow> Mode" where
  "ParseMode s =
     (if s = mode_string ModeExplicit then ModeExplicit
      else if s = mode_string ModeVLLMEvents \<or> s = ''vllm-events'' then ModeVLLMEvents
      else ModeDisabled)"

record PrefixQuery =
  pq_PrefixKeyHash :: string
  pq_PrefixTokens :: int

definition Eligible :: "PrefixQuery \<Rightarrow> bool" where
  "Eligible q \<longleftrightarrow> pq_PrefixKeyHash q \<noteq> []"

record MatchResult =
  mr_Supported :: bool
  mr_MatchSupported :: bool
  mr_MatchedPrefixTokens :: int
  mr_Confidence :: real
  mr_SnapshotAgeMs :: int
  mr_Reason :: string

definition NoMatch :: "string \<Rightarrow> MatchResult" where
  "NoMatch reason = \<lparr>mr_Supported = False, mr_MatchSupported = False, mr_MatchedPrefixTokens = 0,
     mr_Confidence = 0, mr_SnapshotAgeMs = 0, mr_Reason = reason\<rparr>"

definition HashKey :: "(string \<Rightarrow> string) \<Rightarrow> string \<Rightarrow> string" where
  "HashKey sha256hex raw = (if raw = [] then [] else sha256hex raw)"

record ProviderConfig =
  pc_Mode :: Mode
  pc_Index :: IndexConfig
  pc_ExplicitHeaderEnabled :: bool
  pc_EventEndpoint :: string

section \<open>The disabled provider\<close>

definition dis_Lookup :: "PrefixQuery \<Rightarrow> MatchResult" where
  "dis_Lookup q = NoMatch ''cache_observation_disabled''"

definition dis_Directory :: "(string \<times> int) list" where
  "dis_Directory = []"

definition dis_Snapshot :: CacheSnapshot where
  "dis_Snapshot = zero_CacheSnapshot\<lparr>cs_Provider := mode_string ModeDisabled,
     cs_SnapshotAgeMs := - 1, cs_LastEventSequence := - 1\<rparr>"

section \<open>The explicit provider\<close>

record ExplicitProvider =
  ep_cfg :: ProviderConfig
  ep_index :: Index
  ep_seq :: int
  ep_kvHeadroom :: f64
  ep_kvSupported :: bool
  ep_started :: bool
  ep_resetEpoch :: int

definition index_config :: "ProviderConfig \<Rightarrow> IndexConfig" where
  "index_config cfg = (if ic_MaxEntries (pc_Index cfg) = 0 then DefaultIndexConfig else pc_Index cfg)"

definition NewExplicitProvider :: "ProviderConfig \<Rightarrow> walltime \<Rightarrow> ExplicitProvider" where
  "NewExplicitProvider cfg now =
     \<lparr>ep_cfg = cfg\<lparr>pc_Index := index_config cfg\<rparr>, ep_index = NewIndex (index_config cfg) now,
      ep_seq = 0, ep_kvHeadroom = Fin 0, ep_kvSupported = False, ep_started = False,
      ep_resetEpoch = 0\<rparr>"

definition ep_Start :: "ExplicitProvider \<Rightarrow> ExplicitProvider" where
  "ep_Start p = p\<lparr>ep_started := True\<rparr>"

definition ep_OnRuntimeRestart :: "walltime \<Rightarrow> ExplicitProvider \<Rightarrow> ExplicitProvider" where
  "ep_OnRuntimeRestart now p =
     p\<lparr>ep_index := Reset now (ep_index p), ep_resetEpoch := ep_resetEpoch p + 1\<rparr>"

definition ep_SetKVHeadroom :: "f64 \<Rightarrow> bool \<Rightarrow> ExplicitProvider \<Rightarrow> ExplicitProvider" where
  "ep_SetKVHeadroom h supported p = p\<lparr>ep_kvHeadroom := h, ep_kvSupported := supported\<rparr>"

text \<open>\<open>Observe\<close> takes its sequence number atomically and then, in a second step, stores under the
  index lock; concurrent calls may interleave between the two.\<close>

definition observe_seq :: "ExplicitProvider \<Rightarrow> int \<times> ExplicitProvider" where
  "observe_seq p = (ep_seq p + 1, p\<lparr>ep_seq := ep_seq p + 1\<rparr>)"

definition observe_store ::
  "(nat \<Rightarrow> entries \<Rightarrow> entries) \<Rightarrow> walltime \<Rightarrow> int \<Rightarrow> string \<Rightarrow> int \<Rightarrow> ExplicitProvider \<Rightarrow> ExplicitProvider" where
  "observe_store perm now s keyHash tokens p =
     p\<lparr>ep_index := ApplyStore perm now s keyHash [] tokens 0 (ep_index p)\<rparr>"

definition Observe ::
  "(nat \<Rightarrow> entries \<Rightarrow> entries) \<Rightarrow> walltime \<Rightarrow> string \<Rightarrow> int \<Rightarrow> ExplicitProvider \<Rightarrow> ExplicitProvider" where
  "Observe perm now keyHash tokens p =
     (if keyHash = [] \<or> tokens \<le> 0 then p
      else let (s, p') = observe_seq p in observe_store perm now s keyHash tokens p')"

definition ep_Lookup :: "ExplicitProvider \<Rightarrow> walltime \<Rightarrow> PrefixQuery \<Rightarrow> MatchResult" where
  "ep_Lookup p now q =
     (if \<not> Eligible q then
        \<lparr>mr_Supported = True, mr_MatchSupported = True, mr_MatchedPrefixTokens = 0,
         mr_Confidence = 1, mr_SnapshotAgeMs = 0, mr_Reason = ''no_prefix_key''\<rparr>
      else let (recorded, conf, ageMs) = LookupKey now (pq_PrefixKeyHash q) (ep_index p)
           in if recorded = 0 then
                \<lparr>mr_Supported = True, mr_MatchSupported = True, mr_MatchedPrefixTokens = 0,
                 mr_Confidence = conf, mr_SnapshotAgeMs = ageMs, mr_Reason = ''cold_prefix''\<rparr>
              else let matched = (if recorded < pq_PrefixTokens q then recorded else pq_PrefixTokens q)
              in if conf \<le> 0 then
                \<lparr>mr_Supported = True, mr_MatchSupported = True, mr_MatchedPrefixTokens = 0,
                 mr_Confidence = 0, mr_SnapshotAgeMs = ageMs, mr_Reason = ''stale_record''\<rparr>
              else
                \<lparr>mr_Supported = True, mr_MatchSupported = True, mr_MatchedPrefixTokens = matched,
                 mr_Confidence = conf, mr_SnapshotAgeMs = ageMs, mr_Reason = ''warm_prefix''\<rparr>)"

definition ep_Snapshot :: "walltime \<Rightarrow> ExplicitProvider \<Rightarrow> ExplicitProvider \<times> CacheSnapshot" where
  "ep_Snapshot now p =
     (let (ix, s) = SnapshotMeta now (ep_index p)
      in (p\<lparr>ep_index := ix\<rparr>,
          s\<lparr>cs_Enabled := True, cs_Provider := mode_string ModeExplicit, cs_Supported := True,
            cs_MatchSupported := True, cs_KVHeadroom := ep_kvHeadroom p,
            cs_KVHeadroomSupported := ep_kvSupported p,
            cs_Ready := (if \<not> cs_Ready s then ep_started p else cs_Ready s),
            cs_SnapshotAgeMs := (if cs_SnapshotAgeMs s < 0 then 0 else cs_SnapshotAgeMs s),
            cs_UpdatedAt := (if time_IsZero (cs_UpdatedAt s) then now else cs_UpdatedAt s)\<rparr>))"

definition ep_Directory ::
  "(entries \<Rightarrow> entries) \<Rightarrow> walltime \<Rightarrow> int \<Rightarrow> ExplicitProvider \<Rightarrow> (string \<times> int) list" where
  "ep_Directory perm now mx p = Directory perm now mx (ep_index p)"

section \<open>The native-events provider\<close>

text \<open>A kind is a string in the code; every other string is \<open>EventKindOther\<close>.\<close>

datatype BlockEventKind = EventBlockStored | EventBlockRemoved | EventAllCleared | EventKindOther string

record BlockEvent =
  be_Kind :: BlockEventKind
  be_Seq :: int
  be_BlockKeyHash :: string
  be_ParentKeyHash :: string
  be_BlockSize :: int

record VLLMProvider =
  vp_cfg :: ProviderConfig
  vp_index :: Index
  vp_kvHeadroom :: f64
  vp_kvSupported :: bool
  vp_started :: bool
  vp_matchSupported :: bool

definition NewVLLMProvider :: "ProviderConfig \<Rightarrow> walltime \<Rightarrow> VLLMProvider" where
  "NewVLLMProvider cfg now =
     \<lparr>vp_cfg = cfg\<lparr>pc_Index := index_config cfg\<rparr>, vp_index = NewIndex (index_config cfg) now,
      vp_kvHeadroom = Fin 0, vp_kvSupported = False, vp_started = False,
      vp_matchSupported = False\<rparr>"

definition Ingest ::
  "(nat \<Rightarrow> entries \<Rightarrow> entries) \<Rightarrow> walltime \<Rightarrow> BlockEvent \<Rightarrow> VLLMProvider \<Rightarrow> VLLMProvider" where
  "Ingest perm now ev p =
     (case be_Kind ev of
        EventBlockStored \<Rightarrow> p\<lparr>vp_index := ApplyStore perm now (be_Seq ev) (be_BlockKeyHash ev)
          (be_ParentKeyHash ev) (be_BlockSize ev) (be_BlockSize ev) (vp_index p)\<rparr>
      | EventBlockRemoved \<Rightarrow>
          p\<lparr>vp_index := ApplyRemove now (be_Seq ev) (be_BlockKeyHash ev) (vp_index p)\<rparr>
      | EventAllCleared \<Rightarrow> p\<lparr>vp_index := ApplyClear now (be_Seq ev) (vp_index p)\<rparr>
      | EventKindOther _ \<Rightarrow> p)"

text \<open>\<open>Start\<close>: \<open>src\<close> is the attached source, if any, as the error its own \<open>Start\<close> returns. The result
  says whether the ingest loop runs, or the error.\<close>

definition vp_Start :: "string option option \<Rightarrow> VLLMProvider \<Rightarrow> VLLMProvider \<times> (string + bool)" where
  "vp_Start src p =
     (p\<lparr>vp_started := True\<rparr>,
      case src of None \<Rightarrow> Inr False | Some (Some err) \<Rightarrow> Inl err | Some None \<Rightarrow> Inr True)"

text \<open>What the \<open>select\<close> of the ingest loop may see.\<close>

datatype loop_input = LoopCtxDone | LoopClosed | LoopEvent walltime BlockEvent

fun ingestLoop ::
  "(nat \<Rightarrow> entries \<Rightarrow> entries) \<Rightarrow> loop_input list \<Rightarrow> VLLMProvider \<Rightarrow> VLLMProvider" where
  "ingestLoop perm [] p = p"
| "ingestLoop perm (LoopCtxDone # _) p = p"
| "ingestLoop perm (LoopClosed # _) p = p"
| "ingestLoop perm (LoopEvent now ev # rest) p = ingestLoop perm rest (Ingest perm now ev p)"

definition vp_OnRuntimeRestart :: "walltime \<Rightarrow> VLLMProvider \<Rightarrow> VLLMProvider" where
  "vp_OnRuntimeRestart now p = p\<lparr>vp_index := Reset now (vp_index p)\<rparr>"

definition vp_SetKVHeadroom :: "f64 \<Rightarrow> bool \<Rightarrow> VLLMProvider \<Rightarrow> VLLMProvider" where
  "vp_SetKVHeadroom h supported p = p\<lparr>vp_kvHeadroom := h, vp_kvSupported := supported\<rparr>"

definition vp_Lookup :: "VLLMProvider \<Rightarrow> walltime \<Rightarrow> PrefixQuery \<Rightarrow> MatchResult" where
  "vp_Lookup p now q =
     (if \<not> vp_matchSupported p then
        \<lparr>mr_Supported = True, mr_MatchSupported = False, mr_MatchedPrefixTokens = 0,
         mr_Confidence = 0, mr_SnapshotAgeMs = 0,
         mr_Reason = ''native_match_unsupported_on_stack''\<rparr>
      else let (recorded, conf, ageMs) = LookupKey now (pq_PrefixKeyHash q) (vp_index p)
           in if recorded = 0 \<or> conf \<le> 0 then
                \<lparr>mr_Supported = True, mr_MatchSupported = True, mr_MatchedPrefixTokens = 0,
                 mr_Confidence = conf, mr_SnapshotAgeMs = ageMs, mr_Reason = ''cold_or_stale''\<rparr>
              else
                \<lparr>mr_Supported = True, mr_MatchSupported = True,
                 mr_MatchedPrefixTokens =
                   (if recorded < pq_PrefixTokens q then recorded else pq_PrefixTokens q),
                 mr_Confidence = conf, mr_SnapshotAgeMs = ageMs, mr_Reason = ''warm_block_match''\<rparr>)"

definition vp_Directory ::
  "(entries \<Rightarrow> entries) \<Rightarrow> walltime \<Rightarrow> int \<Rightarrow> VLLMProvider \<Rightarrow> (string \<times> int) list" where
  "vp_Directory perm now mx p =
     (if \<not> vp_matchSupported p then [] else Directory perm now mx (vp_index p))"

definition vp_Snapshot :: "walltime \<Rightarrow> VLLMProvider \<Rightarrow> VLLMProvider \<times> CacheSnapshot" where
  "vp_Snapshot now p =
     (let (ix, s) = SnapshotMeta now (vp_index p)
      in (p\<lparr>vp_index := ix\<rparr>,
          s\<lparr>cs_Enabled := True, cs_Provider := mode_string ModeVLLMEvents, cs_Supported := True,
            cs_MatchSupported := vp_matchSupported p, cs_KVHeadroom := vp_kvHeadroom p,
            cs_KVHeadroomSupported := vp_kvSupported p\<rparr>))"

section \<open>Any provider\<close>

datatype Provider = PDisabled | PExplicit ExplicitProvider | PVLLM VLLMProvider

definition NewProvider :: "ProviderConfig \<Rightarrow> walltime \<Rightarrow> Provider" where
  "NewProvider cfg now =
     (case pc_Mode cfg of ModeExplicit \<Rightarrow> PExplicit (NewExplicitProvider cfg now)
      | ModeVLLMEvents \<Rightarrow> PVLLM (NewVLLMProvider cfg now) | ModeDisabled \<Rightarrow> PDisabled)"

fun prov_Lookup :: "Provider \<Rightarrow> walltime \<Rightarrow> PrefixQuery \<Rightarrow> MatchResult" where
  "prov_Lookup PDisabled now q = dis_Lookup q"
| "prov_Lookup (PExplicit p) now q = ep_Lookup p now q"
| "prov_Lookup (PVLLM p) now q = vp_Lookup p now q"

fun prov_Directory :: "(entries \<Rightarrow> entries) \<Rightarrow> walltime \<Rightarrow> int \<Rightarrow> Provider \<Rightarrow> (string \<times> int) list" where
  "prov_Directory perm now mx PDisabled = dis_Directory"
| "prov_Directory perm now mx (PExplicit p) = ep_Directory perm now mx p"
| "prov_Directory perm now mx (PVLLM p) = vp_Directory perm now mx p"

fun prov_Snapshot :: "walltime \<Rightarrow> Provider \<Rightarrow> Provider \<times> CacheSnapshot" where
  "prov_Snapshot now PDisabled = (PDisabled, dis_Snapshot)"
| "prov_Snapshot now (PExplicit p) = (let (p', s) = ep_Snapshot now p in (PExplicit p', s))"
| "prov_Snapshot now (PVLLM p) = (let (p', s) = vp_Snapshot now p in (PVLLM p', s))"

definition BuildPublicSnapshot ::
  "(entries \<Rightarrow> entries) \<Rightarrow> walltime \<Rightarrow> Provider \<Rightarrow> int \<Rightarrow>
   Provider \<times> CacheSnapshot \<times> (string \<times> int) list" where
  "BuildPublicSnapshot perm now p dirMax =
     (let (p', s) = prov_Snapshot now p in (p', s, prov_Directory perm now dirMax p'))"

section \<open>What a lookup promises\<close>

text \<open>The contract between a provider and the policies that use its answer: a match never exceeds the
  prefix the request claims, is only claimed with support and positive confidence, and confidence
  is a number in the unit interval.\<close>

locale cache_lookup =
  fixes lookup :: "'p \<Rightarrow> walltime \<Rightarrow> PrefixQuery \<Rightarrow> MatchResult"
    and usable :: "'p \<Rightarrow> walltime \<Rightarrow> bool"
  assumes matched_claim: "usable p now \<Longrightarrow> 0 \<le> pq_PrefixTokens q \<Longrightarrow>
      0 \<le> mr_MatchedPrefixTokens (lookup p now q) \<and>
      mr_MatchedPrefixTokens (lookup p now q) \<le> pq_PrefixTokens q"
    and matched_support: "usable p now \<Longrightarrow> mr_MatchedPrefixTokens (lookup p now q) > 0 \<Longrightarrow>
      mr_Supported (lookup p now q) \<and> mr_MatchSupported (lookup p now q) \<and>
      0 < mr_Confidence (lookup p now q)"
    and confidence_unit: "usable p now \<Longrightarrow>
      0 \<le> mr_Confidence (lookup p now q) \<and> mr_Confidence (lookup p now q) \<le> 1"
begin

lemma uncached_range:
  assumes "usable p now" and "0 \<le> pq_PrefixTokens q" and "pq_PrefixTokens q \<le> input"
  shows "0 \<le> input - mr_MatchedPrefixTokens (lookup p now q)"
    and "input - mr_MatchedPrefixTokens (lookup p now q) \<le> input"
  using matched_claim [OF assms(1,2)] assms(3) by auto

lemma unsupported_no_match:
  assumes "usable p now" and "0 \<le> pq_PrefixTokens q" and "\<not> mr_MatchSupported (lookup p now q)"
  shows "mr_MatchedPrefixTokens (lookup p now q) = 0"
  using matched_claim [OF assms(1,2)] matched_support [OF assms(1), of q] assms(3) by fastforce

end

definition tokens_positive :: "Index \<Rightarrow> bool" where
  "tokens_positive i \<longleftrightarrow> (\<forall>ke \<in> set (ix_entries i). 0 < e_MatchedTokens (snd ke))"

definition index_usable :: "Index \<Rightarrow> walltime \<Rightarrow> bool" where
  "index_usable i now \<longleftrightarrow> tokens_positive i \<and> ix_lastUpdate i \<le> now"

lemma confidence_unit_interval:
  assumes "ix_lastUpdate i \<le> now"
  shows "0 \<le> confidenceLocked now i" and "confidenceLocked now i \<le> 1"
  using freshness_range [OF assms] gap_penalty_range [of "ix_sequenceGaps i"]
  by (auto simp: confidence_product intro: mult_le_one)

lemma LookupKey_usable:
  assumes "index_usable i now"
  shows "0 \<le> fst (LookupKey now k i)" and "0 \<le> fst (snd (LookupKey now k i))"
    and "fst (snd (LookupKey now k i)) \<le> 1"
proof -
  show "0 \<le> fst (LookupKey now k i)"
  proof (cases "isStaleLocked now i")
    case False
    with assms show ?thesis
      by (auto simp: LookupKey_tokens index_usable_def tokens_positive_def split: option.split
          dest!: map_of_SomeD)
  qed (simp add: LookupKey_def)
  show "0 \<le> fst (snd (LookupKey now k i))" "fst (snd (LookupKey now k i)) \<le> 1"
    using assms confidence_unit_interval by (auto simp: LookupKey_confidence index_usable_def)
qed

fun prov_usable :: "Provider \<Rightarrow> walltime \<Rightarrow> bool" where
  "prov_usable PDisabled now \<longleftrightarrow> True"
| "prov_usable (PExplicit p) now \<longleftrightarrow> index_usable (ep_index p) now"
| "prov_usable (PVLLM p) now \<longleftrightarrow> index_usable (vp_index p) now"

interpretation disabled: cache_lookup "\<lambda>_ _. dis_Lookup" "\<lambda>_ _. True"
  by unfold_locales (simp_all add: dis_Lookup_def NoMatch_def)

interpretation explicit: cache_lookup ep_Lookup "\<lambda>p. index_usable (ep_index p)"
proof
  fix p :: ExplicitProvider and now and q :: PrefixQuery
  assume u: "index_usable (ep_index p) now"
  note L = LookupKey_usable [OF u, of "pq_PrefixKeyHash q"]
  show "0 \<le> pq_PrefixTokens q \<Longrightarrow> 0 \<le> mr_MatchedPrefixTokens (ep_Lookup p now q) \<and>
      mr_MatchedPrefixTokens (ep_Lookup p now q) \<le> pq_PrefixTokens q"
    using L(1) by (cases "LookupKey now (pq_PrefixKeyHash q) (ep_index p)") (auto simp: ep_Lookup_def)
  show "mr_MatchedPrefixTokens (ep_Lookup p now q) > 0 \<Longrightarrow> mr_Supported (ep_Lookup p now q) \<and>
      mr_MatchSupported (ep_Lookup p now q) \<and> 0 < mr_Confidence (ep_Lookup p now q)"
    by (cases "LookupKey now (pq_PrefixKeyHash q) (ep_index p)")
       (auto simp: ep_Lookup_def Let_def split: if_splits)
  show "0 \<le> mr_Confidence (ep_Lookup p now q) \<and> mr_Confidence (ep_Lookup p now q) \<le> 1"
    using L(2,3) by (cases "LookupKey now (pq_PrefixKeyHash q) (ep_index p)")
      (auto simp: ep_Lookup_def Let_def)
qed

interpretation native: cache_lookup vp_Lookup "\<lambda>p. index_usable (vp_index p)"
proof
  fix p :: VLLMProvider and now and q :: PrefixQuery
  assume u: "index_usable (vp_index p) now"
  note L = LookupKey_usable [OF u, of "pq_PrefixKeyHash q"]
  show "0 \<le> pq_PrefixTokens q \<Longrightarrow> 0 \<le> mr_MatchedPrefixTokens (vp_Lookup p now q) \<and>
      mr_MatchedPrefixTokens (vp_Lookup p now q) \<le> pq_PrefixTokens q"
    using L(1) by (cases "LookupKey now (pq_PrefixKeyHash q) (vp_index p)") (auto simp: vp_Lookup_def)
  show "mr_MatchedPrefixTokens (vp_Lookup p now q) > 0 \<Longrightarrow> mr_Supported (vp_Lookup p now q) \<and>
      mr_MatchSupported (vp_Lookup p now q) \<and> 0 < mr_Confidence (vp_Lookup p now q)"
    by (cases "LookupKey now (pq_PrefixKeyHash q) (vp_index p)")
       (auto simp: vp_Lookup_def Let_def split: if_splits)
  show "0 \<le> mr_Confidence (vp_Lookup p now q) \<and> mr_Confidence (vp_Lookup p now q) \<le> 1"
    using L(2,3) by (cases "LookupKey now (pq_PrefixKeyHash q) (vp_index p)")
      (auto simp: vp_Lookup_def Let_def)
qed

interpretation prov: cache_lookup prov_Lookup prov_usable
proof
  fix p now q
  assume u: "prov_usable p now"
  show "0 \<le> pq_PrefixTokens q \<Longrightarrow> 0 \<le> mr_MatchedPrefixTokens (prov_Lookup p now q) \<and>
      mr_MatchedPrefixTokens (prov_Lookup p now q) \<le> pq_PrefixTokens q"
    using u disabled.matched_claim explicit.matched_claim native.matched_claim by (cases p) auto
  show "mr_MatchedPrefixTokens (prov_Lookup p now q) > 0 \<Longrightarrow> mr_Supported (prov_Lookup p now q) \<and>
      mr_MatchSupported (prov_Lookup p now q) \<and> 0 < mr_Confidence (prov_Lookup p now q)"
    using u disabled.matched_support explicit.matched_support native.matched_support
    by (cases p) auto
  show "0 \<le> mr_Confidence (prov_Lookup p now q) \<and> mr_Confidence (prov_Lookup p now q) \<le> 1"
    using u disabled.confidence_unit explicit.confidence_unit native.confidence_unit
    by (cases p) auto
qed

section \<open>The explicit provider refines a map\<close>

datatype ('m, 'k, 'v) keyed_op = KStore 'm 'k 'v | KWipe 'm

text \<open>A store of values under keys with room for \<open>bound\<close> of them: what is found is what a map that is
  updated and wiped by the same operations holds.\<close>

locale keyed_store =
  fixes find :: "'s \<Rightarrow> 'k \<Rightarrow> 'v option"
    and store :: "'s \<Rightarrow> 'm \<Rightarrow> 'k \<Rightarrow> 'v \<Rightarrow> 's"
    and wipe :: "'s \<Rightarrow> 'm \<Rightarrow> 's"
    and used :: "'s \<Rightarrow> nat"
    and bound :: nat
    and valid :: "'s \<Rightarrow> bool"
    and storable :: "'k \<Rightarrow> 'v \<Rightarrow> bool"
  assumes valid_store: "valid s \<Longrightarrow> storable k v \<Longrightarrow> used s < bound \<Longrightarrow> valid (store s m k v)"
    and valid_wipe: "valid s \<Longrightarrow> valid (wipe s m)"
    and find_store: "valid s \<Longrightarrow> storable k v \<Longrightarrow> used s < bound \<Longrightarrow>
      find (store s m k v) = (find s)(k \<mapsto> v)"
    and find_wipe: "valid s \<Longrightarrow> find (wipe s m) = (\<lambda>_. None)"
    and used_store: "valid s \<Longrightarrow> storable k v \<Longrightarrow> used s < bound \<Longrightarrow> used (store s m k v) \<le> Suc (used s)"
    and used_wipe: "valid s \<Longrightarrow> used (wipe s m) \<le> used s"
begin

fun run :: "'s \<Rightarrow> ('m, 'k, 'v) keyed_op list \<Rightarrow> 's" where
  "run s [] = s"
| "run s (KStore m k v # ops) = run (store s m k v) ops"
| "run s (KWipe m # ops) = run (wipe s m) ops"

fun abstract :: "('k \<Rightarrow> 'v option) \<Rightarrow> ('m, 'k, 'v) keyed_op list \<Rightarrow> 'k \<Rightarrow> 'v option" where
  "abstract f [] = f"
| "abstract f (KStore m k v # ops) = abstract (f(k \<mapsto> v)) ops"
| "abstract f (KWipe m # ops) = abstract (\<lambda>_. None) ops"

fun all_storable :: "('m, 'k, 'v) keyed_op list \<Rightarrow> bool" where
  "all_storable [] \<longleftrightarrow> True"
| "all_storable (KStore m k v # ops) \<longleftrightarrow> storable k v \<and> all_storable ops"
| "all_storable (KWipe m # ops) \<longleftrightarrow> all_storable ops"

lemma run_refines:
  "valid s \<Longrightarrow> all_storable ops \<Longrightarrow> used s + length ops \<le> bound \<Longrightarrow>
   find (run s ops) = abstract (find s) ops"
proof (induction s ops rule: run.induct)
  case (2 s m k v ops)
  then have "used (store s m k v) + length ops \<le> bound" using used_store [of s k v m] by simp
  with 2 show ?case by (simp add: valid_store find_store)
next
  case (3 s m ops)
  then have "used (wipe s m) + length ops \<le> bound" using used_wipe [of s m] by simp
  with 3 show ?case by (simp add: valid_wipe find_wipe)
qed simp

end

type_synonym obs_meta = "(nat \<Rightarrow> entries \<Rightarrow> entries) \<times> walltime"

definition ep_recorded :: "ExplicitProvider \<Rightarrow> string \<Rightarrow> int option" where
  "ep_recorded p k = (case map_of (ix_entries (ep_index p)) k of None \<Rightarrow> None
     | Some e \<Rightarrow> if e_Present e then Some (e_MatchedTokens e) else None)"

definition ep_observe :: "ExplicitProvider \<Rightarrow> obs_meta \<Rightarrow> string \<Rightarrow> int \<Rightarrow> ExplicitProvider" where
  "ep_observe p m k tokens = Observe (fst m) (snd m) k tokens p"

definition ep_restart :: "ExplicitProvider \<Rightarrow> obs_meta \<Rightarrow> ExplicitProvider" where
  "ep_restart p m = ep_OnRuntimeRestart (snd m) p"

definition ep_valid :: "nat \<Rightarrow> ExplicitProvider \<Rightarrow> bool" where
  "ep_valid n p \<longleftrightarrow> ic_MaxEntries (ix_cfg (ep_index p)) = int n \<and>
     (\<forall>k e. map_of (ix_entries (ep_index p)) k = Some e \<longrightarrow> e_LastSeq e \<le> ep_seq p)"

lemma evict_room:
  "int (length (ix_entries i)) \<le> ic_MaxEntries (ix_cfg i) \<Longrightarrow> evictIfNeededLocked perm i = i"
  by (simp add: evictIfNeededLocked_def)

lemma store_with_room:
  assumes "\<And>e. map_of (ix_entries i) k = Some e \<Longrightarrow> e_LastSeq e \<noteq> seq"
    and "int (length (ix_entries i)) < ic_MaxEntries (ix_cfg i)" and "0 < tok"
  shows "\<exists>e. ApplyStore perm now seq k parent tok bs i =
      (after_seq now seq i)\<lparr>ix_entries := AList.update k e (ix_entries i)\<rparr> \<and>
      e_Present e \<and> e_MatchedTokens e = tok \<and> e_LastSeq e = seq"
proof (cases "map_of (ix_entries i) k")
  case None
  with assms(2,3) show ?thesis
    by (intro exI [of _ "\<lparr>e_Key = k, e_Parent = parent, e_MatchedTokens = tok, e_BlockSize = bs,
        e_Present = True, e_LastSeq = seq, e_UpdatedAt = now\<rparr>"])
       (simp add: ApplyStore_cases Let_def evict_room length_update_new)
next
  case (Some e)
  with assms(1) [OF Some] assms(3) show ?thesis
    by (auto simp: ApplyStore_cases Let_def)
qed

lemma ep_observe_index:
  assumes "ep_valid n p" and "k \<noteq> []" and "0 < v" and "length (ix_entries (ep_index p)) < n"
  shows "\<exists>e. ep_observe p m k v = p\<lparr>ep_seq := ep_seq p + 1, ep_index :=
      (after_seq (snd m) (ep_seq p + 1) (ep_index p))
        \<lparr>ix_entries := AList.update k e (ix_entries (ep_index p))\<rparr>\<rparr> \<and>
     e_Present e \<and> e_MatchedTokens e = v \<and> e_LastSeq e = ep_seq p + 1"
proof -
  have fresh: "e_LastSeq e \<noteq> ep_seq p + 1" if "map_of (ix_entries (ep_index p)) k = Some e" for e
    using assms(1) that by (fastforce simp: ep_valid_def)
  have room: "int (length (ix_entries (ep_index p))) < ic_MaxEntries (ix_cfg (ep_index p))"
    using assms(1,4) by (simp add: ep_valid_def)
  have o: "ep_observe p m k v = p\<lparr>ep_seq := ep_seq p + 1,
      ep_index := ApplyStore (fst m) (snd m) (ep_seq p + 1) k [] v 0 (ep_index p)\<rparr>"
    using assms(2,3) by (simp add: ep_observe_def Observe_def observe_seq_def observe_store_def)
  from store_with_room [OF fresh room assms(3), where perm = "fst m" and now = "snd m"]
  show ?thesis unfolding o by metis
qed

interpretation warm: keyed_store ep_recorded ep_observe ep_restart
  "\<lambda>p. length (ix_entries (ep_index p))" n "ep_valid n" "\<lambda>k v. k \<noteq> [] \<and> 0 < v"
proof
  fix p :: ExplicitProvider and m :: obs_meta and k :: string and v :: int
  assume a: "ep_valid n p" "k \<noteq> [] \<and> 0 < v" "length (ix_entries (ep_index p)) < n"
  obtain e where e: "ep_observe p m k v = p\<lparr>ep_seq := ep_seq p + 1, ep_index :=
      (after_seq (snd m) (ep_seq p + 1) (ep_index p))
        \<lparr>ix_entries := AList.update k e (ix_entries (ep_index p))\<rparr>\<rparr>"
      "e_Present e" "e_MatchedTokens e = v" "e_LastSeq e = ep_seq p + 1"
    using ep_observe_index [OF a(1) _ _ a(3)] a(2) by blast
  show "ep_valid n (ep_observe p m k v)"
    using a(1) e(4) unfolding e(1) by (fastforce simp: ep_valid_def update_conv')
  show "ep_recorded (ep_observe p m k v) = (ep_recorded p)(k \<mapsto> v)"
    using e(2,3) unfolding e(1) by (simp add: ep_recorded_def update_conv' fun_eq_iff)
  show "length (ix_entries (ep_index (ep_observe p m k v))) \<le> Suc (length (ix_entries (ep_index p)))"
    unfolding e(1) by (cases "map_of (ix_entries (ep_index p)) k")
      (simp_all add: length_update_new length_update_known)
next
  fix p :: ExplicitProvider and m :: obs_meta
  assume "ep_valid n p"
  then show "ep_valid n (ep_restart p m)"
    by (simp add: ep_valid_def ep_restart_def ep_OnRuntimeRestart_def Reset_def)
  show "ep_recorded (ep_restart p m) = (\<lambda>_. None)"
    by (simp add: ep_recorded_def ep_restart_def ep_OnRuntimeRestart_def Reset_def fun_eq_iff)
  show "length (ix_entries (ep_index (ep_restart p m))) \<le> length (ix_entries (ep_index p))"
    by (simp add: ep_restart_def ep_OnRuntimeRestart_def Reset_def)
qed

section \<open>Runs of a provider\<close>

datatype ProviderOp =
    PObserve "nat \<Rightarrow> entries \<Rightarrow> entries" walltime string int
  | PIngest "nat \<Rightarrow> entries \<Rightarrow> entries" walltime BlockEvent
  | PRestart walltime | PHeadroom f64 bool | PStart | PSnapshot walltime

fun prov_apply :: "Provider \<Rightarrow> ProviderOp \<Rightarrow> Provider" where
  "prov_apply (PExplicit p) (PObserve perm now k tokens) = PExplicit (Observe perm now k tokens p)"
| "prov_apply (PVLLM p) (PIngest perm now ev) = PVLLM (Ingest perm now ev p)"
| "prov_apply (PExplicit p) (PRestart now) = PExplicit (ep_OnRuntimeRestart now p)"
| "prov_apply (PVLLM p) (PRestart now) = PVLLM (vp_OnRuntimeRestart now p)"
| "prov_apply (PExplicit p) (PHeadroom h b) = PExplicit (ep_SetKVHeadroom h b p)"
| "prov_apply (PVLLM p) (PHeadroom h b) = PVLLM (vp_SetKVHeadroom h b p)"
| "prov_apply (PExplicit p) PStart = PExplicit (ep_Start p)"
| "prov_apply (PVLLM p) PStart = PVLLM (fst (vp_Start None p))"
| "prov_apply p (PSnapshot now) = fst (prov_Snapshot now p)"
| "prov_apply p _ = p"

text \<open>The clock has reached \<open>now\<close>, native events name blocks of positive size.\<close>

fun prov_legal :: "walltime \<Rightarrow> ProviderOp \<Rightarrow> bool" where
  "prov_legal now (PObserve perm t k tokens) \<longleftrightarrow> t \<le> now"
| "prov_legal now (PIngest perm t ev) \<longleftrightarrow> t \<le> now \<and> 0 < be_BlockSize ev"
| "prov_legal now _ \<longleftrightarrow> True"

lemma set_update_subset: "set (AList.update k e es) \<subseteq> insert (k, e) (set es)"
  by (induction es) auto

lemma set_delete_subset: "set (AList.delete k es) \<subseteq> set es"
  by (auto simp: AList.delete_eq)

lemma tokens_positive_update:
  assumes "tokens_positive i" and "0 < e_MatchedTokens e"
  shows "tokens_positive (j\<lparr>ix_entries := AList.update k e (ix_entries i)\<rparr>)"
  using assms set_update_subset [of k e "ix_entries i"] by (auto simp: tokens_positive_def)

lemma usable_evict:
  "index_usable i now \<Longrightarrow> index_usable (evict perm n i) now"
proof (induction n arbitrary: i)
  case (Suc n)
  let ?k = "oldest_key (perm n (ix_entries i))"
  have "index_usable (i\<lparr>ix_entries := AList.delete ?k (ix_entries i),
      ix_eventsDropped := ix_eventsDropped i + 1\<rparr>) now"
    using Suc.prems set_delete_subset by (fastforce simp: index_usable_def tokens_positive_def)
  from Suc.IH [OF this] Suc.prems show ?case by (simp add: Let_def)
qed simp

lemma usable_entry:
  assumes "index_usable i now" and "map_of (ix_entries i) k = Some e"
  shows "0 < e_MatchedTokens e"
  using assms map_of_SomeD [OF assms(2)] by (fastforce simp: index_usable_def tokens_positive_def)

lemma usable_after:
  assumes "index_usable i now" and "t \<le> now"
  shows "index_usable (after_seq t seq i) now"
    and "0 < e_MatchedTokens e \<Longrightarrow>
      index_usable ((after_seq t seq i)\<lparr>ix_entries := AList.update k e (ix_entries i)\<rparr>) now"
  using assms tokens_positive_update [of i e]
  by (simp_all add: index_usable_def) (simp_all add: tokens_positive_def)

lemma usable_store:
  assumes "index_usable i now" and "t \<le> now" and "0 < tok"
  shows "index_usable (ApplyStore perm t seq k parent tok bs i) now"
proof (cases "map_of (ix_entries i) k")
  case None
  then show ?thesis using usable_after(2) [OF assms(1,2)] assms(3)
    by (simp add: ApplyStore_cases Let_def evictIfNeededLocked_def usable_evict)
next
  case (Some e)
  then show ?thesis using usable_after [OF assms(1,2)] assms(3)
    by (simp add: ApplyStore_cases Let_def) (simp add: index_usable_def tokens_positive_def)
qed

lemma usable_remove:
  assumes "index_usable i now" and "t \<le> now"
  shows "index_usable (ApplyRemove t seq k i) now"
  using usable_after [OF assms] usable_entry [OF assms(1)]
  by (simp add: ApplyRemove_cases Let_def split: option.split)

lemma usable_empty:
  "t \<le> now \<Longrightarrow> index_usable (ApplyClear t seq i) now"
  "0 \<le> now \<Longrightarrow> index_usable (Reset t i) now"
  "0 \<le> now \<Longrightarrow> index_usable (NewIndex cfg t) now"
  by (simp_all add: index_usable_def tokens_positive_def ApplyClear_cases Reset_def NewIndex_def Let_def)

lemma usable_snapshot: "index_usable i now \<Longrightarrow> index_usable (fst (SnapshotMeta t i)) now"
  by (simp add: index_usable_def tokens_positive_def SnapshotMeta_def Let_def)

lemmas usable_intros = usable_store usable_remove usable_empty usable_snapshot

lemma usable_observe:
  "index_usable (ep_index p) now \<Longrightarrow> t \<le> now \<Longrightarrow> index_usable (ep_index (Observe perm t k tok p)) now"
  by (auto simp: Observe_def observe_seq_def observe_store_def intro: usable_store)

lemma usable_ingest:
  "index_usable (vp_index p) now \<Longrightarrow> t \<le> now \<Longrightarrow> 0 < be_BlockSize ev \<Longrightarrow>
   index_usable (vp_index (Ingest perm t ev p)) now"
  by (cases "be_Kind ev") (simp_all add: Ingest_def usable_intros)

lemma usable_step:
  assumes "0 \<le> now" and "prov_usable p now" and "prov_legal now op"
  shows "prov_usable (prov_apply p op) now"
proof (cases p)
  case PDisabled
  then show ?thesis using assms by (cases op) auto
next
  case (PExplicit q)
  then show ?thesis using assms
    by (cases op) (auto simp: usable_observe ep_OnRuntimeRestart_def usable_intros ep_SetKVHeadroom_def
        ep_Start_def ep_Snapshot_def split: prod.split dest!: arg_cong [where f = fst]
        intro: subst [where P = "\<lambda>i. index_usable i now", OF _ usable_snapshot])
next
  case (PVLLM q)
  then show ?thesis using assms
    by (cases op) (auto simp: usable_ingest vp_OnRuntimeRestart_def usable_intros vp_SetKVHeadroom_def
        vp_Start_def vp_Snapshot_def split: prod.split dest!: arg_cong [where f = fst]
        intro: subst [where P = "\<lambda>i. index_usable i now", OF _ usable_snapshot])
qed

lemma usable_new: "0 \<le> now \<Longrightarrow> prov_usable (NewProvider cfg t) now"
  by (cases "pc_Mode cfg")
     (simp_all add: NewProvider_def NewExplicitProvider_def NewVLLMProvider_def usable_empty)

interpretation provm: guarded_machine "NewProvider cfg t0" prov_apply
  "\<lambda>p. prov_usable p (int now)" "prov_legal (int now)"
  by unfold_locales (simp_all add: usable_new usable_step)

section \<open>Sequence numbers of the explicit provider\<close>

text \<open>Calls that do not overlap hand the index consecutive numbers.\<close>

definition seq_synced :: "ExplicitProvider \<Rightarrow> bool" where
  "seq_synced p \<longleftrightarrow> ix_sequenceGaps (ep_index p) = 0 \<and> ix_outOfOrder (ep_index p) = 0 \<and>
     (ix_haveSeq (ep_index p) \<longrightarrow> ix_lastSeq (ep_index p) = ep_seq p)"

lemma evict_seq [simp]:
  "ix_outOfOrder (evict perm n i) = ix_outOfOrder i" "ix_haveSeq (evict perm n i) = ix_haveSeq i"
  "ix_lastSeq (evict perm n i) = ix_lastSeq i"
  by (induction n arbitrary: i) (simp_all add: Let_def)

lemma store_seq:
  "ix_sequenceGaps (ApplyStore perm t seq k par tok bs i) = ix_sequenceGaps (after_seq t seq i)"
  "ix_outOfOrder (ApplyStore perm t seq k par tok bs i) = ix_outOfOrder (after_seq t seq i)"
  "ix_haveSeq (ApplyStore perm t seq k par tok bs i) = ix_haveSeq (after_seq t seq i)"
  "ix_lastSeq (ApplyStore perm t seq k par tok bs i) = ix_lastSeq (after_seq t seq i)"
  by (simp_all add: ApplyStore_cases Let_def evictIfNeededLocked_def split: option.split)

lemma synced_observe: "seq_synced p \<Longrightarrow> seq_synced (Observe perm t k tok p)"
  by (auto simp: seq_synced_def Observe_def observe_seq_def observe_store_def store_seq after_seq_def
      checkSeqLocked_def)

definition explicit_synced :: "Provider \<Rightarrow> bool" where
  "explicit_synced p \<longleftrightarrow> (\<exists>q. p = PExplicit q \<and> seq_synced q)"

lemma synced_step: "explicit_synced p \<Longrightarrow> explicit_synced (prov_apply p op)"
  unfolding explicit_synced_def
proof (cases op)
  case (PObserve perm t k tok)
  then show "\<exists>q. p = PExplicit q \<and> seq_synced q \<Longrightarrow>
      \<exists>q. prov_apply p op = PExplicit q \<and> seq_synced q"
    using synced_observe by auto
qed (auto simp: seq_synced_def ep_OnRuntimeRestart_def Reset_def
      ep_SetKVHeadroom_def ep_Start_def ep_Snapshot_def SnapshotMeta_def Let_def)

interpretation seqm: inv_machine "PExplicit (NewExplicitProvider cfg t0)" prov_apply explicit_synced
  by unfold_locales
     (simp add: explicit_synced_def seq_synced_def NewExplicitProvider_def NewIndex_def Let_def,
      rule synced_step)

lemma ep_Lookup_recorded:
  assumes "0 < mr_MatchedPrefixTokens (ep_Lookup p now q)"
  shows "\<exists>v. ep_recorded p (pq_PrefixKeyHash q) = Some v \<and>
     mr_MatchedPrefixTokens (ep_Lookup p now q) = min v (pq_PrefixTokens q)"
proof -
  obtain r c a where L: "LookupKey now (pq_PrefixKeyHash q) (ep_index p) = (r, c, a)"
    by (cases "LookupKey now (pq_PrefixKeyHash q) (ep_index p)") auto
  have m: "mr_MatchedPrefixTokens (ep_Lookup p now q) = min r (pq_PrefixTokens q)" "r \<noteq> 0"
    using assms by (auto simp: ep_Lookup_def L Let_def split: if_splits)
  have "\<not> isStaleLocked now (ep_index p)" using L m(2) by (auto simp: LookupKey_def)
  from LookupKey_tokens [OF this, of "pq_PrefixKeyHash q"] L m(2)
  have "ep_recorded p (pq_PrefixKeyHash q) = Some r"
    by (auto simp: ep_recorded_def fresh_entry_def split: option.splits if_splits)
  with m show ?thesis by blast
qed

lemma ep_valid_new:
  assumes "0 < ic_MaxEntries (pc_Index cfg)"
  shows "ep_valid (nat (ic_MaxEntries (pc_Index cfg))) (NewExplicitProvider cfg t0)"
    and "ix_entries (ep_index (NewExplicitProvider cfg t0)) = []"
  using assms by (auto simp: ep_valid_def NewExplicitProvider_def index_config_def NewIndex_def Let_def)

section \<open>Properties\<close>

text \<open>C22: What any provider answers can be used as it stands. In every mode, after any sequence of
  observations, native events, restarts and snapshots up to the time of the lookup, the number of
  matched tokens is between zero and the prefix the request claims, so that the uncached rest of the
  input is between zero and the input; the confidence is in the unit interval; and a positive match
  comes with match support and positive confidence.\<close>

theorem provider_lookup_sound:
  fixes now :: nat and q :: PrefixQuery and cfg :: ProviderConfig
  defines "r \<equiv> \<lambda>ops t0. prov_Lookup (foldl prov_apply (NewProvider cfg t0) ops) (int now) q"
  assumes ops: "list_all (prov_legal (int now)) ops"
    and claim: "0 \<le> pq_PrefixTokens q" "pq_PrefixTokens q \<le> input"
  shows "0 \<le> mr_MatchedPrefixTokens (r ops t0) \<and>
     mr_MatchedPrefixTokens (r ops t0) \<le> pq_PrefixTokens q \<and>
     0 \<le> input - mr_MatchedPrefixTokens (r ops t0) \<and>
     0 \<le> mr_Confidence (r ops t0) \<and> mr_Confidence (r ops t0) \<le> 1 \<and>
     (mr_MatchedPrefixTokens (r ops t0) > 0 \<longrightarrow>
        mr_Supported (r ops t0) \<and> mr_MatchSupported (r ops t0) \<and> 0 < mr_Confidence (r ops t0))"
proof -
  note u = provm.guarded_run [OF ops, of cfg t0]
  show ?thesis
    using prov.matched_claim [OF u claim(1)] prov.confidence_unit [OF u]
      prov.matched_support [OF u] prov.uncached_range(1) [OF u claim]
    by (simp add: r_def)
qed

text \<open>C23: The explicit provider is a map from keys to token counts. As long as no more than
  \<open>MaxEntries\<close> operations were made, what it has recorded after any sequence of observations and
  runtime restarts is what a map holds that is updated by each observation and emptied by each
  restart; and a lookup that reports a match reports the smaller of that map's value and the
  prefix the request claims. In particular nothing observed before a restart is ever matched.\<close>

theorem explicit_refines_map:
  fixes ops :: "(obs_meta, string, int) keyed_op list" and cfg :: ProviderConfig and t0 :: walltime
  defines "p \<equiv> warm.run (NewExplicitProvider cfg t0) ops"
    and "m \<equiv> warm.abstract (\<lambda>_. None) ops"
  assumes "0 < ic_MaxEntries (pc_Index cfg)"
    and "warm.all_storable ops" and "int (length ops) \<le> ic_MaxEntries (pc_Index cfg)"
  shows "ep_recorded p = m \<and>
     (0 < mr_MatchedPrefixTokens (ep_Lookup p now q) \<longrightarrow>
       (\<exists>v. m (pq_PrefixKeyHash q) = Some v \<and>
          mr_MatchedPrefixTokens (ep_Lookup p now q) = min v (pq_PrefixTokens q)))"
proof -
  note new = ep_valid_new [OF assms(3), of t0]
  have "ep_recorded (NewExplicitProvider cfg t0) = (\<lambda>_. None)"
    by (simp add: fun_eq_iff ep_recorded_def new(2))
  then have "ep_recorded p = m"
    using warm.run_refines [OF new(1) assms(4)] assms(5) new(2) by (simp add: p_def m_def)
  with ep_Lookup_recorded [of p now q] show ?thesis by simp
qed

text \<open>A race between observations costs confidence for good. Calls that do not overlap never
  count a sequence gap or an event out of order. But the sequence number is taken before the index
  lock, so two overlapping calls can store in the opposite order: the index then counts one gap and
  one event out of order although nothing was lost, and the confidence is down to 3/4 at the very
  moment of the store.\<close>

lemma observe_race_counts_gap:
  fixes cfg :: ProviderConfig and ops :: "ProviderOp list"
  defines "p0 \<equiv> Observe (\<lambda>_ es. es) 1 ''a'' 10
      (NewExplicitProvider \<lparr>pc_Mode = ModeExplicit, pc_Index = DefaultIndexConfig,
         pc_ExplicitHeaderEnabled = True, pc_EventEndpoint = []\<rparr> 0)"
  defines "raced \<equiv> (let (s1, p1) = observe_seq p0; (s2, p2) = observe_seq p1
      in observe_store (\<lambda>_ es. es) 2 s1 ''b'' 10 (observe_store (\<lambda>_ es. es) 2 s2 ''c'' 10 p2))"
  shows "(\<exists>p. foldl prov_apply (PExplicit (NewExplicitProvider cfg t0)) ops = PExplicit p \<and>
        ix_sequenceGaps (ep_index p) = 0 \<and> ix_outOfOrder (ep_index p) = 0) \<and>
     ix_sequenceGaps (ep_index raced) = 1 \<and> ix_outOfOrder (ep_index raced) = 1 \<and>
     confidenceLocked 2 (ep_index raced) = 3 / 4"
proof (intro conjI)
  show "\<exists>p. foldl prov_apply (PExplicit (NewExplicitProvider cfg t0)) ops = PExplicit p \<and>
      ix_sequenceGaps (ep_index p) = 0 \<and> ix_outOfOrder (ep_index p) = 0"
    using seqm.inv_run [of cfg t0 ops] by (auto simp: explicit_synced_def seq_synced_def)
  note d = raced_def p0_def observe_seq_def observe_store_def Observe_def NewExplicitProvider_def
    index_config_def NewIndex_def DefaultIndexConfig_def Let_def ApplyStore_def checkSeqLocked_def
    evictIfNeededLocked_def
  show "ix_sequenceGaps (ep_index raced) = 1" "ix_outOfOrder (ep_index raced) = 1"
    by (simp_all add: d)
  show "confidenceLocked 2 (ep_index raced) = 3 / 4"
    by (simp add: confidence_product d isStaleLocked_def freshness_def gap_penalty_def time_IsZero_def)
qed

section \<open>Examples\<close>

definition sample_cfg :: ProviderConfig where
  "sample_cfg = \<lparr>pc_Mode = ModeExplicit, pc_Index = DefaultIndexConfig,
     pc_ExplicitHeaderEnabled = True, pc_EventEndpoint = []\<rparr>"

definition sample_query :: PrefixQuery where
  "sample_query = \<lparr>pq_PrefixKeyHash = ''a'', pq_PrefixTokens = 5\<rparr>"

theorem provider_lookup_sound_witness:
  "mr_MatchedPrefixTokens (prov_Lookup
     (foldl prov_apply (NewProvider sample_cfg 0) [PObserve (\<lambda>_ es. es) 1 ''a'' 10]) (int 2) sample_query)
   \<le> 5"
  using provider_lookup_sound [of 2 "[PObserve (\<lambda>_ es. es) 1 ''a'' 10]" sample_query 8 sample_cfg 0]
  by (simp add: sample_query_def)

theorem explicit_refines_map_witness:
  "ep_recorded (warm.run (NewExplicitProvider sample_cfg 0)
     [KStore (\<lambda>_ es. es, 1) ''a'' 10, KWipe (\<lambda>_ es. es, 2), KStore (\<lambda>_ es. es, 3) ''b'' 7]) =
   [''b'' \<mapsto> 7]"
  using explicit_refines_map [of sample_cfg
      "[KStore (\<lambda>_ es. es, 1) ''a'' 10, KWipe (\<lambda>_ es. es, 2), KStore (\<lambda>_ es. es, 3) ''b'' 7]" 0]
  by (simp add: sample_cfg_def DefaultIndexConfig_def)

end
