(* ===== verification/Work_Accounting.thy ===== *)
theory Work_Accounting
  imports Go_Prelude
begin

text \<open>
  The token-level work accountant of \<open>internal/dataplane/work.go\<close>. The decode estimate of a request
  is its \<open>max_tokens\<close>, which a client chooses, so the counters are kept at their width: \<open>64 word\<close>
  read as signed. Each method is one critical section.

  A step relation over the reservations that are pending and active shows that the counters are
  the sums over them as long as no sum reaches \<open>2^63\<close>, and a run shows how clamping at zero loses a
  reservation when one does.
\<close>

section \<open>The accountant\<close>

record WorkAccountant =
  wa_reservedUncachedPrefill :: "64 word"
  wa_reservedDecode :: "64 word"
  wa_activeUncachedPrefill :: "64 word"
  wa_activeDecode :: "64 word"
  wa_totalReservedPrefill :: "64 word"
  wa_totalReservedDecode :: "64 word"

definition NewWorkAccountant :: WorkAccountant where
  "NewWorkAccountant = \<lparr>wa_reservedUncachedPrefill = 0, wa_reservedDecode = 0,
     wa_activeUncachedPrefill = 0, wa_activeDecode = 0, wa_totalReservedPrefill = 0,
     wa_totalReservedDecode = 0\<rparr>"

definition WorkConfidenceThreshold :: real where
  "WorkConfidenceThreshold = 30 / 100"

definition clamp_neg :: "64 word \<Rightarrow> 64 word" where
  "clamp_neg x = (if sint x < 0 then 0 else x)"

text \<open>The size of a reservation: the uncached prefill and the decode tokens.\<close>

definition reservation ::
  "64 word \<Rightarrow> 64 word \<Rightarrow> 64 word \<Rightarrow> real \<Rightarrow> 64 word \<times> 64 word" where
  "reservation inputTokens matchedPrefixTokens expectedOutput confidence =
     (let inp = clamp_neg inputTokens;
          out = clamp_neg expectedOutput;
          matched = (if confidence \<ge> WorkConfidenceThreshold
                     then (if sint matchedPrefixTokens > sint inp then inp else matchedPrefixTokens)
                     else 0)
      in (clamp_neg (inp - matched), out))"

definition ReserveTokens ::
  "64 word \<Rightarrow> 64 word \<Rightarrow> 64 word \<Rightarrow> real \<Rightarrow> WorkAccountant \<Rightarrow>
   (64 word \<times> 64 word) \<times> WorkAccountant" where
  "ReserveTokens inputTokens matchedPrefixTokens expectedOutput confidence w =
     (let (up, d) = reservation inputTokens matchedPrefixTokens expectedOutput confidence
      in ((up, d),
          w\<lparr>wa_reservedUncachedPrefill := wa_reservedUncachedPrefill w + up,
            wa_reservedDecode := wa_reservedDecode w + d,
            wa_totalReservedPrefill := wa_totalReservedPrefill w + up,
            wa_totalReservedDecode := wa_totalReservedDecode w + d\<rparr>))"

definition Activate :: "64 word \<times> 64 word \<Rightarrow> WorkAccountant \<Rightarrow> WorkAccountant" where
  "Activate r w =
     w\<lparr>wa_activeUncachedPrefill := wa_activeUncachedPrefill w + fst r,
       wa_activeDecode := wa_activeDecode w + snd r\<rparr>"

definition Release :: "64 word \<times> 64 word \<Rightarrow> WorkAccountant \<Rightarrow> WorkAccountant" where
  "Release r w =
     w\<lparr>wa_reservedUncachedPrefill := clamp_neg (wa_reservedUncachedPrefill w - fst r),
       wa_reservedDecode := clamp_neg (wa_reservedDecode w - snd r),
       wa_activeUncachedPrefill := clamp_neg (wa_activeUncachedPrefill w - fst r),
       wa_activeDecode := clamp_neg (wa_activeDecode w - snd r)\<rparr>"

record WorkSnapshot =
  wsn_ReservedUncachedPrefillTokens :: int
  wsn_ReservedDecodeTokens :: int
  wsn_ActiveUncachedPrefillTokens :: int
  wsn_ActiveDecodeTokens :: int
  wsn_TotalReservedPrefillTokens :: int
  wsn_TotalReservedDecodeTokens :: int

definition w_Snapshot :: "WorkAccountant \<Rightarrow> WorkSnapshot" where
  "w_Snapshot w = \<lparr>
     wsn_ReservedUncachedPrefillTokens = sint (wa_reservedUncachedPrefill w),
     wsn_ReservedDecodeTokens = sint (wa_reservedDecode w),
     wsn_ActiveUncachedPrefillTokens = sint (wa_activeUncachedPrefill w),
     wsn_ActiveDecodeTokens = sint (wa_activeDecode w),
     wsn_TotalReservedPrefillTokens = sint (wa_totalReservedPrefill w),
     wsn_TotalReservedDecodeTokens = sint (wa_totalReservedDecode w)\<rparr>"

section \<open>Signed words\<close>

lemma clamp_neg_nonneg [simp]: "0 \<le> sint (clamp_neg x)"
  by (simp add: clamp_neg_def)

lemma clamp_neg_id [simp]: "0 \<le> sint x \<Longrightarrow> clamp_neg x = x"
  by (simp add: clamp_neg_def)

lemma sint64_bounds: "- (2 ^ 63) \<le> sint (x :: 64 word)" "sint (x :: 64 word) < 2 ^ 63"
  using sint_range_size [of x] by (simp_all add: word_size)

text \<open>Addition and subtraction are exact while the result is in range.\<close>

lemma sint_add_exact:
  fixes a b :: "64 word"
  assumes "- (2 ^ 63) \<le> sint a + sint b" and "sint a + sint b < 2 ^ 63"
  shows "sint (a + b) = sint a + sint b"
  using assms signed_take_bit_int_eq_self [of 63 "sint a + sint b"]
  by (simp add: sint_word_ariths)

lemma sint_sub_exact:
  fixes a b :: "64 word"
  assumes "0 \<le> sint a" and "0 \<le> sint b"
  shows "sint (a - b) = sint a - sint b"
  using assms sint64_bounds [of a] sint64_bounds [of b]
    signed_take_bit_int_eq_self [of 63 "sint a - sint b"]
  by (simp add: sint_word_ariths)

section \<open>Reservations over time\<close>

type_synonym reservations = "(64 word \<times> 64 word) multiset"

definition prefill_sum :: "reservations \<Rightarrow> int" where
  "prefill_sum M = (\<Sum>r\<in>#M. sint (fst r))"

definition decode_sum :: "reservations \<Rightarrow> int" where
  "decode_sum M = (\<Sum>r\<in>#M. sint (snd r))"

text \<open>Pending reservations \<open>R\<close> are booked and not yet activated, active ones \<open>A\<close> are being served.
  \<open>work_reach b w R A\<close> holds of the states in which every sum so far stayed below \<open>b\<close>.\<close>

inductive work_reach :: "int \<Rightarrow> WorkAccountant \<Rightarrow> reservations \<Rightarrow> reservations \<Rightarrow> bool"
  for b :: int where
  start: "work_reach b NewWorkAccountant {#} {#}"
| reserve: "work_reach b w R A \<Longrightarrow> ReserveTokens i m e c w = (r, w') \<Longrightarrow>
     prefill_sum (add_mset r R + A) < b \<Longrightarrow> decode_sum (add_mset r R + A) < b \<Longrightarrow>
     work_reach b w' (add_mset r R) A"
| activate: "work_reach b w (add_mset r R) A \<Longrightarrow> work_reach b (Activate r w) R (add_mset r A)"
| release: "work_reach b w R (add_mset r A) \<Longrightarrow> work_reach b (Release r w) R A"

lemma sum_simps [simp]:
  "prefill_sum {#} = 0" "decode_sum {#} = 0"
  "prefill_sum (add_mset r M) = sint (fst r) + prefill_sum M"
  "decode_sum (add_mset r M) = sint (snd r) + decode_sum M"
  "prefill_sum (M + N) = prefill_sum M + prefill_sum N"
  "decode_sum (M + N) = decode_sum M + decode_sum N"
  by (simp_all add: prefill_sum_def decode_sum_def)

definition nonneg_reservations :: "reservations \<Rightarrow> bool" where
  "nonneg_reservations M \<longleftrightarrow> (\<forall>r \<in># M. 0 \<le> sint (fst r) \<and> 0 \<le> sint (snd r))"

lemma nonneg_simps [simp]:
  "nonneg_reservations {#}"
  "nonneg_reservations (add_mset r M) \<longleftrightarrow>
     0 \<le> sint (fst r) \<and> 0 \<le> sint (snd r) \<and> nonneg_reservations M"
  by (auto simp: nonneg_reservations_def)

lemma nonneg_sums: "nonneg_reservations M \<Longrightarrow> 0 \<le> prefill_sum M \<and> 0 \<le> decode_sum M"
  by (induction M) auto

lemma reservation_nonneg:
  "0 \<le> sint (fst (reservation i m e c))" "0 \<le> sint (snd (reservation i m e c))"
  by (simp_all add: reservation_def Let_def)

definition work_inv :: "WorkAccountant \<Rightarrow> reservations \<Rightarrow> reservations \<Rightarrow> bool" where
  "work_inv w R A \<longleftrightarrow>
     nonneg_reservations R \<and> nonneg_reservations A \<and>
     prefill_sum R + prefill_sum A < 2 ^ 63 \<and> decode_sum R + decode_sum A < 2 ^ 63 \<and>
     sint (wa_reservedUncachedPrefill w) = prefill_sum R + prefill_sum A \<and>
     sint (wa_reservedDecode w) = decode_sum R + decode_sum A \<and>
     sint (wa_activeUncachedPrefill w) = prefill_sum A \<and>
     sint (wa_activeDecode w) = decode_sum A"

lemma work_inv_reserve:
  assumes inv: "work_inv w R A" and step: "ReserveTokens i m e c w = (r, w')"
    and b: "prefill_sum (add_mset r R + A) < 2 ^ 63" "decode_sum (add_mset r R + A) < 2 ^ 63"
  shows "work_inv w' (add_mset r R) A"
proof -
  have r: "r = reservation i m e c" using step by (auto simp: ReserveTokens_def split: prod.splits)
  have nn: "0 \<le> sint (fst r)" "0 \<le> sint (snd r)" by (simp_all add: r reservation_nonneg)
  have w': "w' = w\<lparr>wa_reservedUncachedPrefill := wa_reservedUncachedPrefill w + fst r,
            wa_reservedDecode := wa_reservedDecode w + snd r,
            wa_totalReservedPrefill := wa_totalReservedPrefill w + fst r,
            wa_totalReservedDecode := wa_totalReservedDecode w + snd r\<rparr>"
    using step r by (auto simp: ReserveTokens_def split: prod.splits)
  have s: "0 \<le> prefill_sum R + prefill_sum A" "0 \<le> decode_sum R + decode_sum A"
    using inv nonneg_sums by (auto simp: work_inv_def intro!: add_nonneg_nonneg)
  have "sint (wa_reservedUncachedPrefill w + fst r) = sint (wa_reservedUncachedPrefill w) + sint (fst r)"
    using inv b nn s by (intro sint_add_exact) (auto simp: work_inv_def)
  moreover have "sint (wa_reservedDecode w + snd r) = sint (wa_reservedDecode w) + sint (snd r)"
    using inv b nn s by (intro sint_add_exact) (auto simp: work_inv_def)
  ultimately show ?thesis using inv b nn by (simp add: work_inv_def w')
qed

lemma work_inv_activate:
  assumes inv: "work_inv w (add_mset r R) A"
  shows "work_inv (Activate r w) R (add_mset r A)"
proof -
  have s: "0 \<le> prefill_sum R" "0 \<le> decode_sum R" "0 \<le> prefill_sum A" "0 \<le> decode_sum A"
    using inv nonneg_sums by (auto simp: work_inv_def)
  have "sint (wa_activeUncachedPrefill w + fst r) = sint (wa_activeUncachedPrefill w) + sint (fst r)"
    using inv s by (intro sint_add_exact) (auto simp: work_inv_def)
  moreover have "sint (wa_activeDecode w + snd r) = sint (wa_activeDecode w) + sint (snd r)"
    using inv s by (intro sint_add_exact) (auto simp: work_inv_def)
  ultimately show ?thesis using inv by (simp add: work_inv_def Activate_def)
qed

lemma release_exact:
  assumes "sint x = sint y + z" and "0 \<le> sint y" and "0 \<le> z"
  shows "sint (clamp_neg (x - y)) = z"
  using assms sint_sub_exact [of x y] by (simp add: clamp_neg_def)

lemma work_inv_release:
  assumes inv: "work_inv w R (add_mset r A)"
  shows "work_inv (Release r w) R A"
proof -
  have s: "0 \<le> prefill_sum R" "0 \<le> decode_sum R" "0 \<le> prefill_sum A" "0 \<le> decode_sum A"
    using inv nonneg_sums by (auto simp: work_inv_def)
  have "sint (clamp_neg (wa_reservedUncachedPrefill w - fst r)) = prefill_sum R + prefill_sum A"
      "sint (clamp_neg (wa_reservedDecode w - snd r)) = decode_sum R + decode_sum A"
      "sint (clamp_neg (wa_activeUncachedPrefill w - fst r)) = prefill_sum A"
      "sint (clamp_neg (wa_activeDecode w - snd r)) = decode_sum A"
    using inv s by (auto simp: work_inv_def intro!: release_exact)
  then show ?thesis using inv by (simp add: work_inv_def Release_def)
qed

lemma work_reach_inv: "work_reach b w R A \<Longrightarrow> b \<le> 2 ^ 63 \<Longrightarrow> work_inv w R A"
proof (induction rule: work_reach.induct)
  case start
  then show ?case by (simp add: work_inv_def NewWorkAccountant_def)
next
  case (reserve w R A i m e c r w')
  then show ?case by (intro work_inv_reserve [of w R A i m e c r w']) simp_all
qed (simp_all add: work_inv_activate work_inv_release)

section \<open>Properties\<close>

text \<open>The conservative reservation rule. A reservation never counts negative work; its prefill
  is at most the prompt; with confidence below the threshold the full prompt is reserved whatever
  the cache claims, and above it the prompt minus the matched prefix, which is capped by the
  prompt.\<close>

lemma reservation_conservative:
  assumes "0 \<le> sint i" and "0 \<le> sint m" and "0 \<le> sint e"
  shows "sint (snd (reservation i m e c)) = sint e \<and>
         0 \<le> sint (fst (reservation i m e c)) \<and> sint (fst (reservation i m e c)) \<le> sint i \<and>
         sint (fst (reservation i m e c)) =
           (if c < WorkConfidenceThreshold then sint i else sint i - min (sint m) (sint i))"
proof -
  have "sint (i - x) = sint i - sint x" if "0 \<le> sint x" for x
    using assms(1) that by (rule sint_sub_exact)
  then show ?thesis using assms by (auto simp: reservation_def Let_def clamp_neg_def)
qed

text \<open>C17: Exact accounting. In every interleaving of reservations, activations and releases in which
  the outstanding tokens stay below \<open>2^63\<close>, the reserved counters are the sums over all outstanding
  reservations and the active counters the sums over the active ones; in particular all of them
  are zero when nothing is outstanding.\<close>

theorem work_accounting_exact:
  assumes "work_reach (2 ^ 63) w R A"
  shows "sint (wa_reservedUncachedPrefill w) = prefill_sum (R + A) \<and>
         sint (wa_reservedDecode w) = decode_sum (R + A) \<and>
         sint (wa_activeUncachedPrefill w) = prefill_sum A \<and>
         sint (wa_activeDecode w) = decode_sum A"
  using work_reach_inv [OF assms] by (simp add: work_inv_def)

text \<open>C18: The bound is needed. A client that asks for \<open>max_tokens\<close> near the largest integer makes the
  counter wrap; releasing another request then clamps the negative counter to zero, and after the
  large request has ended too, the reservation of a request that is still active is gone.\<close>

theorem overflow_loses_reservation:
  "\<exists>w. work_reach (2 ^ 64) w {#} {#(0, 10)#} \<and> wa_reservedDecode w = 0"
proof -
  let ?big = "0x7FFFFFFFFFFFFFFF :: 64 word"
  let ?w0 = "NewWorkAccountant"
  let ?w1 = "snd (ReserveTokens 0 0 10 0 ?w0)"
  let ?w2 = "snd (ReserveTokens 0 0 10 0 (Activate (0, 10) ?w1))"
  let ?w3 = "snd (ReserveTokens 0 0 ?big 0 (Activate (0, 10) ?w2))"
  let ?w4 = "Activate (0, ?big) ?w3"
  have big: "sint ?big = 2 ^ 63 - 1" by simp
  have r: "reservation 0 0 10 0 = (0, 10)" "reservation 0 0 ?big 0 = (0, ?big)"
    by (simp_all add: reservation_def WorkConfidenceThreshold_def clamp_neg_def)
  have res: "ReserveTokens 0 0 10 0 w = ((0, 10), snd (ReserveTokens 0 0 10 0 w))"
      "ReserveTokens 0 0 ?big 0 w = ((0, ?big), snd (ReserveTokens 0 0 ?big 0 w))" for w
    by (simp_all add: ReserveTokens_def r)
  have 1: "work_reach (2 ^ 64) ?w1 {#(0, 10)#} {#}"
    by (rule reserve [OF start res(1)]) simp_all
  have 2: "work_reach (2 ^ 64) ?w2 {#(0, 10)#} {#(0, 10)#}"
    by (rule reserve [OF activate [OF 1] res(1)]) simp_all
  have 3: "work_reach (2 ^ 64) ?w3 {#(0, ?big)#} {#(0, 10), (0, 10)#}"
    by (rule reserve [OF activate [OF 2] res(2)]) simp_all
  have 4: "work_reach (2 ^ 64) ?w4 {#} {#(0, 10), (0, ?big), (0, 10)#}"
    using activate [OF 3] by (simp add: add_mset_commute)
  have 5: "work_reach (2 ^ 64) (Release (0, ?big) (Release (0, 10) ?w4)) {#} {#(0, 10)#}"
    by (intro release) (use 4 in \<open>simp add: add_mset_commute\<close>)
  moreover have "wa_reservedDecode (Release (0, ?big) (Release (0, 10) ?w4)) = 0"
    by (simp add: Release_def Activate_def ReserveTokens_def r NewWorkAccountant_def clamp_neg_def)
  ultimately show ?thesis by blast
qed

section \<open>Witnesses\<close>

theorem work_accounting_exact_witness:
  "\<exists>w. work_reach (2 ^ 63) w {#(100, 16)#} {#} \<and> sint (wa_reservedDecode w) = 16"
proof -
  have "ReserveTokens 100 0 16 0 NewWorkAccountant =
      ((100, 16), snd (ReserveTokens 100 0 16 0 NewWorkAccountant))"
    by (simp add: ReserveTokens_def reservation_def WorkConfidenceThreshold_def clamp_neg_def)
  from reserve [OF start this] have
    "work_reach (2 ^ 63) (snd (ReserveTokens 100 0 16 0 NewWorkAccountant)) {#(100, 16)#} {#}"
    by simp
  with work_accounting_exact [OF this] show ?thesis by auto
qed

end
