(* ===== verification/Admission_Queue.thy ===== *)
theory Admission_Queue
  imports Device_History "HOL-Library.Sublist"
begin

text \<open>
  The bounded admission queue of \<open>internal/dataplane/queue.go\<close>. The first part has one function per
  critical section of the mutex, on the record \<open>Queue\<close>; the clock readings are arguments. A ticket
  is a pointer in Go; here \<open>t_uid\<close> is its identity.

  The second part puts the critical sections of the request goroutines and of the dispatcher into a
  step relation, in which a \<open>select\<close> may take any ready branch. Invariants of all reachable states:
  both limits, the accounting of every ticket, first-in first-out dispatch. It also shows where the
  accounting fails to be useful: a ticket that times out or is cancelled after the dispatcher took
  it keeps its in-flight slot for ever.
\<close>

section \<open>Data\<close>

datatype ReqState =
    ReqReceived | ReqQueued | ReqDispatching | ReqStreaming | ReqWaitingFull | ReqCompleted
  | ReqRejected | ReqCancelled | ReqTimedOut | ReqUpstreamFail | ReqPartialStream

datatype QueueError =
    ErrQueueFull | ErrBackendOffline | ErrBackendDraining | ErrRuntimeUnhealthy
  | ErrQueueTimeout | ErrInflightFull | ErrCancelled

record QueueConfig =
  qc_Enabled :: bool
  qc_MaxQueuedRequests :: int
  qc_MaxInflightRequests :: int
  qc_QueueTimeout :: duration
  qc_AdmissionMode :: string

definition DefaultQueueConfig :: QueueConfig where
  "DefaultQueueConfig = \<lparr>qc_Enabled = True, qc_MaxQueuedRequests = 256,
     qc_MaxInflightRequests = 32, qc_QueueTimeout = 30 * Second, qc_AdmissionMode = ''fifo''\<rparr>"

record Ticket =
  t_uid :: nat
  t_RequestID :: string
  t_RouteID :: string
  t_BackendID :: string
  t_HostID :: string
  t_DeviceID :: string
  t_enqueuedMono :: duration

record Queue =
  q_cfg :: QueueConfig
  q_waiting :: "Ticket list"
  q_inflight :: int
  q_closed :: bool
  q_arrivals :: nat
  q_dispatched :: nat
  q_completed :: nat
  q_rejected :: nat
  q_timedOut :: nat
  q_cancelled :: nat
  q_arrivalTimes :: "duration list"
  q_dispatchTimes :: "duration list"
  q_completeTimes :: "duration list"
  q_waitSamples :: "real list"

definition rateWindow :: duration where
  "rateWindow = 10 * Second"

definition NewQueue :: "QueueConfig \<Rightarrow> Queue" where
  "NewQueue cfg = \<lparr>q_cfg = cfg, q_waiting = [], q_inflight = 0, q_closed = False, q_arrivals = 0,
     q_dispatched = 0, q_completed = 0, q_rejected = 0, q_timedOut = 0, q_cancelled = 0,
     q_arrivalTimes = [], q_dispatchTimes = [], q_completeTimes = [], q_waitSamples = []\<rparr>"

section \<open>Operations\<close>

text \<open>\<open>Admit\<close>: \<open>gate\<close> is what the admission gate returns (an error refuses); \<open>tkt\<close> carries the
  identity and the request's names, and gets its enqueue time here.\<close>

definition Admit ::
  "QueueError option \<Rightarrow> Ticket \<Rightarrow> duration \<Rightarrow> Queue \<Rightarrow> Queue \<times> (QueueError + Ticket)" where
  "Admit gate tkt now q =
     (if q_closed q then (q, Inl ErrBackendOffline)
      else case gate of
        Some reason \<Rightarrow> (q\<lparr>q_rejected := q_rejected q + 1\<rparr>, Inl reason)
      | None \<Rightarrow>
          if int (length (q_waiting q)) \<ge> qc_MaxQueuedRequests (q_cfg q)
          then (q\<lparr>q_rejected := q_rejected q + 1\<rparr>, Inl ErrQueueFull)
          else let t = tkt\<lparr>t_enqueuedMono := now\<rparr>
               in (q\<lparr>q_arrivals := q_arrivals q + 1, q_arrivalTimes := q_arrivalTimes q @ [now],
                     q_waiting := q_waiting q @ [t]\<rparr>, Inr t))"

fun remove_uid :: "nat \<Rightarrow> Ticket list \<Rightarrow> Ticket list" where
  "remove_uid u [] = []"
| "remove_uid u (w # ws) = (if t_uid w = u then ws else w # remove_uid u ws)"

definition removeWaiting :: "Ticket \<Rightarrow> Queue \<Rightarrow> Queue" where
  "removeWaiting t q = q\<lparr>q_waiting := remove_uid (t_uid t) (q_waiting q)\<rparr>"

definition maxWaitSamples :: nat where
  "maxWaitSamples = 4096"

definition can_dispatch :: "Queue \<Rightarrow> bool" where
  "can_dispatch q \<longleftrightarrow> q_waiting q \<noteq> [] \<and> q_inflight q < qc_MaxInflightRequests (q_cfg q)"

text \<open>One critical section of \<open>drain\<close> (its guard is \<open>can_dispatch\<close>), and the loop, whose \<open>n\<close>-th
  dispatch reads the clock at \<open>clk n\<close>.\<close>

definition drain_pop :: "duration \<Rightarrow> Queue \<Rightarrow> Queue" where
  "drain_pop now q =
     (let t = hd (q_waiting q);
          waitMs = real_of_int (dur_Microseconds (now - t_enqueuedMono t)) / 1000;
          samples = q_waitSamples q @ [waitMs]
      in q\<lparr>q_waiting := tl (q_waiting q), q_inflight := q_inflight q + 1,
           q_dispatched := q_dispatched q + 1, q_dispatchTimes := q_dispatchTimes q @ [now],
           q_waitSamples := (if length samples > maxWaitSamples
                             then drop (length samples - maxWaitSamples) samples else samples)\<rparr>)"

lemma drain_pop_waiting [simp]: "q_waiting (drain_pop now q) = tl (q_waiting q)"
  by (simp add: drain_pop_def Let_def)

function drain :: "(nat \<Rightarrow> duration) \<Rightarrow> Queue \<Rightarrow> Queue \<times> Ticket list" where
  "drain clk q =
     (if can_dispatch q
      then let (q', ts) = drain clk (drain_pop (clk (q_dispatched q)) q)
           in (q', hd (q_waiting q) # ts)
      else (q, []))"
  by pat_completeness auto
termination
  by (relation "measure (\<lambda>(clk, q). length (q_waiting q))") (auto simp: can_dispatch_def)

declare drain.simps [simp del]

definition Done :: "duration \<Rightarrow> Queue \<Rightarrow> Queue" where
  "Done now q =
     q\<lparr>q_inflight := (if q_inflight q > 0 then q_inflight q - 1 else q_inflight q),
       q_completed := q_completed q + 1, q_completeTimes := q_completeTimes q @ [now]\<rparr>"

text \<open>\<open>Close\<close> returns the tickets whose contexts are cancelled.\<close>

definition Close :: "Queue \<Rightarrow> Queue \<times> Ticket list" where
  "Close q = (q\<lparr>q_closed := True, q_waiting := []\<rparr>, q_waiting q)"

section \<open>Metrics\<close>

definition rateInWindow :: "duration list \<Rightarrow> duration \<Rightarrow> duration \<Rightarrow> real" where
  "rateInWindow ts now window =
     real (length (filter (\<lambda>t. t \<ge> now - window) ts)) / dur_Seconds window"

definition pruneOld :: "duration list \<Rightarrow> duration \<Rightarrow> duration \<Rightarrow> duration list" where
  "pruneOld ts now window = dropWhile (\<lambda>t. t < now - window) ts"

definition pctile :: "real list \<Rightarrow> real \<Rightarrow> real" where
  "pctile s p = (if s = [] then 0 else percentile (sort s) p)"

record QueueSnapshot =
  sn_Enabled :: bool
  sn_Queued :: nat
  sn_Inflight :: int
  sn_MaxQueued :: int
  sn_MaxInflight :: int
  sn_OldestAgeMs :: real
  sn_ArrivalRate :: real
  sn_DispatchRate :: real
  sn_CompletionRate :: real
  sn_Arrivals :: nat
  sn_Dispatched :: nat
  sn_Completed :: nat
  sn_Rejected :: nat
  sn_TimedOut :: nat
  sn_Cancelled :: nat
  sn_WaitP50Ms :: real
  sn_WaitP95Ms :: real

definition q_Snapshot :: "duration \<Rightarrow> Queue \<Rightarrow> Queue \<times> QueueSnapshot" where
  "q_Snapshot now q =
     (q\<lparr>q_arrivalTimes := pruneOld (q_arrivalTimes q) now rateWindow,
        q_dispatchTimes := pruneOld (q_dispatchTimes q) now rateWindow,
        q_completeTimes := pruneOld (q_completeTimes q) now rateWindow\<rparr>,
      \<lparr>sn_Enabled = qc_Enabled (q_cfg q), sn_Queued = length (q_waiting q),
       sn_Inflight = q_inflight q, sn_MaxQueued = qc_MaxQueuedRequests (q_cfg q),
       sn_MaxInflight = qc_MaxInflightRequests (q_cfg q),
       sn_OldestAgeMs = (case q_waiting q of [] \<Rightarrow> 0
         | t # _ \<Rightarrow> real_of_int (dur_Microseconds (now - t_enqueuedMono t)) / 1000),
       sn_ArrivalRate = rateInWindow (q_arrivalTimes q) now rateWindow,
       sn_DispatchRate = rateInWindow (q_dispatchTimes q) now rateWindow,
       sn_CompletionRate = rateInWindow (q_completeTimes q) now rateWindow,
       sn_Arrivals = q_arrivals q, sn_Dispatched = q_dispatched q, sn_Completed = q_completed q,
       sn_Rejected = q_rejected q, sn_TimedOut = q_timedOut q, sn_Cancelled = q_cancelled q,
       sn_WaitP50Ms = pctile (q_waitSamples q) 50, sn_WaitP95Ms = pctile (q_waitSamples q) 95\<rparr>)"

section \<open>First in, first out\<close>

text \<open>The contract of a queue from which entries may also be withdrawn: whatever is taken, followed
  by what is still there, is in the order in which it was put.\<close>

datatype 't fifo_op = Put 't | Take | Withdraw 't

locale fifo_buffer =
  fixes items :: "'s \<Rightarrow> 't list"
    and put :: "'s \<Rightarrow> 't \<Rightarrow> 's"
    and take1 :: "'s \<Rightarrow> 's"
    and withdraw :: "'s \<Rightarrow> 't \<Rightarrow> 's"
  assumes items_put: "items (put s t) = items s @ [t]"
    and items_take: "items (take1 s) = tl (items s)"
    and items_withdraw: "subseq (items (withdraw s t)) (items s)"
begin

fun run :: "'s \<Rightarrow> 't fifo_op list \<Rightarrow> 't list \<times> 's" where
  "run s [] = ([], s)"
| "run s (Put t # ops) = run (put s t) ops"
| "run s (Withdraw t # ops) = run (withdraw s t) ops"
| "run s (Take # ops) =
     (let (taken, s') = run (take1 s) ops in (take 1 (items s) @ taken, s'))"

fun puts :: "'t fifo_op list \<Rightarrow> 't list" where
  "puts [] = []"
| "puts (Put t # ops) = t # puts ops"
| "puts (_ # ops) = puts ops"

lemma run_order: "run s ops = (taken, s') \<Longrightarrow> subseq (taken @ items s') (items s @ puts ops)"
proof (induction s ops arbitrary: taken s' rule: run.induct)
  case (3 s t ops)
  then have "subseq (taken @ items s') (items (withdraw s t) @ puts ops)" by simp
  moreover have "subseq (items (withdraw s t) @ puts ops) (items s @ puts ops)"
    by (simp add: items_withdraw)
  ultimately show ?case using subseq_order.order_trans by fastforce
next
  case (4 s ops)
  then obtain taken' where t: "run (take1 s) ops = (taken', s')" "taken = take 1 (items s) @ taken'"
    by (auto split: prod.splits)
  have "subseq (taken' @ items s') (tl (items s) @ puts ops)"
    using 4(1) t(1) by (simp add: items_take)
  then show ?case
    using t(2) by (cases "items s") auto
qed (simp_all add: items_put)

end

lemma remove_uid_subseq: "subseq (remove_uid u ws) ws"
  by (induction ws) auto

lemma remove_uid_set: "set (remove_uid u ws) \<subseteq> set ws"
  by (induction ws) auto

lemma remove_uid_distinct:
  "distinct (map t_uid ws) \<Longrightarrow> map t_uid (remove_uid u ws) = filter (\<lambda>v. v \<noteq> u) (map t_uid ws)"
  by (induction ws) (auto intro!: filter_True [symmetric])

lemma remove_uid_length: "length (remove_uid u ws) \<le> length ws"
  by (induction ws) auto

text \<open>The queue's critical sections on the waiting list meet the contract.\<close>

definition q_enqueue :: "Queue \<Rightarrow> Ticket \<Rightarrow> Queue" where
  "q_enqueue q t =
     q\<lparr>q_arrivals := q_arrivals q + 1, q_arrivalTimes := q_arrivalTimes q @ [t_enqueuedMono t],
       q_waiting := q_waiting q @ [t]\<rparr>"

lemma Admit_enqueue:
  "snd (Admit gate tkt now q) = Inr t \<Longrightarrow> fst (Admit gate tkt now q) = q_enqueue q t"
  by (auto simp: Admit_def q_enqueue_def Let_def split: option.splits if_splits)

interpretation admq: fifo_buffer q_waiting q_enqueue "drain_pop now" "\<lambda>q t. removeWaiting t q"
  by unfold_locales (simp_all add: q_enqueue_def removeWaiting_def remove_uid_subseq)

section \<open>The dispatch loop\<close>

lemma drain_pop_simps [simp]:
  "q_cfg (drain_pop now q) = q_cfg q" "q_inflight (drain_pop now q) = q_inflight q + 1"
  "q_dispatched (drain_pop now q) = q_dispatched q + 1"
  "q_completed (drain_pop now q) = q_completed q" "q_arrivals (drain_pop now q) = q_arrivals q"
  "q_closed (drain_pop now q) = q_closed q"
  by (simp_all add: drain_pop_def Let_def)

lemma drain_result:
  assumes "drain clk q = (q', ts)"
  shows "q_waiting q = ts @ q_waiting q' \<and> q_inflight q' = q_inflight q + int (length ts) \<and>
         q_dispatched q' = q_dispatched q + length ts \<and> q_cfg q' = q_cfg q \<and>
         \<not> can_dispatch q' \<and>
         (q_inflight q \<le> qc_MaxInflightRequests (q_cfg q) \<longrightarrow>
          q_inflight q' \<le> qc_MaxInflightRequests (q_cfg q))"
  using assms
proof (induction clk q arbitrary: q' ts rule: drain.induct)
  case (1 clk q)
  show ?case
  proof (cases "can_dispatch q")
    case True
    let ?q1 = "drain_pop (clk (q_dispatched q)) q"
    obtain ts' where d: "drain clk ?q1 = (q', ts')" "ts = hd (q_waiting q) # ts'"
      using 1(2) True by (subst (asm) drain.simps) (auto split: prod.splits)
    from 1(1) [OF True d(1)] True d(2) show ?thesis
      by (cases "q_waiting q") (auto simp: can_dispatch_def)
  next
    case False
    with 1(2) show ?thesis by (subst (asm) drain.simps) auto
  qed
qed

section \<open>Goroutines\<close>

text \<open>Where a request goroutine is: in the \<open>select\<close> of \<open>WaitForDispatch\<close>; having taken its timeout
  or cancellation branch, before \<open>removeWaiting\<close> and before the counter; dispatched and serving; or
  finished.\<close>

datatype wreason = WTimeout | WCancel

datatype tpc = InSelect | Removing wreason | Counting wreason | Running | Withdrawn wreason | Served

record tstate =
  ts_ticket :: Ticket
  ts_pc :: tpc
  ts_dispatched :: bool
  ts_cancelled :: bool

text \<open>\<open>sys_disp\<close> is the ticket the dispatcher has taken from the queue and whose channel it has not
  closed yet.\<close>

record qsys =
  sys_q :: Queue
  sys_t :: "nat \<Rightarrow> tstate option"
  sys_disp :: "Ticket option"

definition qsys_init :: "QueueConfig \<Rightarrow> qsys" where
  "qsys_init cfg = \<lparr>sys_q = NewQueue cfg, sys_t = (\<lambda>_. None), sys_disp = None\<rparr>"

definition new_tstate :: "Ticket \<Rightarrow> tstate" where
  "new_tstate t = \<lparr>ts_ticket = t, ts_pc = InSelect, ts_dispatched = False, ts_cancelled = False\<rparr>"

definition set_t :: "nat \<Rightarrow> tstate \<Rightarrow> qsys \<Rightarrow> qsys" where
  "set_t u x S = S\<lparr>sys_t := (sys_t S)(u \<mapsto> x)\<rparr>"

definition count_withdrawn :: "wreason \<Rightarrow> Queue \<Rightarrow> Queue" where
  "count_withdrawn r q = (case r of WTimeout \<Rightarrow> q\<lparr>q_timedOut := q_timedOut q + 1\<rparr>
                          | WCancel \<Rightarrow> q\<lparr>q_cancelled := q_cancelled q + 1\<rparr>)"

definition cancel_all :: "nat set \<Rightarrow> (nat \<Rightarrow> tstate option) \<Rightarrow> nat \<Rightarrow> tstate option" where
  "cancel_all us m = (\<lambda>u. if u \<in> us then map_option (\<lambda>x. x\<lparr>ts_cancelled := True\<rparr>) (m u) else m u)"

inductive qstep :: "qsys \<Rightarrow> qsys \<Rightarrow> bool" where
  admit_ok: "t_uid tkt = q_arrivals (sys_q S) \<Longrightarrow> Admit gate tkt now (sys_q S) = (q', Inr t) \<Longrightarrow>
     qstep S (set_t (t_uid t) (new_tstate t) (S\<lparr>sys_q := q'\<rparr>))"
| admit_reject: "Admit gate tkt now (sys_q S) = (q', Inl err) \<Longrightarrow> qstep S (S\<lparr>sys_q := q'\<rparr>)"
| pop: "can_dispatch (sys_q S) \<Longrightarrow> sys_disp S = None \<Longrightarrow>
     qstep S (S\<lparr>sys_q := drain_pop now (sys_q S), sys_disp := Some (hd (q_waiting (sys_q S)))\<rparr>)"
| close_channel: "sys_disp S = Some t \<Longrightarrow> sys_t S (t_uid t) = Some x \<Longrightarrow>
     qstep S (set_t (t_uid t) (x\<lparr>ts_dispatched := True\<rparr>) (S\<lparr>sys_disp := None\<rparr>))"
| select_dispatch: "sys_t S u = Some x \<Longrightarrow> ts_pc x = InSelect \<Longrightarrow> ts_dispatched x \<Longrightarrow>
     qstep S (set_t u (x\<lparr>ts_pc := Running\<rparr>) S)"
| select_cancel: "sys_t S u = Some x \<Longrightarrow> ts_pc x = InSelect \<Longrightarrow> ts_cancelled x \<Longrightarrow>
     qstep S (set_t u (x\<lparr>ts_pc := Removing WCancel\<rparr>) S)"
| select_timeout: "sys_t S u = Some x \<Longrightarrow> ts_pc x = InSelect \<Longrightarrow>
     qc_QueueTimeout (q_cfg (sys_q S)) > 0 \<Longrightarrow>
     qstep S (set_t u (x\<lparr>ts_pc := Removing WTimeout\<rparr>) S)"
| remove: "sys_t S u = Some x \<Longrightarrow> ts_pc x = Removing r \<Longrightarrow>
     qstep S (set_t u (x\<lparr>ts_pc := Counting r\<rparr>)
                (S\<lparr>sys_q := removeWaiting (ts_ticket x) (sys_q S)\<rparr>))"
| count: "sys_t S u = Some x \<Longrightarrow> ts_pc x = Counting r \<Longrightarrow>
     qstep S (set_t u (x\<lparr>ts_pc := Withdrawn r\<rparr>) (S\<lparr>sys_q := count_withdrawn r (sys_q S)\<rparr>))"
| finish: "sys_t S u = Some x \<Longrightarrow> ts_pc x = Running \<Longrightarrow>
     qstep S (set_t u (x\<lparr>ts_pc := Served\<rparr>) (S\<lparr>sys_q := Done now (sys_q S)\<rparr>))"
| cancel: "sys_t S u = Some x \<Longrightarrow> qstep S (set_t u (x\<lparr>ts_cancelled := True\<rparr>) S)"
| close_queue: "qstep S (S\<lparr>sys_q := fst (Close (sys_q S)),
     sys_t := cancel_all (t_uid ` set (snd (Close (sys_q S)))) (sys_t S)\<rparr>)"

inductive_cases qstepE: "qstep S S'"

abbreviation qreach :: "QueueConfig \<Rightarrow> qsys \<Rightarrow> bool" where
  "qreach cfg S \<equiv> qstep\<^sup>*\<^sup>* (qsys_init cfg) S"

text \<open>The tickets that hold an in-flight slot: taken by the dispatcher and not yet given back by
  \<open>Done\<close>.\<close>

definition granted :: "qsys \<Rightarrow> nat \<Rightarrow> bool" where
  "granted S u \<longleftrightarrow> (\<exists>x. sys_t S u = Some x \<and>
     (ts_dispatched x \<or> map_option t_uid (sys_disp S) = Some u))"

definition slot_holders :: "qsys \<Rightarrow> nat set" where
  "slot_holders S = {u. granted S u \<and> (\<forall>x. sys_t S u = Some x \<longrightarrow> ts_pc x \<noteq> Served)}"

definition waiting_uids :: "qsys \<Rightarrow> nat list" where
  "waiting_uids S = map t_uid (q_waiting (sys_q S))"

definition qsys_inv :: "QueueConfig \<Rightarrow> qsys \<Rightarrow> bool" where
  "qsys_inv cfg S \<longleftrightarrow>
     q_cfg (sys_q S) = cfg \<and>
     dom (sys_t S) = {..<q_arrivals (sys_q S)} \<and>
     (\<forall>u x. sys_t S u = Some x \<longrightarrow> t_uid (ts_ticket x) = u) \<and>
     sorted_wrt (<) (waiting_uids S) \<and>
     set (waiting_uids S) \<subseteq> dom (sys_t S) \<and>
     (\<forall>t. sys_disp S = Some t \<longrightarrow> t_uid t \<in> dom (sys_t S)) \<and>
     (\<forall>u v. granted S u \<and> v \<in> set (waiting_uids S) \<longrightarrow> u < v) \<and>
     (\<forall>u x. sys_t S u = Some x \<and> ts_pc x \<in> {Running, Served} \<longrightarrow> ts_dispatched x) \<and>
     (\<forall>t x. sys_disp S = Some t \<and> sys_t S (t_uid t) = Some x \<longrightarrow> \<not> ts_dispatched x) \<and>
     q_inflight (sys_q S) = int (card (slot_holders S)) \<and>
     int (q_dispatched (sys_q S)) = int (q_completed (sys_q S)) + q_inflight (sys_q S) \<and>
     (0 \<le> qc_MaxQueuedRequests cfg \<longrightarrow>
        int (length (q_waiting (sys_q S))) \<le> qc_MaxQueuedRequests cfg) \<and>
     (0 \<le> qc_MaxInflightRequests cfg \<longrightarrow> q_inflight (sys_q S) \<le> qc_MaxInflightRequests cfg)"

lemma qsys_inv_init: "qsys_inv cfg (qsys_init cfg)"
  by (simp add: qsys_inv_def qsys_init_def NewQueue_def waiting_uids_def granted_def
      slot_holders_def)

section \<open>The invariant is kept\<close>

text \<open>Most steps change the goroutine of one ticket without touching who was dispatched or served,
  and change the queue only by withdrawing tickets or counting.\<close>

definition same_grants :: "(nat \<Rightarrow> tstate option) \<Rightarrow> (nat \<Rightarrow> tstate option) \<Rightarrow> bool" where
  "same_grants m m' \<longleftrightarrow> (\<forall>u. rel_option (\<lambda>x x'. ts_ticket x' = ts_ticket x \<and>
     ts_dispatched x' = ts_dispatched x \<and> (ts_pc x' = Served \<longleftrightarrow> ts_pc x = Served) \<and>
     (ts_pc x' = Running \<longrightarrow> ts_dispatched x)) (m u) (m' u))"

definition queue_shrinks :: "Queue \<Rightarrow> Queue \<Rightarrow> bool" where
  "queue_shrinks q q' \<longleftrightarrow> q_cfg q' = q_cfg q \<and> q_arrivals q' = q_arrivals q \<and>
     subseq (q_waiting q') (q_waiting q) \<and> q_inflight q' = q_inflight q \<and>
     q_dispatched q' = q_dispatched q \<and> q_completed q' = q_completed q"

lemma subseq_set: "subseq xs ys \<Longrightarrow> set xs \<subseteq> set ys"
  by (induction rule: list_emb.induct) auto

lemma sorted_wrt_subseq: "subseq xs ys \<Longrightarrow> sorted_wrt P ys \<Longrightarrow> sorted_wrt P xs"
  by (induction rule: list_emb.induct) (auto dest: subseq_set)

lemma same_grants_facts:
  assumes "same_grants (sys_t S) m'"
  shows "dom m' = dom (sys_t S)"
    and "granted (S\<lparr>sys_q := q', sys_t := m'\<rparr>) = granted S"
    and "slot_holders (S\<lparr>sys_q := q', sys_t := m'\<rparr>) = slot_holders S"
proof -
  have r: "rel_option (\<lambda>x x'. ts_ticket x' = ts_ticket x \<and>
     ts_dispatched x' = ts_dispatched x \<and> (ts_pc x' = Served \<longleftrightarrow> ts_pc x = Served) \<and>
     (ts_pc x' = Running \<longrightarrow> ts_dispatched x)) (sys_t S u) (m' u)" for u
    using assms by (simp add: same_grants_def)
  show "dom m' = dom (sys_t S)"
  proof (rule set_eqI)
    show "u \<in> dom m' \<longleftrightarrow> u \<in> dom (sys_t S)" for u
      using r [of u] by (cases "sys_t S u"; cases "m' u") auto
  qed
  show g: "granted (S\<lparr>sys_q := q', sys_t := m'\<rparr>) = granted S"
  proof (rule ext)
    show "granted (S\<lparr>sys_q := q', sys_t := m'\<rparr>) u = granted S u" for u
      using r [of u] by (cases "sys_t S u"; cases "m' u") (auto simp: granted_def)
  qed
  have "(\<forall>x. m' u = Some x \<longrightarrow> ts_pc x \<noteq> Served) \<longleftrightarrow> (\<forall>x. sys_t S u = Some x \<longrightarrow> ts_pc x \<noteq> Served)"
    for u using r [of u] by (cases "sys_t S u"; cases "m' u") auto
  then show "slot_holders (S\<lparr>sys_q := q', sys_t := m'\<rparr>) = slot_holders S"
    by (simp add: slot_holders_def g)
qed

lemma qsys_invD:
  assumes "qsys_inv cfg S"
  shows "q_cfg (sys_q S) = cfg" and "dom (sys_t S) = {..<q_arrivals (sys_q S)}"
    and "sys_t S u = Some x \<Longrightarrow> t_uid (ts_ticket x) = u"
    and "sorted_wrt (<) (waiting_uids S)" and "set (waiting_uids S) \<subseteq> dom (sys_t S)"
    and "sys_disp S = Some t \<Longrightarrow> t_uid t \<in> dom (sys_t S)"
    and "granted S u \<Longrightarrow> v \<in> set (waiting_uids S) \<Longrightarrow> u < v"
    and "sys_t S u = Some x \<Longrightarrow> ts_pc x = Running \<or> ts_pc x = Served \<Longrightarrow> ts_dispatched x"
    and "sys_disp S = Some t \<Longrightarrow> sys_t S (t_uid t) = Some x \<Longrightarrow> \<not> ts_dispatched x"
    and "q_inflight (sys_q S) = int (card (slot_holders S))"
    and "int (q_dispatched (sys_q S)) = int (q_completed (sys_q S)) + q_inflight (sys_q S)"
    and "0 \<le> qc_MaxQueuedRequests cfg \<Longrightarrow>
      int (length (q_waiting (sys_q S))) \<le> qc_MaxQueuedRequests cfg"
    and "0 \<le> qc_MaxInflightRequests cfg \<Longrightarrow> q_inflight (sys_q S) \<le> qc_MaxInflightRequests cfg"
  using assms unfolding qsys_inv_def by blast+

lemma qsys_inv_same:
  assumes inv: "qsys_inv cfg S" and m: "same_grants (sys_t S) m'"
    and q: "queue_shrinks (sys_q S) q'"
  shows "qsys_inv cfg (S\<lparr>sys_q := q', sys_t := m'\<rparr>)"
proof -
  let ?S' = "S\<lparr>sys_q := q', sys_t := m'\<rparr>"
  note f = same_grants_facts [OF m]
  note I = qsys_invD [OF inv]
  have sub: "subseq (waiting_uids ?S') (waiting_uids S)"
    using q by (simp add: waiting_uids_def queue_shrinks_def subseq_map)
  have set_sub: "set (waiting_uids ?S') \<subseteq> set (waiting_uids S)"
    using sub by (rule subseq_set)
  have len: "length (q_waiting q') \<le> length (q_waiting (sys_q S))"
    using list_emb_length [of "(=)" "q_waiting q'"] q by (simp add: queue_shrinks_def)
  have rel: "\<exists>x. sys_t S u = Some x \<and> ts_ticket x' = ts_ticket x \<and> ts_dispatched x' = ts_dispatched x \<and>
      (ts_pc x' = Served \<longleftrightarrow> ts_pc x = Served) \<and> (ts_pc x' = Running \<longrightarrow> ts_dispatched x)"
    if "m' u = Some x'" for u x'
    using m [unfolded same_grants_def, rule_format, of u] that by (cases "sys_t S u") auto
  show ?thesis
    unfolding qsys_inv_def f(2,3)
  proof (intro conjI allI impI)
    show "sorted_wrt (<) (waiting_uids ?S')"
      using sub I(4) by (rule sorted_wrt_subseq)
    show "set (waiting_uids ?S') \<subseteq> dom (sys_t ?S')"
      using set_sub I(5) f(1) by simp
    show "t_uid (ts_ticket x') = u" if "sys_t ?S' u = Some x'" for u x'
      using that rel [of u x'] I(3) by auto
    show "u < v" if "granted S u \<and> v \<in> set (waiting_uids ?S')" for u v
      using that I(7) set_sub by auto
    show "ts_dispatched x'" if "sys_t ?S' u = Some x' \<and> ts_pc x' \<in> {Running, Served}" for u x'
      using that rel [of u x'] I(8) by auto
    show "\<not> ts_dispatched x'" if "sys_disp ?S' = Some t \<and> sys_t ?S' (t_uid t) = Some x'" for t x'
      using that rel [of "t_uid t" x'] I(9) by auto
    show "int (length (q_waiting (sys_q ?S'))) \<le> qc_MaxQueuedRequests cfg"
      if "0 \<le> qc_MaxQueuedRequests cfg"
      using I(12) [OF that] len by simp
    show "t_uid t \<in> dom (sys_t ?S')" if "sys_disp ?S' = Some t" for t
      using that I(6) f(1) by simp
    show "q_inflight (sys_q ?S') \<le> qc_MaxInflightRequests cfg"
      if "0 \<le> qc_MaxInflightRequests cfg"
      using I(13) [OF that] q by (simp add: queue_shrinks_def)
  qed (use I(1,2,10,11) q f(1) in \<open>simp_all add: queue_shrinks_def\<close>)
qed

lemma same_grants_refl: "qsys_inv cfg S \<Longrightarrow> same_grants (sys_t S) (sys_t S)"
  unfolding same_grants_def by (auto simp: option.rel_refl_strong dest: qsys_invD(8) intro!: option.rel_refl_strong elim!: option.set_cases)

lemma same_grants_upd:
  assumes "qsys_inv cfg S" and "sys_t S u = Some x" and "ts_ticket x' = ts_ticket x"
    and "ts_dispatched x' = ts_dispatched x" and "ts_pc x' = Served \<longleftrightarrow> ts_pc x = Served"
    and "ts_pc x' = Running \<Longrightarrow> ts_dispatched x"
  shows "same_grants (sys_t S) ((sys_t S)(u \<mapsto> x'))"
  using same_grants_refl [OF assms(1)] assms(2-6) by (auto simp: same_grants_def)

lemma set_t_queue: "set_t u x (S\<lparr>sys_q := q\<rparr>) = S\<lparr>sys_q := q, sys_t := (sys_t S)(u \<mapsto> x)\<rparr>"
  by (simp add: set_t_def)

lemma set_t_only: "set_t u x S = S\<lparr>sys_q := sys_q S, sys_t := (sys_t S)(u \<mapsto> x)\<rparr>"
  by (simp add: set_t_def)

lemma slot_holders_finite: "qsys_inv cfg S \<Longrightarrow> finite (slot_holders S)"
proof -
  assume inv: "qsys_inv cfg S"
  have "slot_holders S \<subseteq> dom (sys_t S)" by (auto simp: slot_holders_def granted_def)
  then show ?thesis using qsys_invD(2) [OF inv] finite_subset by fastforce
qed

lemma queue_shrinks_refl [simp]: "queue_shrinks q q"
  by (simp add: queue_shrinks_def)

lemma queue_shrinks_ops:
  "queue_shrinks q (removeWaiting t q)" "queue_shrinks q (count_withdrawn r q)"
  "queue_shrinks q (fst (Close q))" "queue_shrinks q (q\<lparr>q_rejected := n\<rparr>)"
  by (simp_all add: queue_shrinks_def removeWaiting_def remove_uid_subseq count_withdrawn_def
      Close_def split: wreason.split)

lemma Admit_reject_shrinks: "Admit gate tkt now q = (q', Inl err) \<Longrightarrow> queue_shrinks q q'"
  by (auto simp: Admit_def Let_def queue_shrinks_ops split: option.splits if_splits)

lemma Admit_ok_facts:
  assumes "Admit gate tkt now q = (q', Inr t)"
  shows "q' = q_enqueue q t" and "t_uid t = t_uid tkt" and "\<not> q_closed q" and "gate = None"
    and "int (length (q_waiting q)) < qc_MaxQueuedRequests (q_cfg q)"
  using assms by (auto simp: Admit_def Let_def q_enqueue_def split: option.splits if_splits)

lemma new_tstate_simps [simp]:
  "ts_ticket (new_tstate t) = t" "ts_pc (new_tstate t) = InSelect" "\<not> ts_dispatched (new_tstate t)"
  by (simp_all add: new_tstate_def)

lemma inv_admit:
  assumes inv: "qsys_inv cfg S" and n: "t_uid t = q_arrivals (sys_q S)"
    and len: "int (length (q_waiting (sys_q S))) < qc_MaxQueuedRequests (q_cfg (sys_q S))"
  shows "qsys_inv cfg (set_t (t_uid t) (new_tstate t) (S\<lparr>sys_q := q_enqueue (sys_q S) t\<rparr>))"
    (is "qsys_inv cfg ?S'")
proof -
  note I = qsys_invD [OF inv]
  let ?n = "q_arrivals (sys_q S)"
  have fresh: "?n \<notin> dom (sys_t S)" using I(2) by simp
  have t': "sys_t ?S' = (sys_t S)(?n \<mapsto> new_tstate t)" "sys_disp ?S' = sys_disp S"
      "sys_q ?S' = q_enqueue (sys_q S) t"
    using n by (simp_all add: set_t_def)
  have w: "waiting_uids ?S' = waiting_uids S @ [?n]"
    using n by (simp add: waiting_uids_def set_t_def q_enqueue_def)
  have d: "t_uid t' \<noteq> ?n" if "sys_disp S = Some t'" for t' using I(6) [OF that] fresh by auto
  have g: "granted ?S' u = granted S u" for u
    using fresh d by (auto simp: granted_def t' dom_def)
  have gn: "granted S u \<Longrightarrow> u < ?n" for u using I(2) by (auto simp: granted_def dom_def)
  have h: "slot_holders ?S' = slot_holders S"
    using fresh d by (auto simp: slot_holders_def g t' granted_def dom_def)
  show ?thesis
    unfolding qsys_inv_def g h w t'
  proof (intro conjI allI impI)
    show "sorted_wrt (<) (waiting_uids S @ [?n])"
      using I(2,4,5) by (auto simp: sorted_wrt_append)
    show "u < v" if "granted S u \<and> v \<in> set (waiting_uids S @ [?n])" for u v
      using that I(7) gn by auto
    show "t_uid (ts_ticket x) = u" if "((sys_t S)(?n \<mapsto> new_tstate t)) u = Some x" for u x
      using that I(3) n by (auto split: if_splits)
    show "ts_dispatched x" if "((sys_t S)(?n \<mapsto> new_tstate t)) u = Some x \<and> ts_pc x \<in> {Running, Served}"
      for u x using that I(8) by (auto split: if_splits)
    show "\<not> ts_dispatched x"
      if "sys_disp S = Some t' \<and> ((sys_t S)(?n \<mapsto> new_tstate t)) (t_uid t') = Some x" for t' x
      using that I(9) d by (auto split: if_splits)
    show "q_inflight (q_enqueue (sys_q S) t) \<le> qc_MaxInflightRequests cfg"
      if "0 \<le> qc_MaxInflightRequests cfg" using I(13) [OF that] by (simp add: q_enqueue_def)
    show "t_uid t' \<in> dom ((sys_t S)(?n \<mapsto> new_tstate t))" if "sys_disp S = Some t'" for t'
      using I(6) [OF that] by simp
  qed (use I(1,2,5,10,11) len in \<open>auto simp: q_enqueue_def\<close>)
qed

lemma inv_pop:
  assumes inv: "qsys_inv cfg S" and can: "can_dispatch (sys_q S)" and idle: "sys_disp S = None"
  shows "qsys_inv cfg (S\<lparr>sys_q := drain_pop now (sys_q S),
           sys_disp := Some (hd (q_waiting (sys_q S)))\<rparr>)" (is "qsys_inv cfg ?S'")
proof -
  note I = qsys_invD [OF inv]
  obtain t ws where tw: "q_waiting (sys_q S) = t # ws"
    using can by (cases "q_waiting (sys_q S)") (auto simp: can_dispatch_def)
  let ?u = "t_uid t"
  have W: "waiting_uids S = ?u # map t_uid ws" by (simp add: waiting_uids_def tw)
  have w: "waiting_uids ?S' = map t_uid ws" by (simp add: waiting_uids_def tw)
  obtain x where x: "sys_t S ?u = Some x" using I(5) W by auto
  have notg: "\<not> granted S ?u" using I(7) [of ?u ?u] W by auto
  then have nd: "\<not> ts_dispatched x" using x by (simp add: granted_def)
  have g: "granted ?S' u \<longleftrightarrow> u = ?u \<or> granted S u" for u
    using x idle by (auto simp: granted_def tw)
  have ns: "ts_pc x \<noteq> Served" using I(8) [OF x] nd by auto
  have h: "slot_holders ?S' = insert ?u (slot_holders S)"
    using x ns by (auto simp: slot_holders_def g)
  have "?u \<notin> slot_holders S" using notg by (simp add: slot_holders_def)
  then have c: "card (slot_holders ?S') = Suc (card (slot_holders S))"
    using slot_holders_finite [OF inv] by (simp add: h)
  show ?thesis
    unfolding qsys_inv_def g w c
  proof (intro conjI allI impI)
    show "u < v" if "(u = ?u \<or> granted S u) \<and> v \<in> set (map t_uid ws)" for u v
      using that I(4,7) W by auto
    show "\<not> ts_dispatched x'" if "sys_disp ?S' = Some t' \<and> sys_t ?S' (t_uid t') = Some x'" for t' x'
      using that x nd by (auto simp: tw)
    show "int (length (q_waiting (sys_q ?S'))) \<le> qc_MaxQueuedRequests cfg"
      if "0 \<le> qc_MaxQueuedRequests cfg" using I(12) [OF that] by (simp add: tw)
    show "q_inflight (sys_q ?S') \<le> qc_MaxInflightRequests cfg"
      using can I(1) by (simp add: can_dispatch_def)
    show "t_uid t' \<in> dom (sys_t ?S')" if "sys_disp ?S' = Some t'" for t'
      using that x by (auto simp: tw)
  qed (use I(1,2,3,4,5,8,10,11) W in auto)
qed

lemma inv_close_channel:
  assumes inv: "qsys_inv cfg S" and disp: "sys_disp S = Some t" and x: "sys_t S (t_uid t) = Some x"
  shows "qsys_inv cfg (set_t (t_uid t) (x\<lparr>ts_dispatched := True\<rparr>) (S\<lparr>sys_disp := None\<rparr>))"
    (is "qsys_inv cfg ?S'")
proof -
  note I = qsys_invD [OF inv]
  have t': "sys_t ?S' = (sys_t S)(t_uid t \<mapsto> x\<lparr>ts_dispatched := True\<rparr>)" "sys_disp ?S' = None"
      "sys_q ?S' = sys_q S" "waiting_uids ?S' = waiting_uids S"
    by (simp_all add: set_t_def waiting_uids_def)
  have g: "granted ?S' = granted S"
    using disp x by (intro ext) (auto simp: granted_def t')
  have h: "slot_holders ?S' = slot_holders S"
    using x by (auto simp: slot_holders_def g t')
  show ?thesis
    unfolding qsys_inv_def g h t'
  proof (intro conjI allI impI)
    show "ts_dispatched y"
      if "((sys_t S)(t_uid t \<mapsto> x\<lparr>ts_dispatched := True\<rparr>)) u = Some y \<and> ts_pc y \<in> {Running, Served}"
      for u y using that I(8) by (auto split: if_splits)
    show "t_uid (ts_ticket y) = u" if "((sys_t S)(t_uid t \<mapsto> x\<lparr>ts_dispatched := True\<rparr>)) u = Some y"
      for u y using that I(3) x by (auto split: if_splits)
    show "u < v" if "granted S u \<and> v \<in> set (waiting_uids S)" for u v using that I(7) by blast
  qed (use I(1,2,4,5,10-13) x in auto)
qed

lemma Done_simps [simp]:
  "q_cfg (Done now q) = q_cfg q" "q_arrivals (Done now q) = q_arrivals q"
  "q_waiting (Done now q) = q_waiting q" "q_dispatched (Done now q) = q_dispatched q"
  "q_completed (Done now q) = q_completed q + 1"
  "q_inflight (Done now q) = (if q_inflight q > 0 then q_inflight q - 1 else q_inflight q)"
  by (simp_all add: Done_def)

lemma inv_finish:
  assumes inv: "qsys_inv cfg S" and x: "sys_t S u = Some x" and pc: "ts_pc x = Running"
  shows "qsys_inv cfg (set_t u (x\<lparr>ts_pc := Served\<rparr>) (S\<lparr>sys_q := Done now (sys_q S)\<rparr>))"
    (is "qsys_inv cfg ?S'")
proof -
  note I = qsys_invD [OF inv]
  have dx: "ts_dispatched x" using I(8) [OF x] pc by simp
  have t': "sys_t ?S' = (sys_t S)(u \<mapsto> x\<lparr>ts_pc := Served\<rparr>)" "sys_disp ?S' = sys_disp S"
      "waiting_uids ?S' = waiting_uids S" "sys_q ?S' = Done now (sys_q S)"
    by (simp_all add: set_t_def waiting_uids_def)
  have g: "granted ?S' = granted S"
    using x by (intro ext) (auto simp: granted_def t')
  have h: "slot_holders ?S' = slot_holders S - {u}"
    using x by (auto simp: slot_holders_def g t')
  have mem: "u \<in> slot_holders S" using x pc dx by (simp add: slot_holders_def granted_def)
  have c: "card (slot_holders S) = Suc (card (slot_holders ?S'))"
    unfolding h using slot_holders_finite [OF inv] mem card_Suc_Diff1 by metis
  have q: "q_inflight (Done now (sys_q S)) = int (card (slot_holders ?S'))"
    using I(10) c by simp
  show ?thesis
    unfolding qsys_inv_def g t'(1-3)
  proof (intro conjI allI impI)
    show "q_inflight (sys_q ?S') = int (card (slot_holders ?S'))" using q by (simp add: t'(4))
    show "int (q_dispatched (sys_q ?S')) = int (q_completed (sys_q ?S')) + q_inflight (sys_q ?S')"
      using I(10,11) c q by (simp add: t'(4))
    show "ts_dispatched y"
      if "((sys_t S)(u \<mapsto> x\<lparr>ts_pc := Served\<rparr>)) v = Some y \<and> ts_pc y \<in> {Running, Served}" for v y
      using that I(8) dx by (auto split: if_splits)
    show "t_uid (ts_ticket y) = v" if "((sys_t S)(u \<mapsto> x\<lparr>ts_pc := Served\<rparr>)) v = Some y" for v y
      using that I(3) x by (auto split: if_splits)
    show "a < b" if "granted S a \<and> b \<in> set (waiting_uids S)" for a b using that I(7) by blast
    show "\<not> ts_dispatched y"
      if "sys_disp S = Some t \<and> ((sys_t S)(u \<mapsto> x\<lparr>ts_pc := Served\<rparr>)) (t_uid t) = Some y" for t y
      using that I(9) x by (auto split: if_splits)
    show "q_inflight (sys_q ?S') \<le> qc_MaxInflightRequests cfg"
      if "0 \<le> qc_MaxInflightRequests cfg" using I(10) I(13) [OF that] c q by (simp add: t'(4))
  qed (use I(1,2,4,5,6,12) x in \<open>auto simp: t'(4)\<close>)
qed

lemma inv_goroutine:
  assumes "qsys_inv cfg S" and "sys_t S u = Some x" and "ts_ticket x' = ts_ticket x"
    and "ts_dispatched x' = ts_dispatched x" and "ts_pc x' = Served \<longleftrightarrow> ts_pc x = Served"
    and "ts_pc x' = Running \<Longrightarrow> ts_dispatched x"
  shows "qsys_inv cfg (set_t u x' S)"
proof -
  have "same_grants (sys_t S) ((sys_t S)(u \<mapsto> x'))" by (rule same_grants_upd [OF assms])
  from qsys_inv_same [OF assms(1) this queue_shrinks_refl] show ?thesis by (simp add: set_t_def)
qed

lemma same_grants_cancel_all: "qsys_inv cfg S \<Longrightarrow> same_grants (sys_t S) (cancel_all us (sys_t S))"
  using same_grants_refl [of cfg S]
  by (auto simp: same_grants_def cancel_all_def option.rel_map)

lemma qsys_inv_step: "qstep S S' \<Longrightarrow> qsys_inv cfg S \<Longrightarrow> qsys_inv cfg S'"
proof (induction rule: qstep.induct)
  case (admit_ok tkt S gate now q' t)
  note f = Admit_ok_facts [OF admit_ok(2)]
  from inv_admit [OF admit_ok(3), of t] f(2,5) admit_ok(1) show ?case by (simp add: f(1))
next
  case (admit_reject gate tkt now S q' err)
  then show ?case
    using qsys_inv_same [OF _ same_grants_refl Admit_reject_shrinks, of cfg S cfg] by force
next
  case (close_queue S)
  then show ?case by (intro qsys_inv_same same_grants_cancel_all queue_shrinks_ops)
next
  case (remove S u x r)
  then show ?case
    unfolding set_t_queue by (intro qsys_inv_same same_grants_upd queue_shrinks_ops) auto
next
  case (count S u x r)
  then show ?case
    unfolding set_t_queue by (intro qsys_inv_same same_grants_upd queue_shrinks_ops) auto
next
  case (select_dispatch S u x)
  then show ?case by (intro inv_goroutine) auto
next
  case (select_cancel S u x)
  then show ?case by (intro inv_goroutine) auto
next
  case (select_timeout S u x)
  then show ?case by (intro inv_goroutine) auto
next
  case (cancel S u x)
  then show ?case by (intro inv_goroutine) (auto dest: qsys_invD(8))
qed (simp_all add: inv_pop inv_close_channel inv_finish)

lemma qreach_inv: "qreach cfg S \<Longrightarrow> qsys_inv cfg S"
  by (induction rule: rtranclp_induct) (auto intro: qsys_inv_init qsys_inv_step)

section \<open>The leaked slot\<close>

text \<open>A ticket that the dispatcher took but whose goroutine left the \<open>select\<close> through the timeout or
  the cancellation branch: nobody will call \<open>Done\<close> for it.\<close>

definition leaked :: "qsys \<Rightarrow> nat \<Rightarrow> bool" where
  "leaked S u \<longleftrightarrow> granted S u \<and>
     (\<exists>x. sys_t S u = Some x \<and> (\<exists>r. ts_pc x \<in> {Removing r, Counting r, Withdrawn r}))"

lemma leaked_holds_slot: "leaked S u \<Longrightarrow> u \<in> slot_holders S"
  by (auto simp: leaked_def slot_holders_def)

lemma granted_step:
  assumes "qstep S S'" and "qsys_inv cfg S" and "granted S u"
  shows "granted S' u"
  using assms
proof (induction rule: qstep.induct)
  case (admit_ok tkt S gate now q' t)
  have "t_uid t = q_arrivals (sys_q S)" using Admit_ok_facts(2) [OF admit_ok(2)] admit_ok(1) by simp
  moreover have "u < q_arrivals (sys_q S)"
    using admit_ok(4) qsys_invD(2) [OF admit_ok(3)] by (auto simp: granted_def dom_def)
  ultimately show ?case using admit_ok(4) by (auto simp: granted_def set_t_def)
qed (auto simp: granted_def set_t_def cancel_all_def)

lemma leaked_step:
  assumes "qstep S S'" and "qsys_inv cfg S" and "leaked S u"
  shows "leaked S' u"
proof -
  have g: "granted S' u" using granted_step [OF assms(1,2)] assms(3) by (simp add: leaked_def)
  have "\<exists>x. sys_t S' u = Some x \<and> (\<exists>r. ts_pc x \<in> {Removing r, Counting r, Withdrawn r})"
    using assms
  proof (induction rule: qstep.induct)
    case (admit_ok tkt S gate now q' t)
    have "t_uid t = q_arrivals (sys_q S)" using Admit_ok_facts(2) [OF admit_ok(2)] admit_ok(1) by simp
    moreover have "u < q_arrivals (sys_q S)"
      using admit_ok(4) qsys_invD(2) [OF admit_ok(3)] by (auto simp: leaked_def granted_def dom_def)
    ultimately show ?case using admit_ok(4) by (auto simp: leaked_def set_t_def)
  qed (auto simp: leaked_def set_t_def cancel_all_def)
  with g show ?thesis by (simp add: leaked_def)
qed

lemma leaked_forever:
  assumes "qstep\<^sup>*\<^sup>* S S'" and "qsys_inv cfg S" and "leaked S u"
  shows "leaked S' u \<and> qsys_inv cfg S'"
  using assms by (induction rule: rtranclp_induct) (auto intro: leaked_step qsys_inv_step)

text \<open>A run that leaks: one request is admitted and dispatched, and its timer fires before its
  goroutine has looked at the channel.\<close>

definition one_slot :: QueueConfig where
  "one_slot = DefaultQueueConfig\<lparr>qc_MaxInflightRequests := 1\<rparr>"

definition ticket0 :: Ticket where
  "ticket0 = \<lparr>t_uid = 0, t_RequestID = ''r'', t_RouteID = [], t_BackendID = [], t_HostID = [],
     t_DeviceID = [], t_enqueuedMono = 0\<rparr>"

definition leak_state :: "tpc \<Rightarrow> bool \<Rightarrow> Ticket option \<Rightarrow> Queue \<Rightarrow> qsys" where
  "leak_state pc disp d q = \<lparr>sys_q = q, sys_t = [0 \<mapsto> \<lparr>ts_ticket = ticket0, ts_pc = pc,
     ts_dispatched = disp, ts_cancelled = False\<rparr>], sys_disp = d\<rparr>"

lemma leak_run:
  defines "q1 \<equiv> q_enqueue (NewQueue one_slot) ticket0"
  defines "q3 \<equiv> removeWaiting ticket0 (drain_pop 1 q1)"
  shows "qreach one_slot (leak_state (Withdrawn WTimeout) True None (count_withdrawn WTimeout q3))"
proof -
  note defs = leak_state_def set_t_def qsys_init_def new_tstate_def q1_def q3_def
  have w: "q_waiting q1 = [ticket0]" "q_cfg q1 = one_slot" "q_inflight q1 = 0"
    by (simp_all add: q1_def q_enqueue_def NewQueue_def)
  have to: "0 < qc_QueueTimeout one_slot"
    by (simp add: one_slot_def DefaultQueueConfig_def Second_def)
  have "Admit None ticket0 0 (sys_q (qsys_init one_slot)) = (q1, Inr ticket0)"
    by (simp add: Admit_def q1_def q_enqueue_def qsys_init_def NewQueue_def ticket0_def one_slot_def
        DefaultQueueConfig_def Let_def)
  from admit_ok [OF _ this] have 1: "qstep (qsys_init one_slot) (leak_state InSelect False None q1)"
    by (simp add: defs ticket0_def NewQueue_def)
  have 2: "qstep (leak_state InSelect False None q1)
      (leak_state InSelect False (Some ticket0) (drain_pop 1 q1))"
    using pop [of "leak_state InSelect False None q1" 1] w
    by (simp add: leak_state_def can_dispatch_def one_slot_def)
  have 3: "qstep (leak_state InSelect False (Some ticket0) (drain_pop 1 q1))
      (leak_state InSelect True None (drain_pop 1 q1))"
    using close_channel [of "leak_state InSelect False (Some ticket0) (drain_pop 1 q1)" ticket0]
    by (simp add: leak_state_def set_t_def ticket0_def)
  have 4: "qstep (leak_state InSelect True None (drain_pop 1 q1))
      (leak_state (Removing WTimeout) True None (drain_pop 1 q1))"
    using select_timeout [of "leak_state InSelect True None (drain_pop 1 q1)" 0] w to
    by (simp add: leak_state_def set_t_def)
  have 5: "qstep (leak_state (Removing WTimeout) True None (drain_pop 1 q1))
      (leak_state (Counting WTimeout) True None q3)"
    using remove [of "leak_state (Removing WTimeout) True None (drain_pop 1 q1)" 0
        "\<lparr>ts_ticket = ticket0, ts_pc = Removing WTimeout,
        ts_dispatched = True, ts_cancelled = False\<rparr>" WTimeout]
    by (simp add: leak_state_def set_t_def q3_def)
  have 6: "qstep (leak_state (Counting WTimeout) True None q3)
      (leak_state (Withdrawn WTimeout) True None (count_withdrawn WTimeout q3))"
    using count [of "leak_state (Counting WTimeout) True None q3" 0
        "\<lparr>ts_ticket = ticket0, ts_pc = Counting WTimeout,
        ts_dispatched = True, ts_cancelled = False\<rparr>" WTimeout]
    by (simp add: leak_state_def set_t_def)
  from 1 2 3 4 5 6 show ?thesis by (meson rtranclp.rtrancl_into_rtrancl rtranclp.rtrancl_refl)
qed

section \<open>Metrics\<close>

text \<open>Pruning the rate timestamps in one snapshot does not change a later one.\<close>

lemma rate_pruneOld: "now \<le> later \<Longrightarrow> rateInWindow (pruneOld ts now w) later w = rateInWindow ts later w"
proof -
  assume le: "now \<le> later"
  have "filter (\<lambda>t. later - w \<le> t) (dropWhile (\<lambda>t. t < now - w) ts) = filter (\<lambda>t. later - w \<le> t) ts"
    using le by (induction ts) auto
  then show ?thesis by (simp add: rateInWindow_def pruneOld_def)
qed

lemma pctile_mono: "0 \<le> p \<Longrightarrow> p \<le> q \<Longrightarrow> q \<le> 100 \<Longrightarrow> pctile xs p \<le> pctile xs q"
  by (simp add: pctile_def percentile_mono)

section \<open>Properties\<close>

text \<open>C1: The limits hold in every interleaving of requests, dispatcher, timeouts, cancellations and
  shutdown: at most \<open>MaxQueuedRequests\<close> tickets wait and at most \<open>MaxInflightRequests\<close> slots are
  taken; the in-flight counter is the number of tickets that hold a slot, and every dispatched
  ticket is either completed or still counted in flight.\<close>

theorem queue_limits:
  assumes "qreach cfg S" and "0 \<le> qc_MaxQueuedRequests cfg" and "0 \<le> qc_MaxInflightRequests cfg"
  shows "int (length (q_waiting (sys_q S))) \<le> qc_MaxQueuedRequests cfg \<and>
         q_inflight (sys_q S) \<le> qc_MaxInflightRequests cfg \<and>
         q_inflight (sys_q S) = int (card (slot_holders S)) \<and>
         int (q_dispatched (sys_q S)) = int (q_completed (sys_q S)) + q_inflight (sys_q S)"
  using qsys_invD(10-13) [OF qreach_inv [OF assms(1)]] assms(2,3) by simp

text \<open>C11: Dispatch is first in, first out under every interleaving: when a ticket has been
  dispatched, no ticket that arrived before it is still waiting, and waiting tickets stay in
  arrival order.\<close>

theorem dispatch_fifo:
  assumes "qreach cfg S" and "granted S u"
  shows "(\<forall>v \<in> set (waiting_uids S). u < v) \<and> sorted_wrt (<) (waiting_uids S)"
  using qsys_invD(4,7) [OF qreach_inv [OF assms(1)]] assms(2) by blast

text \<open>Order of service with withdrawals: over any sequence of admissions, dispatches and
  withdrawals from any starting queue, the tickets dispatched, followed by those still waiting,
  form a subsequence of the initially waiting ones followed by the admitted ones.\<close>

lemma service_order:
  assumes "fifo_buffer.run q_waiting q_enqueue (drain_pop now) (\<lambda>q t. removeWaiting t q) q ops =
             (dispatched, q')"
  shows "subseq (dispatched @ q_waiting q') (q_waiting q @ fifo_buffer.puts ops)"
  using assms by (rule admq.run_order)


text \<open>C8: A slot can be lost for ever. With one in-flight slot there is a reachable state in which
  every request has ended and the dispatcher is idle, and from which no future request is ever
  dispatched: a ticket whose timeout fires after the dispatcher took it never gives its slot
  back.\<close>

theorem inflight_slot_leak:
  "\<exists>S. qreach one_slot S \<and> sys_disp S = None \<and> q_waiting (sys_q S) = [] \<and>
       (\<forall>u x. sys_t S u = Some x \<longrightarrow> ts_pc x = Withdrawn WTimeout) \<and>
       (\<forall>S'. qstep\<^sup>*\<^sup>* S S' \<longrightarrow> \<not> can_dispatch (sys_q S'))"
proof -
  let ?q1 = "q_enqueue (NewQueue one_slot) ticket0"
  let ?q = "count_withdrawn WTimeout (removeWaiting ticket0 (drain_pop 1 ?q1))"
  let ?S = "leak_state (Withdrawn WTimeout) True None ?q"
  have reach: "qreach one_slot ?S" by (rule leak_run)
  have leak: "leaked ?S 0" by (simp add: leaked_def granted_def leak_state_def)
  have "\<not> can_dispatch (sys_q S')" if "qstep\<^sup>*\<^sup>* ?S S'" for S'
  proof -
    have l: "leaked S' 0" and inv: "qsys_inv one_slot S'"
      using leaked_forever [OF that qreach_inv [OF reach] leak] by auto
    have "0 < card (slot_holders S')"
      using leaked_holds_slot [OF l] slot_holders_finite [OF inv] card_gt_0_iff by blast
    then have "1 \<le> q_inflight (sys_q S')" using qsys_invD(10) [OF inv] by simp
    then show ?thesis using qsys_invD(1) [OF inv] by (simp add: can_dispatch_def one_slot_def)
  qed
  moreover have "q_waiting ?q = []" by (simp add: count_withdrawn_def removeWaiting_def q_enqueue_def
        NewQueue_def)
  ultimately show ?thesis
    using reach by (intro exI [of _ ?S]) (auto simp: leak_state_def split: if_splits)
qed

text \<open>Reading the metrics is harmless: a snapshot changes neither the waiting tickets nor the
  slots nor the counters, later snapshots report the same rates as if it had not been taken, and
  the median wait it reports is at most the 95th percentile.\<close>

lemma snapshot_harmless:
  assumes "now \<le> later"
  shows "snd (q_Snapshot later (fst (q_Snapshot now q))) = snd (q_Snapshot later q) \<and>
         q_waiting (fst (q_Snapshot now q)) = q_waiting q \<and>
         q_inflight (fst (q_Snapshot now q)) = q_inflight q \<and>
         sn_WaitP50Ms (snd (q_Snapshot now q)) \<le> sn_WaitP95Ms (snd (q_Snapshot now q))"
  using assms by (simp add: q_Snapshot_def rate_pruneOld pctile_mono)

section \<open>Witnesses\<close>

lemma sample_reach: "qreach one_slot (leak_state InSelect False None
  (q_enqueue (NewQueue one_slot) ticket0))"
proof -
  have "Admit None ticket0 0 (sys_q (qsys_init one_slot)) =
      (q_enqueue (NewQueue one_slot) ticket0, Inr ticket0)"
    by (simp add: Admit_def q_enqueue_def qsys_init_def NewQueue_def ticket0_def one_slot_def
        DefaultQueueConfig_def Let_def)
  from admit_ok [OF _ this] show ?thesis
    by (intro r_into_rtranclp) (simp add: leak_state_def set_t_def qsys_init_def new_tstate_def
        ticket0_def NewQueue_def)
qed

theorem queue_limits_witness:
  "q_inflight (sys_q (leak_state InSelect False None (q_enqueue (NewQueue one_slot) ticket0))) \<le> 1"
  using queue_limits [OF sample_reach] by (simp add: one_slot_def DefaultQueueConfig_def)

theorem inflight_slot_leak_witness:
  "\<exists>S. qreach one_slot S \<and> sys_disp S = None \<and>
     \<not> can_dispatch (sys_q S) \<and> \<not> can_dispatch (fst (Close (sys_q S)))"
  using inflight_slot_leak close_queue
  by (metis (no_types, lifting) qsys.select_convs(1) qsys.surjective qsys.update_convs(1)
      r_into_rtranclp rtranclp.rtrancl_refl qsys.update_convs(2))

theorem dispatch_fifo_witness:
  "\<exists>S. qreach one_slot S \<and> granted S 0 \<and> (\<forall>v \<in> set (waiting_uids S). 0 < v)"
  using dispatch_fifo [OF leak_run, of 0] leak_run
  by (auto simp: granted_def leak_state_def intro!: exI)


end
