(* ===== verification/Vllm_Runtime.thy ===== *)
theory Vllm_Runtime
  imports Core_Model Go_Strings "HOL-Library.AList"
begin

text \<open>
  The vLLM runtime adapter (\<open>internal/runtime/model.go\<close> and \<open>internal/runtime/vllm\<close>): the parser of
  the Prometheus text format, the mapping to normalised metrics, and the adapter with its scrape and
  health check.

  \<open>strconv.ParseFloat\<close> is the parameter \<open>pf\<close>; \<open>None\<close> is an error. Sample values come from outside the
  process and are \<open>f64\<close>. The replies of the HTTP clients and the clock readings are arguments. A Go
  map is an association list, updated with \<open>AList.update\<close>.
\<close>

section \<open>Parsing the text format\<close>

record promSample =
  ps_Name :: string
  ps_Labels :: "(string \<times> string) list"
  ps_Value :: f64

text \<open>\<open>parseLabels\<close>: the two builders, the two flags and the map; \<open>lab_flush\<close> is the closure.\<close>

record label_state =
  ls_key :: string
  ls_val :: string
  ls_inVal :: bool
  ls_inQuote :: bool
  ls_m :: "(string \<times> string) list"

definition lab_flush :: "label_state \<Rightarrow> label_state" where
  "lab_flush st =
     (let k = TrimSpace (ls_key st)
      in st\<lparr>ls_m := (if k \<noteq> [] then AList.update k (ls_val st) (ls_m st) else ls_m st),
            ls_key := [], ls_val := [], ls_inVal := False\<rparr>)"

definition lab_char :: "label_state \<Rightarrow> char \<Rightarrow> label_state" where
  "lab_char st c =
     (if c = CHR 0x22 then st\<lparr>ls_inQuote := \<not> ls_inQuote st\<rparr>
      else if c = CHR ''='' \<and> \<not> ls_inQuote st \<and> \<not> ls_inVal st then st\<lparr>ls_inVal := True\<rparr>
      else if c = CHR '','' \<and> \<not> ls_inQuote st then lab_flush st
      else if ls_inVal st then st\<lparr>ls_val := ls_val st @ [c]\<rparr>
      else st\<lparr>ls_key := ls_key st @ [c]\<rparr>)"

definition lab_init :: label_state where
  "lab_init = \<lparr>ls_key = [], ls_val = [], ls_inVal = False, ls_inQuote = False, ls_m = []\<rparr>"

definition parseLabels :: "string \<Rightarrow> (string \<times> string) list" where
  "parseLabels s = ls_m (lab_flush (foldl lab_char lab_init s))"

text \<open>The value and optional timestamp at the end of a line.\<close>

definition parse_value :: "(string \<Rightarrow> f64 option) \<Rightarrow> string \<Rightarrow> f64 option" where
  "parse_value pf rest = (case Fields rest of [] \<Rightarrow> None | v # _ \<Rightarrow> pf v)"

definition parseLine :: "(string \<Rightarrow> f64 option) \<Rightarrow> string \<Rightarrow> promSample option" where
  "parseLine pf line =
     (let (name, rest0) = (case break_at (\<lambda>c. c = CHR ''{'' \<or> c = CHR '' '') line of
                             Some p \<Rightarrow> p | None \<Rightarrow> (line, []));
          nm = TrimSpace name;
          rest = TrimSpace rest0
      in if nm = [] then None
         else case (if HasPrefix rest ''{''
                    then (case break_at (\<lambda>c. c = CHR ''}'') rest of
                            None \<Rightarrow> None
                          | Some (a, b) \<Rightarrow> Some (parseLabels (tl a), TrimSpace (tl b)))
                    else Some ([], rest)) of
              None \<Rightarrow> None
            | Some (labels, rest1) \<Rightarrow>
                (case parse_value pf rest1 of
                   None \<Rightarrow> None
                 | Some v \<Rightarrow> Some \<lparr>ps_Name = nm, ps_Labels = labels, ps_Value = v\<rparr>))"

definition max_line :: nat where
  "max_line = 4 * 1024 * 1024"

definition scan_bounded :: "string \<Rightarrow> string list" where
  "scan_bounded s = scan_limited max_line s"

definition parse_step :: "(string \<Rightarrow> f64 option) \<Rightarrow> string \<Rightarrow> promSample list" where
  "parse_step pf raw =
     (let line = TrimSpace raw
      in if line = [] \<or> HasPrefix line ''#'' then []
         else case parseLine pf line of Some s \<Rightarrow> [s] | None \<Rightarrow> [])"

definition parsePrometheus :: "(string \<Rightarrow> f64 option) \<Rightarrow> string \<Rightarrow> promSample list" where
  "parsePrometheus pf txt = concat (map (parse_step pf) (scan_bounded txt))"

section \<open>Queries over samples\<close>

definition sumByName :: "promSample list \<Rightarrow> string \<Rightarrow> f64 option" where
  "sumByName samples name =
     (let vs = map ps_Value (filter (\<lambda>s. ps_Name s = name) samples)
      in if vs = [] then None else Some (foldl f64_add (Fin 0) vs))"

definition firstByName :: "promSample list \<Rightarrow> string \<Rightarrow> f64 option" where
  "firstByName samples name = map_option ps_Value (find (\<lambda>s. ps_Name s = name) samples)"

record bucket =
  bk_le :: f64
  bk_count :: f64

definition inf_le :: real where
  "inf_le = 10 ^ 18"

definition to_bucket :: "(string \<Rightarrow> f64 option) \<Rightarrow> string \<Rightarrow> promSample \<Rightarrow> bucket list" where
  "to_bucket pf name s =
     (if ps_Name s \<noteq> name @ ''_bucket'' then []
      else case map_of (ps_Labels s) ''le'' of
        None \<Rightarrow> []
      | Some leStr \<Rightarrow>
          if leStr = ''+Inf'' then [\<lparr>bk_le = Fin inf_le, bk_count = ps_Value s\<rparr>]
          else (case pf leStr of None \<Rightarrow> []
                | Some f \<Rightarrow> [\<lparr>bk_le = f, bk_count = ps_Value s\<rparr>]))"

definition max_count :: "bucket list \<Rightarrow> f64" where
  "max_count bs = foldl (\<lambda>total b. if f64_lt total (bk_count b) then bk_count b else total) (Fin 0) bs"

text \<open>The exchange sort: the inner loop carries the element at position \<open>i\<close> past the later ones and
  exchanges it with each smaller one.\<close>

fun sort_pass :: "bucket \<Rightarrow> bucket list \<Rightarrow> bucket \<times> bucket list" where
  "sort_pass x [] = (x, [])"
| "sort_pass x (y # ys) =
     (if f64_lt (bk_le y) (bk_le x)
      then (let (m, zs) = sort_pass y ys in (m, x # zs))
      else (let (m, zs) = sort_pass x ys in (m, y # zs)))"

lemma sort_pass_length [simp]: "length (snd (sort_pass x ys)) = length ys"
  by (induction x ys rule: sort_pass.induct) (auto split: prod.split)

function exchange_sort :: "bucket list \<Rightarrow> bucket list" where
  "exchange_sort [] = []"
| "exchange_sort (x # xs) = fst (sort_pass x xs) # exchange_sort (snd (sort_pass x xs))"
  by pat_completeness auto
termination by (relation "measure length") auto

definition histogramQuantile ::
  "(string \<Rightarrow> f64 option) \<Rightarrow> promSample list \<Rightarrow> string \<Rightarrow> real \<Rightarrow> f64 option" where
  "histogramQuantile pf samples name q =
     (let buckets = concat (map (to_bucket pf name) samples);
          total = max_count buckets;
          sorted = exchange_sort buckets;
          target = f64_mul (Fin q) total
      in if buckets = [] \<or> total = Fin 0 then None
         else case find (\<lambda>b. f64_le target (bk_count b)) sorted of
           Some b \<Rightarrow> if f64_le (Fin inf_le) (bk_le b) then Some (bk_le (last sorted)) else Some (bk_le b)
         | None \<Rightarrow> Some (bk_le (last sorted)))"

section \<open>Normalised metrics\<close>

record RuntimeMetrics =
  rm_Timestamp :: walltime
  rm_Healthy :: bool
  rm_ScrapeOK :: bool
  rm_ScrapeAgeMs :: real
  rm_ScrapeLatencyMs :: real
  rm_RequestsRunning :: "f64 Field"
  rm_RequestsWaiting :: "f64 Field"
  rm_KVCacheUtil :: "f64 Field"
  rm_ActiveSequences :: "f64 Field"
  rm_PromptThroughput :: "f64 Field"
  rm_GenThroughput :: "f64 Field"
  rm_RequestLatencyP50 :: "f64 Field"
  rm_QueueLatencyP50 :: "f64 Field"
  rm_TTFTP50 :: "f64 Field"
  rm_TPOTP50 :: "f64 Field"
  rm_PreemptionsTotal :: "f64 Field"
  rm_PrefixCacheHits :: "f64 Field"
  rm_PrefixCacheQueries :: "f64 Field"
  rm_RequestsSuccess :: "f64 Field"
  rm_RequestsFailed :: "f64 Field"
  rm_ModelName :: string
  rm_RuntimeVersion :: string
  rm_RawMetricSources :: "(string \<times> string) list"
  rm_UnsupportedFields :: "string list"

abbreviation no_value :: "f64 Field" where
  "no_value \<equiv> Unsup (Fin 0)"

definition zero_RuntimeMetrics :: RuntimeMetrics where
  "zero_RuntimeMetrics = \<lparr>rm_Timestamp = 0, rm_Healthy = False, rm_ScrapeOK = False,
     rm_ScrapeAgeMs = 0, rm_ScrapeLatencyMs = 0, rm_RequestsRunning = no_value,
     rm_RequestsWaiting = no_value, rm_KVCacheUtil = no_value, rm_ActiveSequences = no_value,
     rm_PromptThroughput = no_value, rm_GenThroughput = no_value, rm_RequestLatencyP50 = no_value,
     rm_QueueLatencyP50 = no_value, rm_TTFTP50 = no_value, rm_TPOTP50 = no_value,
     rm_PreemptionsTotal = no_value, rm_PrefixCacheHits = no_value, rm_PrefixCacheQueries = no_value,
     rm_RequestsSuccess = no_value, rm_RequestsFailed = no_value, rm_ModelName = [],
     rm_RuntimeVersion = [], rm_RawMetricSources = [], rm_UnsupportedFields = []\<rparr>"

text \<open>The three setters: the first of the names that gives a value decides. \<open>first_some\<close> also says
  which name it was.\<close>

fun first_some :: "(string \<Rightarrow> f64 option) \<Rightarrow> string list \<Rightarrow> (string \<times> f64) option" where
  "first_some get [] = None"
| "first_some get (n # ns) = (case get n of Some v \<Rightarrow> Some (n, v) | None \<Rightarrow> first_some get ns)"

definition field_of :: "(string \<times> f64) option \<Rightarrow> f64 Field" where
  "field_of r = (case r of Some (_, v) \<Rightarrow> Sup v | None \<Rightarrow> no_value)"

definition setGauge :: "promSample list \<Rightarrow> string list \<Rightarrow> f64 Field" where
  "setGauge samples names = field_of (first_some (firstByName samples) names)"

definition setSum :: "promSample list \<Rightarrow> string list \<Rightarrow> f64 Field" where
  "setSum samples names = field_of (first_some (sumByName samples) names)"

definition hist_p50 :: "(string \<Rightarrow> f64 option) \<Rightarrow> promSample list \<Rightarrow> string list \<Rightarrow> (string \<times> f64) option" where
  "hist_p50 pf samples names = first_some (\<lambda>n. histogramQuantile pf samples n (1 / 2)) names"

definition setHistP50 :: "(string \<Rightarrow> f64 option) \<Rightarrow> promSample list \<Rightarrow> string list \<Rightarrow> f64 Field" where
  "setHistP50 pf samples names = field_of (hist_p50 pf samples names)"

text \<open>The entries of \<open>RawMetricSources\<close>: by \<open>setHistP50\<close> under the metric's own name, and for the other
  fields under the normalised name.\<close>

definition hist_src :: "(string \<Rightarrow> f64 option) \<Rightarrow> promSample list \<Rightarrow> string list \<Rightarrow>
    (string \<times> string) list \<Rightarrow> (string \<times> string) list" where
  "hist_src pf samples names src =
     (case hist_p50 pf samples names of
        None \<Rightarrow> src | Some (n, _) \<Rightarrow> AList.update n (n @ ''_bucket'') src)"

definition note_src :: "f64 Field \<Rightarrow> string \<Rightarrow> string \<Rightarrow> (string \<times> string) list \<Rightarrow> (string \<times> string) list" where
  "note_src f k v src = (if fSupported f then AList.update k v src else src)"

definition audited :: "RuntimeMetrics \<Rightarrow> (string \<times> f64 Field) list" where
  "audited m =
     [(''requests_running'', rm_RequestsRunning m), (''requests_waiting'', rm_RequestsWaiting m),
      (''kv_cache_utilization'', rm_KVCacheUtil m), (''prompt_tokens_per_s'', rm_PromptThroughput m),
      (''generation_tokens_per_s'', rm_GenThroughput m), (''ttft_p50_s'', rm_TTFTP50 m),
      (''tpot_p50_s'', rm_TPOTP50 m), (''request_latency_p50_s'', rm_RequestLatencyP50 m),
      (''queue_latency_p50_s'', rm_QueueLatencyP50 m), (''preemptions_total'', rm_PreemptionsTotal m),
      (''prefix_cache_hits_total'', rm_PrefixCacheHits m),
      (''requests_success_total'', rm_RequestsSuccess m),
      (''requests_failed_total'', rm_RequestsFailed m)]"

definition list_unsupported :: "RuntimeMetrics \<Rightarrow> RuntimeMetrics" where
  "list_unsupported m =
     m\<lparr>rm_UnsupportedFields := map fst (filter (\<lambda>p. \<not> fSupported (snd p)) (audited m))\<rparr>"

definition tpot_names :: "string list" where
  "tpot_names = [''vllm:inter_token_latency_seconds'', ''vllm:request_time_per_output_token_seconds'',
     ''vllm:time_per_output_token_seconds'']"

definition kv_names :: "string list" where
  "kv_names = [''vllm:kv_cache_usage_perc'', ''vllm:gpu_cache_usage_perc'']"

definition fill_fields :: "(string \<Rightarrow> f64 option) \<Rightarrow> promSample list \<Rightarrow> RuntimeMetrics \<Rightarrow> RuntimeMetrics" where
  "fill_fields pf samples m =
     (let running = setGauge samples [''vllm:num_requests_running'']
      in m\<lparr>rm_RequestsRunning := running,
           rm_RequestsWaiting := setGauge samples [''vllm:num_requests_waiting''],
           rm_KVCacheUtil := setGauge samples kv_names,
           rm_ActiveSequences := (if fSupported running then running else no_value),
           rm_PromptThroughput := setSum samples [''vllm:prompt_tokens_total''],
           rm_GenThroughput := setSum samples [''vllm:generation_tokens_total''],
           rm_TTFTP50 := setHistP50 pf samples [''vllm:time_to_first_token_seconds''],
           rm_TPOTP50 := setHistP50 pf samples tpot_names,
           rm_RequestLatencyP50 := setHistP50 pf samples [''vllm:e2e_request_latency_seconds''],
           rm_QueueLatencyP50 := setHistP50 pf samples [''vllm:request_queue_time_seconds''],
           rm_PreemptionsTotal := setSum samples [''vllm:num_preemptions_total''],
           rm_PrefixCacheHits := setSum samples [''vllm:prefix_cache_hits_total''],
           rm_PrefixCacheQueries := setSum samples [''vllm:prefix_cache_queries_total''],
           rm_RequestsSuccess := setSum samples [''vllm:request_success_total''],
           rm_RequestsFailed := setSum samples [''vllm:request_failure_total'']\<rparr>)"

definition fill_sources ::
  "(string \<Rightarrow> f64 option) \<Rightarrow> promSample list \<Rightarrow> RuntimeMetrics \<Rightarrow> (string \<times> string) list \<Rightarrow> (string \<times> string) list" where
  "fill_sources pf samples m src0 =
     (let src1 = note_src (rm_RequestsRunning m) ''requests_running'' ''vllm:num_requests_running'' src0;
          src2 = note_src (rm_RequestsWaiting m) ''requests_waiting'' ''vllm:num_requests_waiting'' src1;
          src3 = note_src (rm_KVCacheUtil m) ''kv_cache_utilization'' ''vllm:kv_cache_usage_perc'' src2;
          src4 = note_src (rm_RequestsRunning m) ''active_sequences'' ''derived:vllm:num_requests_running'' src3;
          src5 = note_src (rm_PromptThroughput m) ''prompt_tokens_per_s'' ''vllm:prompt_tokens_total(counter)'' src4;
          src6 = note_src (rm_GenThroughput m) ''generation_tokens_per_s''
                   ''vllm:generation_tokens_total(counter)'' src5;
          src7 = hist_src pf samples [''vllm:time_to_first_token_seconds''] src6;
          src8 = hist_src pf samples tpot_names src7;
          src9 = hist_src pf samples [''vllm:e2e_request_latency_seconds''] src8;
          src10 = hist_src pf samples [''vllm:request_queue_time_seconds''] src9
      in note_src (rm_PreemptionsTotal m) ''preemptions_total'' ''vllm:num_preemptions_total'' src10)"

text \<open>What \<open>mapVLLMMetrics\<close> keeps of the metrics that it gets: the rest starts unsupported.\<close>

definition fresh_metrics :: "RuntimeMetrics \<Rightarrow> RuntimeMetrics" where
  "fresh_metrics m0 = zero_RuntimeMetrics\<lparr>rm_Timestamp := rm_Timestamp m0, rm_Healthy := rm_Healthy m0,
     rm_ScrapeOK := rm_ScrapeOK m0, rm_ScrapeLatencyMs := rm_ScrapeLatencyMs m0,
     rm_ModelName := rm_ModelName m0, rm_RuntimeVersion := rm_RuntimeVersion m0\<rparr>"

definition mapVLLMMetrics :: "(string \<Rightarrow> f64 option) \<Rightarrow> string \<Rightarrow> RuntimeMetrics \<Rightarrow> RuntimeMetrics" where
  "mapVLLMMetrics pf body m0 =
     (let samples = parsePrometheus pf body;
          m = fill_fields pf samples (fresh_metrics m0)
      in list_unsupported (m\<lparr>rm_RawMetricSources :=
           fill_sources pf samples m (rm_RawMetricSources m0)\<rparr>))"

section \<open>The adapter\<close>

record VConfig =
  vc_BaseURL :: string
  vc_HealthPath :: string
  vc_MetricsPath :: string
  vc_ChatCompletionsPath :: string
  vc_RequestTimeout :: duration
  vc_ConnectTimeout :: duration
  vc_MetricsTimeout :: duration
  vc_MetricsRefresh :: duration
  vc_HealthRefresh :: duration

definition DefaultVConfig :: VConfig where
  "DefaultVConfig = \<lparr>vc_BaseURL = ''http://127.0.0.1:8000'', vc_HealthPath = ''/health'',
     vc_MetricsPath = ''/metrics'', vc_ChatCompletionsPath = ''/v1/chat/completions'',
     vc_RequestTimeout = 600 * Second, vc_ConnectTimeout = 2 * Second,
     vc_MetricsTimeout = 500 * Millisecond, vc_MetricsRefresh = 1 * Second,
     vc_HealthRefresh = 2 * Second\<rparr>"

record Adapter =
  va_cfg :: VConfig
  va_snap :: RuntimeMetrics
  va_healthy :: bool
  va_modelName :: "string option"
  va_version :: string

definition NewAdapter :: "VConfig \<Rightarrow> walltime \<Rightarrow> Adapter" where
  "NewAdapter cfg now = \<lparr>va_cfg = cfg, va_snap = zero_RuntimeMetrics\<lparr>rm_Timestamp := now\<rparr>,
     va_healthy = False, va_modelName = None, va_version = []\<rparr>"

definition va_Type :: "Adapter \<Rightarrow> string" where
  "va_Type a = ''vllm''"

definition va_Health :: "Adapter \<Rightarrow> bool" where
  "va_Health a = va_healthy a"

definition va_ChatCompletionsURL :: "Adapter \<Rightarrow> string" where
  "va_ChatCompletionsURL a = vc_BaseURL (va_cfg a) @ vc_ChatCompletionsPath (va_cfg a)"

definition va_SetModelName :: "string \<Rightarrow> Adapter \<Rightarrow> Adapter" where
  "va_SetModelName n a = a\<lparr>va_modelName := Some n\<rparr>"

definition va_SetVersion :: "string \<Rightarrow> Adapter \<Rightarrow> Adapter" where
  "va_SetVersion v a = a\<lparr>va_version := v\<rparr>"

definition float_ms :: "duration \<Rightarrow> real" where
  "float_ms d = real_of_int (dur_Microseconds d) / 1000"

text \<open>\<open>Snapshot\<close> copies the stored metrics; the age and the health are those of the moment.\<close>

definition va_Snapshot :: "walltime \<Rightarrow> Adapter \<Rightarrow> RuntimeMetrics" where
  "va_Snapshot now a = (va_snap a)\<lparr>rm_ScrapeAgeMs := float_ms (now - rm_Timestamp (va_snap a)),
     rm_Healthy := va_healthy a\<rparr>"

text \<open>\<open>checkHealth\<close>: the status of the reply, or \<open>None\<close> for an error.\<close>

definition checkHealth :: "int option \<Rightarrow> Adapter \<Rightarrow> Adapter" where
  "checkHealth reply a = a\<lparr>va_healthy := (reply = Some 200)\<rparr>"

text \<open>The reply to a scrape: an error, or the status code, the status line and the body.\<close>

datatype scrape_reply = ScrapeErr string | ScrapeReply int string string

definition scrape ::
  "(string \<Rightarrow> f64 option) \<Rightarrow> walltime \<Rightarrow> walltime \<Rightarrow> walltime \<Rightarrow> scrape_reply \<Rightarrow> Adapter \<Rightarrow> Adapter" where
  "scrape pf start now fin reply a =
     (let m0 = zero_RuntimeMetrics\<lparr>rm_Timestamp := now, rm_RuntimeVersion := va_version a,
            rm_ModelName := (case va_modelName a of Some n \<Rightarrow> n | None \<Rightarrow> []),
            rm_ScrapeLatencyMs := float_ms (fin - start)\<rparr>
      in a\<lparr>va_snap :=
           (case reply of
              ScrapeErr err \<Rightarrow> m0\<lparr>rm_UnsupportedFields := [''scrape:error:'' @ err]\<rparr>
            | ScrapeReply status line body \<Rightarrow>
                if status \<noteq> 200 then m0\<lparr>rm_UnsupportedFields := [''scrape:status:'' @ line]\<rparr>
                else mapVLLMMetrics pf (take (8 * 1024 * 1024) body) (m0\<lparr>rm_ScrapeOK := True\<rparr>))\<rparr>)"

section \<open>The text format, printed\<close>

text \<open>How a server prints samples: the shape that the parser is meant to read. \<open>fmt\<close> prints numbers.\<close>

definition render_label :: "string \<times> string \<Rightarrow> string" where
  "render_label kv = fst kv @ ''='' @ [CHR 0x22] @ snd kv @ [CHR 0x22]"

fun render_labels :: "(string \<times> string) list \<Rightarrow> string" where
  "render_labels [] = []"
| "render_labels [kv] = render_label kv"
| "render_labels (kv # kvs) = render_label kv @ '','' @ render_labels kvs"

definition render_sample :: "(f64 \<Rightarrow> string) \<Rightarrow> promSample \<Rightarrow> string" where
  "render_sample fmt s =
     ps_Name s @ (if ps_Labels s = [] then [] else ''{'' @ render_labels (ps_Labels s) @ ''}'') @
     '' '' @ fmt (ps_Value s)"

definition exposition :: "(f64 \<Rightarrow> string) \<Rightarrow> promSample list \<Rightarrow> string" where
  "exposition fmt samples = concat (map (\<lambda>s. render_sample fmt s @ [CHR 0x0A]) samples)"

definition plain_char :: "char \<Rightarrow> bool" where
  "plain_char c \<longleftrightarrow> \<not> is_space c \<and> c \<notin> {CHR ''{'', CHR ''}'', CHR 0x22, CHR ''='', CHR '','', CHR ''#''}"

definition value_char :: "char \<Rightarrow> bool" where
  "value_char c \<longleftrightarrow> c \<notin> {CHR ''}'', CHR 0x22, CHR 0x0A}"

definition label_ok :: "string \<times> string \<Rightarrow> bool" where
  "label_ok kv \<longleftrightarrow> fst kv \<noteq> [] \<and> list_all plain_char (fst kv) \<and> list_all value_char (snd kv)"

text \<open>What printing and parsing of a number must satisfy.\<close>

definition number_ok :: "(string \<Rightarrow> f64 option) \<Rightarrow> (f64 \<Rightarrow> string) \<Rightarrow> f64 \<Rightarrow> bool" where
  "number_ok pf fmt v \<longleftrightarrow> fmt v \<noteq> [] \<and> list_all plain_char (fmt v) \<and> pf (fmt v) = Some v"

definition sample_ok :: "(string \<Rightarrow> f64 option) \<Rightarrow> (f64 \<Rightarrow> string) \<Rightarrow> promSample \<Rightarrow> bool" where
  "sample_ok pf fmt s \<longleftrightarrow> number_ok pf fmt (ps_Value s) \<and> ps_Name s \<noteq> [] \<and> list_all plain_char (ps_Name s) \<and>
     distinct (map fst (ps_Labels s)) \<and> list_all label_ok (ps_Labels s) \<and>
     length (render_sample fmt s) < max_line"

section \<open>Parsing inverts printing\<close>

lemma plain_not_space: "list_all plain_char s \<Longrightarrow> list_all (\<lambda>c. \<not> is_space c) s"
  by (simp add: list_all_iff plain_char_def)

lemma lab_key:
  "list_all plain_char k \<Longrightarrow> \<not> ls_inVal st \<Longrightarrow> \<not> ls_inQuote st \<Longrightarrow>
   foldl lab_char st k = st\<lparr>ls_key := ls_key st @ k\<rparr>"
  by (induction k arbitrary: st) (simp_all add: lab_char_def plain_char_def)

lemma lab_val:
  "list_all value_char v \<Longrightarrow> ls_inVal st \<Longrightarrow> ls_inQuote st \<Longrightarrow>
   foldl lab_char st v = st\<lparr>ls_val := ls_val st @ v\<rparr>"
  by (induction v arbitrary: st) (simp_all add: lab_char_def value_char_def)

lemma lab_label:
  assumes "label_ok kv"
  shows "foldl lab_char (lab_init\<lparr>ls_m := m\<rparr>) (render_label kv) =
    \<lparr>ls_key = fst kv, ls_val = snd kv, ls_inVal = True, ls_inQuote = False, ls_m = m\<rparr>"
  using assms
  by (simp add: render_label_def label_ok_def lab_key lab_val lab_init_def lab_char_def)

lemma TrimSpace_plain: "list_all plain_char s \<Longrightarrow> TrimSpace s = s"
  by (rule TrimSpace_id) (cases s; auto simp: list_all_iff plain_char_def)

lemma lab_flush_label:
  assumes "label_ok kv"
  shows "lab_flush \<lparr>ls_key = fst kv, ls_val = snd kv, ls_inVal = True, ls_inQuote = False, ls_m = m\<rparr> =
    lab_init\<lparr>ls_m := AList.update (fst kv) (snd kv) m\<rparr>"
  using assms by (simp add: lab_flush_def label_ok_def TrimSpace_plain lab_init_def)

lemma update_new: "k \<notin> fst ` set m \<Longrightarrow> AList.update k v m = m @ [(k, v)]"
  by (induction m) auto

lemma lab_labels:
  assumes "list_all label_ok ls" "ls \<noteq> []" "distinct (map fst (m @ ls))"
  shows "ls_m (lab_flush (foldl lab_char (lab_init\<lparr>ls_m := m\<rparr>) (render_labels ls))) = m @ ls"
  using assms
proof (induction ls arbitrary: m rule: render_labels.induct)
  case (2 kv)
  then show ?case by (simp add: lab_label lab_flush_label update_new image_Un)
next
  case (3 kv kv' kvs)
  have "foldl lab_char (lab_init\<lparr>ls_m := m\<rparr>) (render_labels (kv # kv' # kvs)) =
      foldl lab_char (lab_init\<lparr>ls_m := m @ [kv]\<rparr>) (render_labels (kv' # kvs))"
    using 3(2,4) by (simp add: lab_label lab_char_def lab_flush_label update_new image_Un del: render_labels.simps(2))
  moreover have "ls_m (lab_flush (foldl lab_char (lab_init\<lparr>ls_m := m @ [kv]\<rparr>) (render_labels (kv' # kvs)))) =
      (m @ [kv]) @ kv' # kvs"
    using 3(2,4) by (intro 3(1)) auto
  ultimately show ?case by simp
qed simp

lemma parseLabels_render:
  "list_all label_ok ls \<Longrightarrow> ls \<noteq> [] \<Longrightarrow> distinct (map fst ls) \<Longrightarrow> parseLabels (render_labels ls) = ls"
  using lab_labels [of ls "[]"] by (simp add: parseLabels_def lab_init_def)

lemma break_at_first:
  "list_all (\<lambda>c. \<not> P c) a \<Longrightarrow> P c \<Longrightarrow> break_at P (a @ c # b) = Some (a, c # b)"
  by (auto simp: break_at_def list_all_iff takeWhile_append2 dropWhile_append2)

lemma TrimSpace_space: "TrimSpace (CHR '' '' # s) = TrimSpace s"
  by (simp add: TrimSpace_def is_space_def)

lemma parse_value_plain:
  assumes "w \<noteq> []" "list_all plain_char w"
  shows "parse_value pf w = pf w"
proof -
  have "Fields w = [w]"
    using assms plain_not_space [OF assms(2)] by (intro Fields_single) (auto simp: list_all_iff)
  then show ?thesis by (simp add: parse_value_def)
qed

abbreviation inner_char :: "char \<Rightarrow> bool" where
  "inner_char c \<equiv> c \<noteq> CHR ''}'' \<and> c \<noteq> CHR 0x0A"

lemma inner_plain: "list_all plain_char s \<Longrightarrow> list_all inner_char s"
  by (erule list.pred_mono_strong) (auto simp: plain_char_def is_space_def)

lemma inner_value: "list_all value_char s \<Longrightarrow> list_all inner_char s"
  by (erule list.pred_mono_strong) (auto simp: value_char_def)

lemma render_label_chars: "label_ok kv \<Longrightarrow> list_all inner_char (render_label kv)"
  by (simp add: label_ok_def render_label_def inner_plain inner_value)

lemma render_labels_chars: "list_all label_ok ls \<Longrightarrow> list_all inner_char (render_labels ls)"
  by (induction ls rule: render_labels.induct) (simp_all add: render_label_chars)

lemma sample_number:
  assumes "sample_ok pf fmt s"
  shows "fmt (ps_Value s) \<noteq> []" "list_all plain_char (fmt (ps_Value s))"
    "pf (fmt (ps_Value s)) = Some (ps_Value s)"
  using assms by (auto simp: sample_ok_def number_ok_def)

lemma parseLine_render:
  assumes ok: "sample_ok pf fmt s"
  shows "parseLine pf (render_sample fmt s) = Some s"
proof -
  note num = sample_number [OF ok]
  have name: "ps_Name s \<noteq> []" "list_all plain_char (ps_Name s)" using ok by (auto simp: sample_ok_def)
  have stop: "list_all (\<lambda>c. \<not> (c = CHR ''{'' \<or> c = CHR '' '')) (ps_Name s)"
    using name(2) by (auto simp: list_all_iff plain_char_def is_space_def)
  have last: "\<not> is_space (last (fmt (ps_Value s)))" "hd (fmt (ps_Value s)) \<noteq> CHR ''{''"
    using num(1,2) by (auto simp: list_all_iff plain_char_def dest: last_in_set hd_in_set)
  show ?thesis
  proof (cases "ps_Labels s = []")
    case True
    have "\<not> HasPrefix (fmt (ps_Value s)) ''{''" using last(2) by (cases "fmt (ps_Value s)") auto
    then show ?thesis
      using True name num break_at_first [OF stop, of "CHR '' ''" "fmt (ps_Value s)"]
      by (simp add: parseLine_def render_sample_def TrimSpace_plain TrimSpace_space parse_value_plain)
  next
    case False
    let ?rl = "render_labels (ps_Labels s)" and ?num = "fmt (ps_Value s)"
    have lab: "list_all label_ok (ps_Labels s)" "parseLabels ?rl = ps_Labels s"
      using ok False by (auto simp: sample_ok_def intro: parseLabels_render)
    have brk: "break_at (\<lambda>c. c = CHR ''{'' \<or> c = CHR '' '') (render_sample fmt s) =
        Some (ps_Name s, CHR ''{'' # ?rl @ ''} '' @ ?num)"
      using break_at_first [OF stop, of "CHR ''{''"] False by (simp add: render_sample_def)
    have trim: "TrimSpace (CHR ''{'' # ?rl @ ''} '' @ ?num) = CHR ''{'' # ?rl @ ''} '' @ ?num"
      using last num(1) by (intro TrimSpace_id) (simp add: is_space_def)
    have "list_all (\<lambda>c. c \<noteq> CHR ''}'') (CHR ''{'' # ?rl)"
      using render_labels_chars [OF lab(1)] by (simp add: list_all_iff)
    from break_at_first [OF this, of "CHR ''}''" "'' '' @ ?num"]
    have brk2: "break_at (\<lambda>c. c = CHR ''}'') (CHR ''{'' # ?rl @ ''} '' @ ?num) =
        Some (CHR ''{'' # ?rl, ''} '' @ ?num)" by simp
    have "TrimSpace (CHR '' '' # ?num) = ?num" using num by (simp add: TrimSpace_space TrimSpace_plain)
    then show ?thesis
      using brk trim brk2 name num lab(2)
      by (simp add: parseLine_def TrimSpace_plain parse_value_plain)
  qed
qed

lemma render_sample_props:
  assumes ok: "sample_ok pf fmt s"
  shows "TrimSpace (render_sample fmt s) = render_sample fmt s"
    and "drop_cr (render_sample fmt s) = render_sample fmt s"
    and "CHR 0x0A \<notin> set (render_sample fmt s)"
    and "render_sample fmt s \<noteq> []" and "\<not> HasPrefix (render_sample fmt s) ''#''"
proof -
  note num = sample_number [OF ok]
  have name: "ps_Name s \<noteq> []" "list_all plain_char (ps_Name s)" using ok by (auto simp: sample_ok_def)
  have ends: "hd (render_sample fmt s) = hd (ps_Name s)" "last (render_sample fmt s) = last (fmt (ps_Value s))"
    using name(1) num(1) by (simp_all add: render_sample_def)
  have c: "plain_char (hd (ps_Name s))" "plain_char (last (fmt (ps_Value s)))"
    using name num by (auto simp: list_all_iff)
  show "TrimSpace (render_sample fmt s) = render_sample fmt s"
    using c ends by (intro TrimSpace_id) (simp add: plain_char_def)
  show "drop_cr (render_sample fmt s) = render_sample fmt s"
    using c(2) ends(2) by (auto simp: drop_cr_def plain_char_def is_space_def)
  have nl: "CHR 0x0A \<notin> set w" if "list_all inner_char w" for w
    using that by (auto simp: list_all_iff)
  have "list_all inner_char (render_labels (ps_Labels s))"
    using ok by (intro render_labels_chars) (simp add: sample_ok_def)
  note inner = nl [OF this] nl [OF inner_plain [OF name(2)]] nl [OF inner_plain [OF num(2)]]
  show "CHR 0x0A \<notin> set (render_sample fmt s)"
    using inner by (simp add: render_sample_def)
  show "render_sample fmt s \<noteq> []" using name(1) by (simp add: render_sample_def)
  then show "\<not> HasPrefix (render_sample fmt s) ''#''"
    using ends(1) c(1) by (cases "render_sample fmt s") (auto simp: plain_char_def)
qed

lemma parse_step_render:
  assumes "sample_ok pf fmt s"
  shows "parse_step pf (render_sample fmt s) = [s]"
  using render_sample_props [OF assms] parseLine_render [OF assms]
  by (simp add: parse_step_def Let_def)

lemma split_exposition:
  assumes "list_all (sample_ok pf fmt) samples"
  shows "split_on (CHR 0x0A) (exposition fmt samples) = map (render_sample fmt) samples @ [[]]"
  using assms
proof (induction samples)
  case (Cons s ss)
  then show ?case
    using split_on_append [OF render_sample_props(3) [of pf fmt s]] by (simp add: exposition_def)
qed (simp add: exposition_def)

lemma scan_exposition:
  assumes "list_all (sample_ok pf fmt) samples"
  shows "scan_bounded (exposition fmt samples) = map (render_sample fmt) samples"
proof -
  have "takeWhile (\<lambda>l. length l < max_line) (map (render_sample fmt) samples) = map (render_sample fmt) samples"
    using assms by (auto simp: takeWhile_eq_all_conv list_all_iff sample_ok_def)
  moreover have "map drop_cr (map (render_sample fmt) samples) = map (render_sample fmt) samples"
    using assms by (auto simp: list_all_iff render_sample_props(2))
  ultimately have "map drop_cr (takeWhile (\<lambda>l. length l < max_line) (map (render_sample fmt) samples)) =
      map (render_sample fmt) samples" by metis
  then show ?thesis
    unfolding scan_bounded_def scan_limited_def split_exposition [OF assms] Let_def by simp
qed

lemma parse_exposition:
  assumes "list_all (sample_ok pf fmt) samples"
  shows "parsePrometheus pf (exposition fmt samples) = samples"
  using assms unfolding parsePrometheus_def scan_exposition [OF assms]
  by (induction samples) (simp_all add: parse_step_render)

section \<open>The quantile estimate\<close>

fun fin_val :: "f64 \<Rightarrow> real" where
  "fin_val (Fin x) = x"
| "fin_val _ = 0"

abbreviation le_of :: "bucket \<Rightarrow> real" where
  "le_of b \<equiv> fin_val (bk_le b)"

abbreviation count_of :: "bucket \<Rightarrow> real" where
  "count_of b \<equiv> fin_val (bk_count b)"

definition finite_bucket :: "bucket \<Rightarrow> bool" where
  "finite_bucket b \<longleftrightarrow> bk_le b = Fin (le_of b) \<and> bk_count b = Fin (count_of b)"

lemma sort_pass_mset: "add_mset (fst (sort_pass x ys)) (mset (snd (sort_pass x ys))) = add_mset x (mset ys)"
  by (induction x ys rule: sort_pass.induct) (auto split: prod.splits)

lemma exchange_sort_mset [simp]: "mset (exchange_sort bs) = mset bs"
proof (induction bs rule: exchange_sort.induct)
  case (2 x xs)
  then show ?case using sort_pass_mset [of x xs] by simp
qed simp

lemma exchange_sort_set [simp]: "set (exchange_sort bs) = set bs"
  using mset_eq_setD [OF exchange_sort_mset] .

lemma finite_lt:
  "finite_bucket x \<Longrightarrow> finite_bucket y \<Longrightarrow> f64_lt (bk_le y) (bk_le x) \<longleftrightarrow> le_of y < le_of x"
  by (cases "bk_le x"; cases "bk_le y") (simp_all add: finite_bucket_def)

lemma sort_pass_min:
  assumes "finite_bucket x" "list_all finite_bucket ys"
  shows "(\<forall>z \<in> set (snd (sort_pass x ys)). le_of (fst (sort_pass x ys)) \<le> le_of z) \<and>
    le_of (fst (sort_pass x ys)) \<le> le_of x"
  using assms
proof (induction x ys rule: sort_pass.induct)
  case (2 x y ys)
  have fin: "finite_bucket y" "list_all finite_bucket ys" using 2(4) by simp_all
  show ?case
  proof (cases "le_of y < le_of x")
    case True
    then show ?thesis
      using 2(1) [OF _ fin] by (simp add: finite_lt [OF 2(3) fin(1)] case_prod_beta Let_def)
  next
    case False
    then show ?thesis
      using 2(2) [OF _ 2(3) fin(2)] by (simp add: finite_lt [OF 2(3) fin(1)] case_prod_beta Let_def)
  qed
qed simp

lemma exchange_sort_sorted:
  assumes "list_all finite_bucket bs"
  shows "sorted_wrt (\<lambda>a b. le_of a \<le> le_of b) (exchange_sort bs)"
  using assms
proof (induction bs rule: exchange_sort.induct)
  case (2 x xs)
  have "set (snd (sort_pass x xs)) \<subseteq> set (x # xs)"
    using sort_pass_mset [of x xs] by (metis mset.simps(2) mset_eq_setD set_subset_Cons)
  then have "list_all finite_bucket (snd (sort_pass x xs))"
    using 2(2) by (auto simp: list_all_iff)
  with 2 sort_pass_min [of x xs] show ?case by (simp add: list_all_iff)
qed simp

lemma max_count_fold:
  "list_all finite_bucket bs \<Longrightarrow>
   foldl (\<lambda>total b. if f64_lt total (bk_count b) then bk_count b else total) (Fin a) bs =
     Fin (Max (insert a (count_of ` set bs)))"
proof (induction bs arbitrary: a)
  case (Cons b bs)
  have c: "bk_count b = Fin (count_of b)" using Cons.prems by (simp add: finite_bucket_def)
  have "foldl (\<lambda>total b. if f64_lt total (bk_count b) then bk_count b else total) (Fin a) (b # bs) =
      foldl (\<lambda>total b. if f64_lt total (bk_count b) then bk_count b else total) (Fin (max a (count_of b))) bs"
    by (cases "bk_count b") (use c in \<open>auto simp: max_def\<close>)
  also have "\<dots> = Fin (Max (insert (max a (count_of b)) (count_of ` set bs)))"
    using Cons by simp
  also have "Max (insert (max a (count_of b)) (count_of ` set bs)) =
      Max (insert a (count_of ` set (b # bs)))"
    by (cases "set bs = {}") (simp_all add: max.assoc)
  finally show ?case .
qed simp

lemma find_sorted_least:
  assumes "sorted_wrt (\<lambda>a b. le_of a \<le> le_of b) bs" "find P bs = Some b"
  shows "b \<in> set bs \<and> P b \<and> (\<forall>b' \<in> set bs. P b' \<longrightarrow> le_of b \<le> le_of b')"
  using assms by (induction bs) (auto split: if_splits)

lemma last_sorted_greatest:
  assumes "sorted_wrt (\<lambda>a b. le_of a \<le> le_of b) bs" "bs \<noteq> []"
  shows "le_of (last bs) = Max (le_of ` set bs)"
proof -
  have "\<forall>b \<in> set bs. le_of b \<le> le_of (last bs)"
    using assms by (induction bs) auto
  with assms(2) show ?thesis by (intro Max_eqI [symmetric]) auto
qed

text \<open>C34: The quantile estimate is the bound of the right bucket. For buckets with finite bounds and
  counts of which some count is positive, and a quantile between 0 and 1, the result is the least
  bound among the buckets whose cumulative count reaches the quantile of the largest count; when that
  bound is the stand-in for infinity, the result is the greatest bound, which is the stand-in
  itself, and not the last finite bound.\<close>

theorem quantile_exact:
  fixes buckets :: "bucket list"
  assumes "0 \<le> q" "q \<le> 1" and "buckets = concat (map (to_bucket pf name) samples)"
    and "list_all finite_bucket buckets" and "\<exists>b \<in> set buckets. 0 < count_of b"
  defines "target \<equiv> q * Max (count_of ` set buckets)"
  shows "\<exists>b \<in> set buckets. target \<le> count_of b \<and>
     (\<forall>b' \<in> set buckets. target \<le> count_of b' \<longrightarrow> le_of b \<le> le_of b') \<and>
     histogramQuantile pf samples name q =
       Some (Fin (if le_of b < inf_le then le_of b else Max (le_of ` set buckets)))"
proof -
  let ?T = "Max (count_of ` set buckets)" and ?s = "exchange_sort buckets"
  have ne: "buckets \<noteq> []" using assms(5) by auto
  have pos: "0 < ?T" using assms(5) ne by (subst Max_gr_iff) auto
  then have "max_count buckets = Fin ?T"
    using max_count_fold [OF assms(4), of 0] ne by (simp add: max_count_def)
  then have tot: "f64_mul (Fin q) (max_count buckets) = Fin target" "max_count buckets \<noteq> Fin 0"
    using pos by (simp_all add: target_def)
  have reach: "f64_le (Fin target) (bk_count b) \<longleftrightarrow> target \<le> count_of b" if "b \<in> set buckets" for b
    using that assms(4) by (cases "bk_count b") (auto simp: list_all_iff finite_bucket_def)
  obtain b0 where b0: "b0 \<in> set buckets" "count_of b0 = ?T"
    using Max_in [of "count_of ` set buckets"] ne by fastforce
  have "target \<le> count_of b0" using assms(1,2) pos b0 by (simp add: target_def mult_left_le_one_le)
  then have "find (\<lambda>b. f64_le (Fin target) (bk_count b)) ?s \<noteq> None"
    using b0(1) reach by (auto simp: find_None_iff)
  then obtain b where f: "find (\<lambda>b. f64_le (Fin target) (bk_count b)) ?s = Some b" by auto
  note sorted = exchange_sort_sorted [OF assms(4)]
  note least = find_sorted_least [OF sorted f]
  have ns: "?s \<noteq> []" using f by auto
  have fin: "bk_le b = Fin (le_of b)" "bk_le (last ?s) = Fin (le_of (last ?s))"
    using least assms(4) last_in_set [OF ns] by (auto simp: list_all_iff finite_bucket_def)
  have "histogramQuantile pf samples name q =
      Some (Fin (if le_of b < inf_le then le_of b else Max (le_of ` set buckets)))"
    using ne tot f last_sorted_greatest [OF sorted ns]
    by (cases "bk_le b") (use fin in \<open>auto simp: histogramQuantile_def assms(3) [symmetric] Let_def\<close>)
  with least reach show ?thesis by auto
qed

section \<open>Honest snapshots\<close>

text \<open>The background loops and the launcher as a machine.\<close>

datatype va_op =
    VScrape walltime walltime walltime scrape_reply | VHealth "int option"
  | VModelName string | VVersion string

fun va_step :: "(string \<Rightarrow> f64 option) \<Rightarrow> Adapter \<Rightarrow> va_op \<Rightarrow> Adapter" where
  "va_step pf a (VScrape start now fin reply) = scrape pf start now fin reply a"
| "va_step pf a (VHealth reply) = checkHealth reply a"
| "va_step pf a (VModelName n) = va_SetModelName n a"
| "va_step pf a (VVersion v) = va_SetVersion v a"

definition metric_fields :: "RuntimeMetrics \<Rightarrow> f64 Field list" where
  "metric_fields m = map snd (audited m) @ [rm_ActiveSequences m, rm_PrefixCacheQueries m]"

definition honest_field :: "f64 Field \<Rightarrow> bool" where
  "honest_field f \<longleftrightarrow> fSupported f \<or> f = no_value"

definition honest :: "RuntimeMetrics \<Rightarrow> bool" where
  "honest m \<longleftrightarrow> list_all honest_field (metric_fields m) \<and>
     (if rm_ScrapeOK m
      then rm_UnsupportedFields m = map fst (filter (\<lambda>p. \<not> fSupported (snd p)) (audited m))
      else list_all (\<lambda>f. f = no_value) (metric_fields m))"

lemma field_of_honest: "fSupported (field_of r) \<or> field_of r = no_value"
  by (simp add: field_of_def split: option.split)

lemma set_fields_honest [simp]:
  "honest_field (setGauge ss ns)" "honest_field (setSum ss ns)"
  "honest_field (setHistP50 pf ss ns)" "honest_field no_value"
  using field_of_honest
  by (auto simp: honest_field_def setGauge_def setSum_def setHistP50_def split: option.split)

lemma list_unsupported_simps [simp]:
  "audited (list_unsupported m) = audited m" "metric_fields (list_unsupported m) = metric_fields m"
  "rm_ScrapeOK (list_unsupported m) = rm_ScrapeOK m"
  "rm_UnsupportedFields (list_unsupported m) = map fst (filter (\<lambda>p. \<not> fSupported (snd p)) (audited m))"
  by (simp_all add: list_unsupported_def audited_def metric_fields_def)

lemma sources_irrelevant [simp]:
  "audited (m\<lparr>rm_RawMetricSources := s\<rparr>) = audited m"
  "metric_fields (m\<lparr>rm_RawMetricSources := s\<rparr>) = metric_fields m"
  by (simp_all add: audited_def metric_fields_def)

lemma fill_fields_honest: "list_all honest_field (metric_fields (fill_fields pf samples m))"
  by (simp add: fill_fields_def metric_fields_def audited_def Let_def)

lemma fill_fields_ok [simp]: "rm_ScrapeOK (fill_fields pf samples m) = rm_ScrapeOK m"
  by (simp add: fill_fields_def Let_def)

lemma mapVLLMMetrics_fields:
  "list_all honest_field (metric_fields (mapVLLMMetrics pf body m0))"
  by (simp add: mapVLLMMetrics_def Let_def fill_fields_honest)

lemma mapVLLMMetrics_listed:
  "rm_UnsupportedFields (mapVLLMMetrics pf body m0) =
     map fst (filter (\<lambda>p. \<not> fSupported (snd p)) (audited (mapVLLMMetrics pf body m0)))"
  "rm_ScrapeOK (mapVLLMMetrics pf body m0) = rm_ScrapeOK m0"
  by (simp_all add: mapVLLMMetrics_def Let_def fresh_metrics_def)

lemma blank_fields [simp]:
  "metric_fields (m\<lparr>rm_Timestamp := t\<rparr>) = metric_fields m"
  "metric_fields (m\<lparr>rm_UnsupportedFields := u\<rparr>) = metric_fields m"
  "metric_fields (m\<lparr>rm_RuntimeVersion := v\<rparr>) = metric_fields m"
  "metric_fields (m\<lparr>rm_ModelName := n\<rparr>) = metric_fields m"
  "metric_fields (m\<lparr>rm_ScrapeLatencyMs := l\<rparr>) = metric_fields m"
  "metric_fields zero_RuntimeMetrics = replicate 15 no_value" "\<not> rm_ScrapeOK zero_RuntimeMetrics"
  by (simp_all add: metric_fields_def audited_def zero_RuntimeMetrics_def numeral_eq_Suc)

lemma blank_honest:
  "metric_fields m = replicate 15 no_value \<Longrightarrow> \<not> rm_ScrapeOK m \<Longrightarrow> honest m"
  by (simp add: honest_def list_all_iff)

lemma mapVLLMMetrics_honest: "rm_ScrapeOK m0 \<Longrightarrow> honest (mapVLLMMetrics pf body m0)"
  using mapVLLMMetrics_fields mapVLLMMetrics_listed by (simp add: honest_def)

lemma scrape_honest: "honest (va_snap (scrape pf start now fin reply a))"
  by (cases reply) (simp_all add: scrape_def Let_def blank_honest mapVLLMMetrics_honest)

lemma scrape_keeps [simp]:
  "va_cfg (scrape pf start now fin reply a) = va_cfg a"
  "va_healthy (scrape pf start now fin reply a) = va_healthy a"
  by (simp_all add: scrape_def Let_def)

interpretation vam: inv_machine "NewAdapter cfg t0" "va_step pf"
  "\<lambda>a. honest (va_snap a) \<and> va_cfg a = cfg" for cfg t0 pf
proof
  show "honest (va_snap (NewAdapter cfg t0)) \<and> va_cfg (NewAdapter cfg t0) = cfg"
    by (simp add: NewAdapter_def blank_honest)
  show "honest (va_snap (va_step pf a e)) \<and> va_cfg (va_step pf a e) = cfg"
    if "honest (va_snap a) \<and> va_cfg a = cfg" for a e
    using that scrape_honest
    by (cases e) (simp_all add: checkHealth_def va_SetModelName_def va_SetVersion_def)
qed

lemma honest_published [simp]: "honest (m\<lparr>rm_ScrapeAgeMs := x, rm_Healthy := h\<rparr>) = honest m"
proof -
  have "audited (m\<lparr>rm_ScrapeAgeMs := x, rm_Healthy := h\<rparr>) = audited m"
    "metric_fields (m\<lparr>rm_ScrapeAgeMs := x, rm_Healthy := h\<rparr>) = metric_fields m"
    by (simp_all add: audited_def metric_fields_def)
  then show ?thesis by (simp add: honest_def)
qed


section \<open>From the printed text to the snapshot\<close>

text \<open>The sum as the fold that \<open>sumByName\<close> computes.\<close>

definition sum_named :: "string \<Rightarrow> promSample list \<Rightarrow> f64" where
  "sum_named n ss = foldl f64_add (Fin 0) (map ps_Value (filter (\<lambda>s. ps_Name s = n) ss))"

lemma setGauge_one:
  "setGauge ss [n] = (case find (\<lambda>s. ps_Name s = n) ss of Some s \<Rightarrow> Sup (ps_Value s) | None \<Rightarrow> no_value)"
  by (simp add: setGauge_def firstByName_def field_of_def split: option.split)

lemma setSum_one:
  "setSum ss [n] = (if n \<in> ps_Name ` set ss then Sup (sum_named n ss) else no_value)"
  by (auto simp: setSum_def sumByName_def field_of_def sum_named_def Let_def filter_empty_conv)

lemma mapVLLMMetrics_sel:
  "rm_RequestsWaiting (mapVLLMMetrics pf body m0) =
     setGauge (parsePrometheus pf body) [''vllm:num_requests_waiting'']"
  "rm_GenThroughput (mapVLLMMetrics pf body m0) =
     setSum (parsePrometheus pf body) [''vllm:generation_tokens_total'']"
  "rm_KVCacheUtil (mapVLLMMetrics pf body m0) =
     setGauge (parsePrometheus pf body) kv_names"
  by (simp_all add: mapVLLMMetrics_def Let_def list_unsupported_def fill_fields_def)

text \<open>C32: Printing and parsing are inverse, up to the published snapshot. Text in the exposition format,
  with labels whose values contain no quote, closing brace or newline and numbers that the number
  parser reads back, is parsed to exactly the samples that were printed, and a scrape of it publishes
  the first value of a gauge and the sum of a counter, or marks them unsupported when no sample has
  the name.\<close>

theorem metrics_roundtrip:
  fixes samples :: "promSample list" and fmt :: "f64 \<Rightarrow> string" and pf :: "string \<Rightarrow> f64 option"
    and a :: Adapter and t0 t1 t2 :: walltime
  assumes "list_all (sample_ok pf fmt) samples" and "length (exposition fmt samples) \<le> 8 * 1024 * 1024"
  defines "m \<equiv> va_snap (scrape pf t0 t1 t2 (ScrapeReply 200 ''200 OK'' (exposition fmt samples)) a)"
  shows "parsePrometheus pf (exposition fmt samples) = samples \<and> rm_ScrapeOK m \<and>
    rm_RequestsWaiting m = (case find (\<lambda>s. ps_Name s = ''vllm:num_requests_waiting'') samples of
        Some s \<Rightarrow> Sup (ps_Value s) | None \<Rightarrow> no_value) \<and>
    rm_GenThroughput m = (if ''vllm:generation_tokens_total'' \<in> ps_Name ` set samples
        then Sup (sum_named ''vllm:generation_tokens_total'' samples) else no_value)"
proof -
  let ?m0 = "zero_RuntimeMetrics\<lparr>rm_Timestamp := t1, rm_RuntimeVersion := va_version a,
            rm_ModelName := (case va_modelName a of Some n \<Rightarrow> n | None \<Rightarrow> []),
            rm_ScrapeLatencyMs := float_ms (t2 - t0), rm_ScrapeOK := True\<rparr>"
  have m: "m = mapVLLMMetrics pf (exposition fmt samples) ?m0"
    using assms(2) by (simp add: m_def scrape_def Let_def)
  show ?thesis
    unfolding m mapVLLMMetrics_listed(2) mapVLLMMetrics_sel parse_exposition [OF assms(1)] setGauge_one
      setSum_one by simp
qed

section \<open>Examples\<close>

definition demo_fmt :: "f64 \<Rightarrow> string" where
  "demo_fmt v = (if v = Fin 3 then ''3'' else ''4.0'')"

definition demo_pf :: "string \<Rightarrow> f64 option" where
  "demo_pf s = (if s = ''3'' then Some (Fin 3) else if s = ''4.0'' then Some (Fin 4)
                else if s = ''0.5'' then Some (Fin (1 / 2)) else None)"

definition demo_samples :: "promSample list" where
  "demo_samples =
     [\<lparr>ps_Name = ''vllm:num_requests_waiting'', ps_Labels = [(''model'', ''a, b'')], ps_Value = Fin 3\<rparr>,
      \<lparr>ps_Name = ''vllm:generation_tokens_total'', ps_Labels = [], ps_Value = Fin 4\<rparr>]"

lemma demo_samples_ok:
  "list_all (sample_ok demo_pf demo_fmt) demo_samples" "length (exposition demo_fmt demo_samples) \<le> 8 * 1024 * 1024"
  by (simp_all add: demo_samples_def sample_ok_def number_ok_def demo_fmt_def demo_pf_def plain_char_def
      is_space_def label_ok_def value_char_def render_sample_def render_label_def max_line_def exposition_def)

theorem metrics_roundtrip_witness:
  "rm_RequestsWaiting (va_snap (scrape demo_pf 1 2 3 (ScrapeReply 200 ''200 OK''
     (exposition demo_fmt demo_samples)) (NewAdapter DefaultVConfig 0))) = Sup (Fin 3)"
  using metrics_roundtrip [OF demo_samples_ok, of 1 2 3 "NewAdapter DefaultVConfig 0"]
  by (simp add: demo_samples_def)

definition demo_buckets :: "promSample list" where
  "demo_buckets =
     [\<lparr>ps_Name = ''t_bucket'', ps_Labels = [(''le'', ''+Inf'')], ps_Value = Fin 4\<rparr>,
      \<lparr>ps_Name = ''t_bucket'', ps_Labels = [(''le'', ''0.5'')], ps_Value = Fin 3\<rparr>]"

theorem quantile_exact_witness:
  "histogramQuantile demo_pf demo_buckets ''t'' (1 / 2) = Some (Fin (1 / 2))"
proof -
  let ?b = "[\<lparr>bk_le = Fin inf_le, bk_count = Fin 4\<rparr>, \<lparr>bk_le = Fin (1 / 2), bk_count = Fin 3\<rparr>]"
  have b: "?b = concat (map (to_bucket demo_pf ''t'') demo_buckets)"
    by (simp add: demo_buckets_def to_bucket_def demo_pf_def)
  have "list_all finite_bucket ?b" "\<exists>b \<in> set ?b. 0 < count_of b" by (simp_all add: finite_bucket_def)
  from quantile_exact [OF _ _ b this, of "1 / 2"] show ?thesis by (auto simp: inf_le_def split: if_splits)
qed

end
