(* ===== verification/Data_Proxy.thy ===== *)
theory Data_Proxy
  imports Admission_Queue Work_Accounting Vllm_Runtime Trajectory_Emitter Http_Writer
begin

text \<open>
  The sidecar's data plane (\<open>internal/dataplane/proxy.go\<close>): the handler that admits a request, waits
  for its dispatch, reserves work, relays the answer of vLLM and settles the ticket. It composes the
  admission queue, the work accountant and the vLLM adapter.

  A run of the handler is a function of the request and of an environment that holds what comes from
  outside: the answer of vLLM, clock readings, the branch that the \<open>select\<close> of \<open>WaitForDispatch\<close>
  takes, JSON decoding and SHA-256. Queue and accountant are shared with other goroutines:
  \<open>pe_others\<close> and \<open>pe_otherWork\<close> are what those do to them between the critical sections of this
  request. A relayed stream is the list of what the reads of the body return; when the list ends, the
  next read returns the end of the stream.
\<close>

section \<open>Data\<close>

record ProxyConfig =
  pc_HostID :: string
  pc_BackendID :: string
  pc_DeviceID :: string
  pc_MaxBufferBytes :: int
  pc_SlowConsumerWarnMs :: real
  pc_LogContent :: bool
  pc_ExplicitHeaderEnabled :: bool
  pc_MaxPrefixTokens :: int

definition DefaultProxyConfig :: ProxyConfig where
  "DefaultProxyConfig = \<lparr>pc_HostID = [], pc_BackendID = [], pc_DeviceID = [],
     pc_MaxBufferBytes = 2 ^ 20, pc_SlowConsumerWarnMs = 250, pc_LogContent = False,
     pc_ExplicitHeaderEnabled = False, pc_MaxPrefixTokens = 2 ^ 20\<rparr>"

text \<open>The proxy. An absent sink or cache observer is a flag; the accountant is part of the state.\<close>

record Proxy =
  p_cfg :: ProxyConfig
  p_vllm :: Adapter
  p_sink :: bool
  p_cacheObs :: bool

text \<open>\<open>json.Unmarshal\<close> into the probes of the handler; \<open>None\<close> is an error or, for the stream flag, a
  missing field. \<open>pd_input\<close> has the prompt and the contents of the messages.\<close>

record px_decoder =
  pd_stream :: "string \<Rightarrow> bool option"
  pd_maxTokens :: "string \<Rightarrow> int option"
  pd_input :: "string \<Rightarrow> (string \<times> string list) option"

datatype select_branch = SelDispatch | SelCancel | SelTimeout

record px_env =
  pe_wall :: "nat \<Rightarrow> walltime"
  pe_trWall :: "nat \<Rightarrow> walltime"
  pe_mono :: "nat \<Rightarrow> duration"
  pe_admitMono :: duration
  pe_dispatchMono :: duration
  pe_firstMono :: duration
  pe_doneMono :: duration
  pe_connect :: duration
  pe_reqNano :: int
  pe_routeNano :: int
  pe_dec :: px_decoder
  pe_encode :: "string \<Rightarrow> string \<Rightarrow> string \<Rightarrow> string"
  pe_sha256hex :: "string \<Rightarrow> string"
  pe_gate :: "QueueError option"
  pe_select :: select_branch
  pe_flusher :: bool
  pe_badURL :: "string option"
  pe_reply :: upstream_reply
  pe_isCanceled :: "string \<Rightarrow> bool"
  pe_others :: "nat \<Rightarrow> Queue \<Rightarrow> Queue"
  pe_otherWork :: "nat \<Rightarrow> WorkAccountant \<Rightarrow> WorkAccountant"

record TransitionEvent =
  tr_RequestID :: string
  tr_RouteID :: string
  tr_BackendID :: string
  tr_HostID :: string
  tr_DeviceID :: string
  tr_Wall :: walltime
  tr_Mono :: duration
  tr_From :: ReqState
  tr_To :: ReqState
  tr_Reason :: string

record up_request =
  uq_url :: string
  uq_header :: header
  uq_body :: string

text \<open>\<open>px_trace\<close> has the transitions of the ticket in order, \<open>px_dones\<close> the number of calls of \<open>Done\<close>,
  \<open>px_up\<close> the requests sent to vLLM and \<open>px_obs\<close> the observations of the cache observer.\<close>

record pstate =
  px_writer :: Writer
  px_log :: "LocalEvent list"
  px_queue :: Queue
  px_state :: ReqState
  px_trace :: "TransitionEvent list"
  px_dones :: nat
  px_up :: "up_request list"
  px_obs :: "(string \<times> int) list"
  px_work :: "WorkAccountant option"

section \<open>Helpers\<close>

definition px_ms :: "duration \<Rightarrow> real" where
  "px_ms d = real_of_int (dur_Microseconds d) / 1000"

fun queue_err_string :: "QueueError \<Rightarrow> string" where
  "queue_err_string ErrQueueFull = ''ADMISSION_QUEUE_FULL''"
| "queue_err_string ErrBackendOffline = ''BACKEND_OFFLINE''"
| "queue_err_string ErrBackendDraining = ''BACKEND_DRAINING''"
| "queue_err_string ErrRuntimeUnhealthy = ''RUNTIME_UNHEALTHY''"
| "queue_err_string ErrQueueTimeout = ''QUEUE_TIMEOUT''"
| "queue_err_string ErrInflightFull = ''INFLIGHT_LIMIT''"
| "queue_err_string ErrCancelled = ''CANCELLED''"

definition rejectionStatus :: "QueueError \<Rightarrow> int" where
  "rejectionStatus err = (if err = ErrQueueFull \<or> err = ErrInflightFull then 429 else 503)"

definition px_hopByHop :: "string list" where
  "px_hopByHop = [''Connection'', ''Keep-Alive'', ''Proxy-Authenticate'', ''Proxy-Authorization'',
     ''Te'', ''Trailers'', ''Transfer-Encoding'', ''Upgrade'']"

definition px_detectStream :: "px_decoder \<Rightarrow> string \<Rightarrow> bool" where
  "px_detectStream dec body = (case pd_stream dec body of Some b \<Rightarrow> b | None \<Rightarrow> False)"

definition estimateInputTokens :: "px_decoder \<Rightarrow> string \<Rightarrow> int" where
  "estimateInputTokens dec body =
     (case pd_input dec body of None \<Rightarrow> 0
      | Some (prompt, contents) \<Rightarrow>
          go_quot (int (foldl (\<lambda>c m. c + length m) (length prompt) contents)) 4)"

definition expectedOutputTokens :: "px_decoder \<Rightarrow> string \<Rightarrow> int" where
  "expectedOutputTokens dec body =
     (case pd_maxTokens dec body of Some n \<Rightarrow> if n > 0 then n else 128 | None \<Rightarrow> 128)"

definition sanitizeID :: "string \<Rightarrow> string" where
  "sanitizeID v = (if length v = 0 \<or> length v > 128 then [] else if list_all id_char v then v else [])"

definition orGenerate :: "int \<Rightarrow> string \<Rightarrow> string \<Rightarrow> string" where
  "orGenerate nano v0 pre =
     (let v = sanitizeID v0 in if v \<noteq> [] then v else pre @ ''_'' @ Itoa nano)"

definition hashOpaqueKey :: "(string \<Rightarrow> string) \<Rightarrow> string \<Rightarrow> string" where
  "hashOpaqueKey sha256hex raw = (if raw = [] then [] else sha256hex raw)"

text \<open>The headers that remain, the hashed key and the bounded token count.\<close>

definition extractAndStripPrefixHeaders ::
  "(string \<Rightarrow> string) \<Rightarrow> ProxyConfig \<Rightarrow> header \<Rightarrow> header \<times> string \<times> int" where
  "extractAndStripPrefixHeaders sha256hex cfg h =
     (let rawKey = hdr_get ''X-Cache-Prefix-Key'' h;
          rawTok = hdr_get ''X-Cache-Prefix-Tokens'' h;
          h' = hdr_del ''X-Cache-Prefix-Tokens'' (hdr_del ''X-Cache-Prefix-Key'' h)
      in if \<not> pc_ExplicitHeaderEnabled cfg \<or> rawKey = [] then (h', [], 0)
         else (h', hashOpaqueKey sha256hex rawKey,
               if rawTok \<noteq> [] then
                 (case Atoi rawTok of
                    Some n \<Rightarrow> if n > 0
                      then (if pc_MaxPrefixTokens cfg > 0 \<and> n > pc_MaxPrefixTokens cfg
                            then pc_MaxPrefixTokens cfg else n) else 0
                  | None \<Rightarrow> 0)
               else 0))"

definition writeErr :: "px_env \<Rightarrow> int \<Rightarrow> string \<Rightarrow> string \<Rightarrow> string \<Rightarrow> pstate \<Rightarrow> pstate" where
  "writeErr env status code reqID detail s =
     s\<lparr>px_writer := wr_write (pe_encode env code detail reqID) (WriteHeader status
         (wr_set ''X-Request-Id'' reqID (wr_set ''Content-Type'' ''application/json'' (px_writer s))))\<rparr>"

definition px_emit :: "px_env \<Rightarrow> Proxy \<Rightarrow> string \<Rightarrow> string \<Rightarrow> string \<Rightarrow>
    (string \<times> EvidenceValue) list \<Rightarrow> pstate \<Rightarrow> pstate" where
  "px_emit env p kind reqID routeID flds s =
     (if \<not> p_sink p then s
      else s\<lparr>px_log := px_log s @ [\<lparr>le_Kind = kind, le_RequestID = reqID, le_RouteID = routeID,
        le_BackendID = pc_BackendID (p_cfg p), le_HostID = pc_HostID (p_cfg p),
        le_DeviceID = pc_DeviceID (p_cfg p), le_Wall = pe_wall env (length (px_log s)),
        le_Fields = flds\<rparr>]\<rparr>)"

section \<open>The ticket\<close>

definition Transition :: "px_env \<Rightarrow> Ticket \<Rightarrow> ReqState \<Rightarrow> string \<Rightarrow> duration \<Rightarrow> pstate \<Rightarrow> pstate" where
  "Transition env tk to reason now s =
     s\<lparr>px_state := to, px_trace := px_trace s @ [\<lparr>tr_RequestID = t_RequestID tk,
         tr_RouteID = t_RouteID tk, tr_BackendID = t_BackendID tk, tr_HostID = t_HostID tk,
         tr_DeviceID = t_DeviceID tk, tr_Wall = pe_trWall env (length (px_trace s)), tr_Mono = now,
         tr_From = px_state s, tr_To = to, tr_Reason = reason\<rparr>]\<rparr>"

text \<open>The clock reading for the next transition.\<close>

definition next_mono :: "px_env \<Rightarrow> pstate \<Rightarrow> duration" where
  "next_mono env s = pe_mono env (length (px_trace s))"

definition px_Done :: "px_env \<Rightarrow> Ticket \<Rightarrow> ReqState \<Rightarrow> string \<Rightarrow> pstate \<Rightarrow> pstate" where
  "px_Done env tk final reason s0 =
     (let s = s0\<lparr>px_queue := Done (pe_doneMono env) (pe_others env 3 (px_queue s0)),
                 px_dones := px_dones s0 + 1\<rparr>
      in Transition env tk final reason (next_mono env s) s)"

definition px_Admit ::
  "px_env \<Rightarrow> Proxy \<Rightarrow> string \<Rightarrow> string \<Rightarrow> pstate \<Rightarrow> (QueueError + Ticket) \<times> pstate" where
  "px_Admit env p reqID routeID s =
     (let tkt = \<lparr>t_uid = q_arrivals (px_queue s), t_RequestID = reqID, t_RouteID = routeID,
                 t_BackendID = pc_BackendID (p_cfg p), t_HostID = pc_HostID (p_cfg p),
                 t_DeviceID = pc_DeviceID (p_cfg p), t_enqueuedMono = 0\<rparr>;
          (q, res) = Admit (pe_gate env) tkt (pe_admitMono env) (px_queue s);
          s1 = s\<lparr>px_queue := q\<rparr>
      in case res of
           Inl err \<Rightarrow> (Inl err, s1)
         | Inr t \<Rightarrow> (Inr t, Transition env t ReqQueued ''enqueued'' (pe_admitMono env)
                            (s1\<lparr>px_state := ReqReceived\<rparr>)))"

definition withdraw :: "px_env \<Rightarrow> wreason \<Rightarrow> Ticket \<Rightarrow> Queue \<Rightarrow> Queue" where
  "withdraw env r t q = count_withdrawn r (pe_others env 2 (removeWaiting t (pe_others env 1 q)))"

definition WaitForDispatch :: "px_env \<Rightarrow> Ticket \<Rightarrow> pstate \<Rightarrow> QueueError option \<times> pstate" where
  "WaitForDispatch env t s =
     (case pe_select env of
        SelDispatch \<Rightarrow> (None, s\<lparr>px_queue := pe_others env 1 (px_queue s)\<rparr>)
      | SelCancel \<Rightarrow>
          (let s1 = s\<lparr>px_queue := withdraw env WCancel t (px_queue s)\<rparr>
           in (Some ErrCancelled,
               Transition env t ReqCancelled ''client_cancelled_in_queue'' (next_mono env s1) s1))
      | SelTimeout \<Rightarrow>
          (let s1 = s\<lparr>px_queue := withdraw env WTimeout t (px_queue s)\<rparr>
           in (Some ErrQueueTimeout,
               Transition env t ReqTimedOut ''queue_timeout'' (next_mono env s1) s1)))"

section \<open>Relaying\<close>

definition upstreamRequest :: "px_env \<Rightarrow> Proxy \<Rightarrow> string \<Rightarrow> string \<Rightarrow> string \<Rightarrow> pstate \<Rightarrow> upstream_reply \<times> pstate" where
  "upstreamRequest env p body reqID routeID s =
     (case pe_badURL env of
        Some err \<Rightarrow> (ConnErr err, s)
      | None \<Rightarrow> (pe_reply env, s\<lparr>px_up := px_up s @ [\<lparr>uq_url = va_ChatCompletionsURL (p_vllm p),
           uq_header = hdr_set ''X-Route-Id'' routeID (hdr_set ''X-Request-Id'' reqID
             (hdr_set ''Content-Type'' ''application/json'' [])), uq_body = body\<rparr>]\<rparr>))"

definition connect_failed :: "px_env \<Rightarrow> Proxy \<Rightarrow> Ticket \<Rightarrow> string \<Rightarrow> string \<Rightarrow> string \<Rightarrow> pstate \<Rightarrow> pstate" where
  "connect_failed env p tk reqID routeID err s =
     writeErr env 502 ''UPSTREAM_FAILED'' reqID err
       (px_Done env tk ReqUpstreamFail ''vllm_connect_failed''
         (px_emit env p ''VLLM_REQUEST_FAILED'' reqID routeID
           [(''err'', EvString err), (''phase'', EvString ''connect'')] s))"

definition connected :: "px_env \<Rightarrow> Proxy \<Rightarrow> string \<Rightarrow> string \<Rightarrow> pstate \<Rightarrow> pstate" where
  "connected env p reqID routeID s =
     px_emit env p ''VLLM_CONNECTED'' reqID routeID [(''connect_ms'', EvReal (px_ms (pe_connect env)))] s"

definition relayJSON :: "px_env \<Rightarrow> Proxy \<Rightarrow> Ticket \<Rightarrow> string \<Rightarrow> string \<Rightarrow> string \<Rightarrow> pstate \<Rightarrow> pstate" where
  "relayJSON env p tk body reqID routeID s0 =
     (let s1 = Transition env tk ReqWaitingFull ''await_full'' (next_mono env s0) s0;
          (reply, s2) = upstreamRequest env p body reqID routeID s1
      in case reply of
           ConnErr err \<Rightarrow> connect_failed env p tk reqID routeID err s2
         | Reply status h full reads \<Rightarrow>
             let s3 = connected env p reqID routeID s2;
                 out = take (64 * 1024 * 1024) full;
                 s4 = s3\<lparr>px_writer := wr_write out (WriteHeader status
                        (wr_set ''X-Request-Id'' reqID (copy_except px_hopByHop h (px_writer s3))))\<rparr>;
                 s5 = px_emit env p ''STREAM_COMPLETED'' reqID routeID
                        [(''stream'', EvBool False), (''resp_bytes'', EvInt (int (length out))),
                         (''status'', EvInt status)] s4
             in if status \<ge> 200 \<and> status < 300 then px_Done env tk ReqCompleted ''json_ok'' s5
                else px_Done env tk ReqUpstreamFail ''vllm_non_2xx'' s5)"

text \<open>The end of a stream that was relayed completely.\<close>

definition stream_done :: "px_env \<Rightarrow> Proxy \<Rightarrow> Ticket \<Rightarrow> string \<Rightarrow> string \<Rightarrow> int \<Rightarrow> int \<Rightarrow> bool \<Rightarrow> pstate \<Rightarrow> pstate" where
  "stream_done env p tk reqID routeID events bytesn sawDone s =
     px_Done env tk ReqCompleted ''stream_ok'' (px_emit env p ''STREAM_COMPLETED'' reqID routeID
       [(''stream'', EvBool True), (''events'', EvInt events), (''bytes'', EvInt bytesn),
        (''saw_done'', EvBool sawDone)] s)"

text \<open>A read that returned an error other than the end of the stream; \<open>first\<close> says that a line was
  written before.\<close>

definition stream_err :: "px_env \<Rightarrow> Proxy \<Rightarrow> Ticket \<Rightarrow> string \<Rightarrow> string \<Rightarrow> bool \<Rightarrow> bool \<Rightarrow> int \<Rightarrow> int \<Rightarrow> string \<Rightarrow>
    pstate \<Rightarrow> pstate" where
  "stream_err env p tk reqID routeID cancelled first events bytesn err s =
     (if \<not> first then
        (if cancelled
         then px_Done env tk ReqCancelled ''cancelled_pre_first_event''
                (px_emit env p ''UPSTREAM_CANCELLED'' reqID routeID
                  [(''phase'', EvString ''pre_first_event'')] s)
         else px_Done env tk ReqUpstreamFail ''upstream_err_pre_first_event''
                (px_emit env p ''VLLM_REQUEST_FAILED'' reqID routeID
                  [(''err'', EvString err), (''phase'', EvString ''pre_first_event'')] s))
      else if cancelled
      then px_Done env tk ReqCancelled ''client_cancelled_mid_stream''
             (px_emit env p ''UPSTREAM_CANCELLED'' reqID routeID
               [(''phase'', EvString ''mid_stream''), (''events'', EvInt events), (''bytes'', EvInt bytesn)] s)
      else px_Done env tk ReqPartialStream ''upstream_err_mid_stream''
             (px_emit env p ''PARTIAL_STREAM_FAILED'' reqID routeID
               [(''err'', EvString err), (''events'', EvInt events), (''bytes'', EvInt bytesn)] s))"

text \<open>One line: the event for the first one, the write, the event for the first write. Both first
  times are the same reading, so the delay that is reported is zero.\<close>

definition relay_write :: "px_env \<Rightarrow> Proxy \<Rightarrow> string \<Rightarrow> string \<Rightarrow> bool \<Rightarrow> string \<Rightarrow> pstate \<Rightarrow> pstate" where
  "relay_write env p reqID routeID first line s =
     (let s1 = s\<lparr>px_writer := wr_write line (px_writer s)\<rparr>
      in if first then s1
         else px_emit env p ''FIRST_RELAY_WRITE'' reqID routeID [(''relay_delay_ms'', EvReal (px_ms 0))] s1)"

definition first_event :: "px_env \<Rightarrow> Proxy \<Rightarrow> string \<Rightarrow> string \<Rightarrow> bool \<Rightarrow> pstate \<Rightarrow> pstate" where
  "first_event env p reqID routeID first s =
     (if first then s
      else px_emit env p ''FIRST_VLLM_EVENT'' reqID routeID
             [(''vllm_ttft_ms_from_dispatch'', EvReal (px_ms (pe_firstMono env - pe_dispatchMono env)))] s)"

primrec px_relay :: "px_env \<Rightarrow> Proxy \<Rightarrow> Ticket \<Rightarrow> string \<Rightarrow> string \<Rightarrow> bool \<Rightarrow> int \<Rightarrow> int \<Rightarrow> bool \<Rightarrow>
    stream_read list \<Rightarrow> pstate \<Rightarrow> pstate" where
  "px_relay env p tk reqID routeID first events bytesn sawDone [] s =
     stream_done env p tk reqID routeID events bytesn sawDone s"
| "px_relay env p tk reqID routeID first events bytesn sawDone (r # rs) s =
     (let line = sr_line r;
          s1 = (if line \<noteq> [] then first_event env p reqID routeID first s else s)
      in if line \<noteq> [] \<and> sr_writeFails r
         then px_Done env tk ReqCancelled ''downstream_gone''
                (px_emit env p ''UPSTREAM_CANCELLED'' reqID routeID
                  [(''phase'', EvString ''downstream_write_fail'')] s1)
         else
          let s2 = (if line \<noteq> [] then relay_write env p reqID routeID first line s1 else s1);
              first1 = (first \<or> line \<noteq> []);
              events1 = (if line \<noteq> [] then events + 1 else events);
              bytes1 = bytesn + int (length line);
              saw1 = (sawDone \<or> Contains line ''[DONE]'')
          in case sr_err r of
               EOF \<Rightarrow> stream_done env p tk reqID routeID events1 bytes1 saw1 s2
             | ReadErr err \<Rightarrow>
                 stream_err env p tk reqID routeID (sr_ctxDone r \<or> pe_isCanceled env err) first1
                   events1 bytes1 err s2
             | NoErr \<Rightarrow>
                 if sr_ctxDone r
                 then px_Done env tk ReqCancelled ''client_cancelled_mid_stream''
                        (px_emit env p ''UPSTREAM_CANCELLED'' reqID routeID
                          [(''phase'', EvString ''mid_stream'')] s2)
                 else px_relay env p tk reqID routeID first1 events1 bytes1 saw1 rs s2)"

definition sse_open :: "string \<Rightarrow> Writer \<Rightarrow> Writer" where
  "sse_open reqID w = WriteHeader 200 (wr_set ''X-Request-Id'' reqID (wr_set ''Connection'' ''keep-alive''
     (wr_set ''Cache-Control'' ''no-cache'' (wr_set ''Content-Type'' ''text/event-stream'' w))))"

definition relayStream :: "px_env \<Rightarrow> Proxy \<Rightarrow> Ticket \<Rightarrow> string \<Rightarrow> string \<Rightarrow> string \<Rightarrow> pstate \<Rightarrow> pstate" where
  "relayStream env p tk body reqID routeID s0 =
     (if \<not> pe_flusher env
      then px_Done env tk ReqUpstreamFail ''no_flusher''
             (writeErr env 500 ''NO_FLUSH'' reqID ''response writer not flushable'' s0)
      else let (reply, s1) = upstreamRequest env p body reqID routeID s0
      in case reply of
           ConnErr err \<Rightarrow> connect_failed env p tk reqID routeID err s1
         | Reply status h full reads \<Rightarrow>
             let s2 = connected env p reqID routeID s1
             in if status \<noteq> 200 then
                  px_Done env tk ReqUpstreamFail ''vllm_non_200_stream''
                    (s2\<lparr>px_writer := wr_write (take (2 ^ 20) full) (WriteHeader status
                        (wr_set ''Content-Type'' ''application/json'' (px_writer s2)))\<rparr>)
                else let s3 = s2\<lparr>px_writer := sse_open reqID (px_writer s2)\<rparr>;
                         s4 = Transition env tk ReqStreaming ''stream_open'' (next_mono env s3) s3
                     in px_relay env p tk reqID routeID False 0 0 False reads s4)"

section \<open>The handler\<close>

definition observe_prefix :: "Proxy \<Rightarrow> string \<Rightarrow> int \<Rightarrow> int \<Rightarrow> pstate \<Rightarrow> pstate" where
  "observe_prefix p keyHash prefixTokens inputLen s =
     (if p_cacheObs p \<and> keyHash \<noteq> [] then
        let tok = (if prefixTokens \<le> 0 then inputLen else prefixTokens)
        in if tok > 0 then s\<lparr>px_obs := px_obs s @ [(keyHash, tok)]\<rparr> else s
      else s)"

definition reserve_work :: "px_env \<Rightarrow> string \<Rightarrow> int \<Rightarrow> int \<Rightarrow> int \<Rightarrow> pstate \<Rightarrow> (64 word \<times> 64 word) \<times> pstate" where
  "reserve_work env keyHash prefixTokens inputLen expected s =
     (case px_work s of
        None \<Rightarrow> ((0, 0), s)
      | Some w \<Rightarrow>
          let conf = (if keyHash \<noteq> [] then 1 else 0);
              matched = (if keyHash \<noteq> [] then prefixTokens else 0);
              (res, w1) = ReserveTokens (word_of_int inputLen) (word_of_int matched)
                            (word_of_int expected) conf (pe_otherWork env 0 w)
          in (res, s\<lparr>px_work := Some (Activate res (pe_otherWork env 1 w1))\<rparr>))"

definition release_work :: "px_env \<Rightarrow> 64 word \<times> 64 word \<Rightarrow> pstate \<Rightarrow> pstate" where
  "release_work env res s =
     s\<lparr>px_work := map_option (\<lambda>w. Release res (pe_otherWork env 2 w)) (px_work s)\<rparr>"

text \<open>What happens once the ticket was dispatched.\<close>

definition dispatched ::
  "px_env \<Rightarrow> Proxy \<Rightarrow> Ticket \<Rightarrow> string \<Rightarrow> string \<Rightarrow> string \<Rightarrow> string \<Rightarrow> int \<Rightarrow> pstate \<Rightarrow> pstate" where
  "dispatched env p tk body reqID routeID keyHash prefixTokens s0 =
     (let inputLen = estimateInputTokens (pe_dec env) body;
          s1 = px_emit env p ''QUEUE_DEQUEUED'' reqID routeID
                 [(''queue_wait_ms'', EvReal (px_ms (pe_dispatchMono env - t_enqueuedMono tk)))] s0;
          s2 = observe_prefix p keyHash prefixTokens inputLen s1;
          s3 = Transition env tk ReqDispatching ''dispatch'' (next_mono env s2) s2;
          s4 = px_emit env p ''VLLM_DISPATCH_STARTED'' reqID routeID [] s3;
          (res, s5) = reserve_work env keyHash prefixTokens inputLen
                        (expectedOutputTokens (pe_dec env) body) s4
      in release_work env res
           (if px_detectStream (pe_dec env) body then relayStream env p tk body reqID routeID s5
            else relayJSON env p tk body reqID routeID s5))"

definition not_dispatched :: "px_env \<Rightarrow> Proxy \<Rightarrow> string \<Rightarrow> string \<Rightarrow> QueueError \<Rightarrow> pstate \<Rightarrow> pstate" where
  "not_dispatched env p reqID routeID err s =
     (if err = ErrQueueTimeout
      then writeErr env 503 ''QUEUE_TIMEOUT'' reqID ''queued too long''
             (px_emit env p ''QUEUE_TIMED_OUT'' reqID routeID [] s)
      else if err = ErrCancelled
      then px_emit env p ''UPSTREAM_CANCELLED'' reqID routeID [(''phase'', EvString ''in_queue'')] s
      else writeErr env 503 ''DISPATCH_FAILED'' reqID (queue_err_string err) s)"

definition new_pstate :: "Queue \<Rightarrow> WorkAccountant option \<Rightarrow> pstate" where
  "new_pstate q w = \<lparr>px_writer = new_writer, px_log = [], px_queue = q, px_state = ReqReceived,
     px_trace = [], px_dones = 0, px_up = [], px_obs = [], px_work = w\<rparr>"

definition received_fields :: "px_env \<Rightarrow> string \<Rightarrow> string \<Rightarrow> int \<Rightarrow> (string \<times> EvidenceValue) list" where
  "received_fields env body keyHash prefixTokens =
     [(''stream'', EvBool (px_detectStream (pe_dec env) body)),
      (''body_bytes'', EvInt (int (length body))),
      (''input_len_est'', EvInt (estimateInputTokens (pe_dec env) body))] @
     (if keyHash \<noteq> []
      then [(''cache_eligible'', EvBool True), (''prefix_key_hash'', EvString keyHash),
            (''prefix_tokens'', EvInt prefixTokens)] else [])"

text \<open>From the admission on.\<close>

definition serve ::
  "px_env \<Rightarrow> Proxy \<Rightarrow> string \<Rightarrow> string \<Rightarrow> string \<Rightarrow> string \<Rightarrow> int \<Rightarrow> pstate \<Rightarrow> pstate" where
  "serve env p body reqID routeID keyHash prefixTokens s1 =
     (case px_Admit env p reqID routeID s1 of
        (Inl aerr, s2) \<Rightarrow>
          writeErr env (rejectionStatus aerr) (queue_err_string aerr) reqID ''admission refused''
            (px_emit env p ''QUEUE_REJECTED'' reqID routeID
              [(''reason'', EvString (queue_err_string aerr))] s2)
      | (Inr tk, s2) \<Rightarrow>
          (case WaitForDispatch env tk (px_emit env p ''QUEUE_ENTERED'' reqID routeID [] s2) of
             (Some err, s4) \<Rightarrow> not_dispatched env p reqID routeID err s4
           | (None, s4) \<Rightarrow> dispatched env p tk body reqID routeID keyHash prefixTokens s4))"

definition px_ChatCompletions ::
  "px_env \<Rightarrow> Proxy \<Rightarrow> ClientRequest \<Rightarrow> Queue \<Rightarrow> WorkAccountant option \<Rightarrow> pstate" where
  "px_ChatCompletions env p r q w =
     (let s0 = new_pstate q w;
          reqID = orGenerate (pe_reqNano env) (hdr_get ''X-Request-Id'' (cr_header r)) ''req'';
          routeID = orGenerate (pe_routeNano env) (hdr_get ''X-Route-Id'' (cr_header r)) ''rt'';
          (h, keyHash, prefixTokens) =
            extractAndStripPrefixHeaders (pe_sha256hex env) (p_cfg p) (cr_header r)
      in case cr_readErr r of
           Some err \<Rightarrow> writeErr env 400 ''READ_BODY_FAILED'' reqID err s0
         | None \<Rightarrow>
             let body = take (16 * 1024 * 1024) (cr_body r)
             in serve env p body reqID routeID keyHash prefixTokens
                  (px_emit env p ''LOCAL_REQUEST_RECEIVED'' reqID routeID
                    (received_fields env body keyHash prefixTokens) s0))"

section \<open>What the steps leave alone\<close>

lemma px_emit_simps [simp]:
  "px_writer (px_emit env p k r ro f s) = px_writer s" "px_queue (px_emit env p k r ro f s) = px_queue s"
  "px_state (px_emit env p k r ro f s) = px_state s" "px_trace (px_emit env p k r ro f s) = px_trace s"
  "px_dones (px_emit env p k r ro f s) = px_dones s" "px_up (px_emit env p k r ro f s) = px_up s"
  "px_obs (px_emit env p k r ro f s) = px_obs s" "px_work (px_emit env p k r ro f s) = px_work s"
  by (simp_all add: px_emit_def)

lemma Transition_simps [simp]:
  "px_writer (Transition env tk to why t s) = px_writer s" "px_queue (Transition env tk to why t s) = px_queue s"
  "px_state (Transition env tk to why t s) = to" "px_dones (Transition env tk to why t s) = px_dones s"
  "px_up (Transition env tk to why t s) = px_up s" "px_work (Transition env tk to why t s) = px_work s"
  "px_log (Transition env tk to why t s) = px_log s" "px_obs (Transition env tk to why t s) = px_obs s"
  by (simp_all add: Transition_def)

lemma px_Done_simps [simp]:
  "px_writer (px_Done env tk f why s) = px_writer s" "px_state (px_Done env tk f why s) = f"
  "px_dones (px_Done env tk f why s) = Suc (px_dones s)" "px_up (px_Done env tk f why s) = px_up s"
  "px_work (px_Done env tk f why s) = px_work s" "px_obs (px_Done env tk f why s) = px_obs s"
  "px_queue (px_Done env tk f why s) = Done (pe_doneMono env) (pe_others env 3 (px_queue s))"
  by (simp_all add: px_Done_def Let_def)

lemma writeErr_simps [simp]:
  "px_queue (writeErr env st c r d s) = px_queue s" "px_state (writeErr env st c r d s) = px_state s"
  "px_trace (writeErr env st c r d s) = px_trace s" "px_dones (writeErr env st c r d s) = px_dones s"
  "px_up (writeErr env st c r d s) = px_up s" "px_work (writeErr env st c r d s) = px_work s"
  "px_obs (writeErr env st c r d s) = px_obs s"
  by (simp_all add: writeErr_def)

section \<open>The life of a ticket\<close>

text \<open>The states a request passes through.\<close>

fun ticket_step :: "ReqState \<Rightarrow> ReqState \<Rightarrow> bool" where
  "ticket_step ReqReceived s = (s = ReqQueued)"
| "ticket_step ReqQueued s = (s = ReqDispatching \<or> s = ReqCancelled \<or> s = ReqTimedOut)"
| "ticket_step ReqDispatching s = (s = ReqWaitingFull \<or> s = ReqStreaming \<or> s = ReqUpstreamFail)"
| "ticket_step ReqWaitingFull s = (s = ReqCompleted \<or> s = ReqUpstreamFail)"
| "ticket_step ReqStreaming s =
     (s = ReqCompleted \<or> s = ReqCancelled \<or> s = ReqUpstreamFail \<or> s = ReqPartialStream)"
| "ticket_step _ s = False"

definition terminal :: "ReqState \<Rightarrow> bool" where
  "terminal s \<longleftrightarrow> s \<in> {ReqCompleted, ReqCancelled, ReqTimedOut, ReqUpstreamFail, ReqPartialStream}"

fun linked :: "ReqState \<Rightarrow> TransitionEvent list \<Rightarrow> bool" where
  "linked s [] = True"
| "linked s (e # es) = (tr_From e = s \<and> ticket_step s (tr_To e) \<and> linked (tr_To e) es)"

definition path_ok :: "pstate \<Rightarrow> bool" where
  "path_ok s \<longleftrightarrow> linked ReqReceived (px_trace s) \<and>
     px_state s = (if px_trace s = [] then ReqReceived else tr_To (last (px_trace s)))"

definition dispatches :: "pstate \<Rightarrow> nat" where
  "dispatches s = length (filter (\<lambda>e. tr_To e = ReqDispatching) (px_trace s))"

lemma terminal_no_step: "terminal s \<Longrightarrow> \<not> ticket_step s s'"
  by (auto simp: terminal_def)

lemma linked_snoc:
  "linked s (es @ [e]) \<longleftrightarrow> linked s es \<and> tr_From e = (if es = [] then s else tr_To (last es)) \<and>
     ticket_step (tr_From e) (tr_To e)"
  by (induction s es rule: linked.induct) auto

lemma path_ok_Transition [simp]:
  "path_ok s \<Longrightarrow> path_ok (Transition env tk to why t s) \<longleftrightarrow> ticket_step (px_state s) to"
  by (auto simp: path_ok_def Transition_def linked_snoc)

lemma dispatches_Transition [simp]:
  "dispatches (Transition env tk to why t s) = dispatches s + (if to = ReqDispatching then 1 else 0)"
  by (simp add: dispatches_def Transition_def)

lemma path_same:
  "px_trace s = px_trace s' \<Longrightarrow> px_state s = px_state s' \<Longrightarrow> path_ok s = path_ok s'"
  "px_trace s = px_trace s' \<Longrightarrow> dispatches s = dispatches s'"
  by (simp_all add: path_ok_def dispatches_def)

lemma path_ok_simps [simp]:
  "path_ok (px_emit env p k r ro f s) = path_ok s" "path_ok (writeErr env st c r d s) = path_ok s"
  "dispatches (px_emit env p k r ro f s) = dispatches s" "dispatches (writeErr env st c r d s) = dispatches s"
  "path_ok (s\<lparr>px_writer := w\<rparr>) = path_ok s" "dispatches (s\<lparr>px_writer := w\<rparr>) = dispatches s"
  "path_ok (s\<lparr>px_queue := q\<rparr>) = path_ok s" "dispatches (s\<lparr>px_queue := q\<rparr>) = dispatches s"
  "path_ok (s\<lparr>px_work := wo\<rparr>) = path_ok s" "dispatches (s\<lparr>px_work := wo\<rparr>) = dispatches s"
  "path_ok (s\<lparr>px_obs := ob\<rparr>) = path_ok s" "dispatches (s\<lparr>px_obs := ob\<rparr>) = dispatches s"
  "path_ok (s\<lparr>px_up := u\<rparr>) = path_ok s" "dispatches (s\<lparr>px_up := u\<rparr>) = dispatches s"
  "path_ok (s\<lparr>px_queue := q, px_dones := n\<rparr>) = path_ok s"
  "dispatches (s\<lparr>px_queue := q, px_dones := n\<rparr>) = dispatches s"
  by (rule path_same; simp)+

text \<open>A ticket that holds a slot, and one that was settled.\<close>

definition holding :: "pstate \<Rightarrow> bool" where
  "holding s \<longleftrightarrow> path_ok s \<and> dispatches s = Suc (px_dones s)"

definition settled :: "pstate \<Rightarrow> bool" where
  "settled s \<longleftrightarrow> path_ok s \<and> dispatches s = px_dones s \<and> terminal (px_state s)"

lemma holding_simps [simp]:
  "holding (px_emit env p k r ro f s) = holding s" "holding (writeErr env st c r d s) = holding s"
  "holding (s\<lparr>px_writer := w\<rparr>) = holding s" "holding (s\<lparr>px_up := u\<rparr>) = holding s"
  "holding (s\<lparr>px_work := wo\<rparr>) = holding s"
  by (simp_all add: holding_def)

lemma holding_Transition [simp]:
  "holding s \<Longrightarrow> ticket_step (px_state s) to \<Longrightarrow> to \<noteq> ReqDispatching \<Longrightarrow>
   holding (Transition env tk to why t s)"
  by (simp add: holding_def)

lemma settled_simps [simp]:
  "settled (px_emit env p k r ro f s) = settled s" "settled (writeErr env st c r d s) = settled s"
  "settled (s\<lparr>px_work := wo\<rparr>) = settled s"
  by (simp_all add: settled_def)

lemma settled_Done [simp]:
  "holding s \<Longrightarrow> ticket_step (px_state s) f \<Longrightarrow> terminal f \<Longrightarrow> settled (px_Done env tk f why s)"
  by (auto simp: holding_def settled_def px_Done_def Let_def terminal_def)

section \<open>Every dispatched ticket is settled once\<close>

definition answered :: "pstate \<Rightarrow> bool" where
  "answered s \<longleftrightarrow> wr_status (px_writer s) \<noteq> None"

lemma answered_simps [simp]:
  "answered (writeErr env st c r d s)" "answered (px_Done env tk f why s) = answered s"
  "answered (px_emit env p k r ro fs s) = answered s" "answered (Transition env tk to why t s) = answered s"
  "answered (s\<lparr>px_writer := wr_write b w\<rparr>)" "answered (s\<lparr>px_writer := sse_open r w\<rparr>)"
  "answered (s\<lparr>px_work := wo\<rparr>) = answered s"
  by (simp_all add: answered_def writeErr_def sse_open_def split: option.split)

lemma relay_writers:
  "extends (px_writer s) (px_writer (relay_write env p reqID routeID first line s))"
  "extends (px_writer s) (px_writer (first_event env p reqID routeID first s))"
  "holding (relay_write env p reqID routeID first line s) = holding s"
  "holding (first_event env p reqID routeID first s) = holding s"
  "px_state (relay_write env p reqID routeID first line s) = px_state s"
  "px_state (first_event env p reqID routeID first s) = px_state s"
  by (simp_all add: relay_write_def first_event_def Let_def)

lemma stream_done_settles:
  "holding s \<Longrightarrow> px_state s = ReqStreaming \<Longrightarrow> settled (stream_done env p tk r ro e n d s)"
  by (simp add: stream_done_def terminal_def)

lemma stream_err_settles:
  "holding s \<Longrightarrow> px_state s = ReqStreaming \<Longrightarrow> settled (stream_err env p tk r ro c first e n err s)"
  by (simp add: stream_err_def terminal_def)

lemma stream_writers [simp]:
  "px_writer (stream_done env p tk r ro e n d s) = px_writer s"
  "px_writer (stream_err env p tk r ro c first e n err s) = px_writer s"
  by (simp_all add: stream_done_def stream_err_def)

lemma px_relay_settles:
  assumes "holding s" "px_state s = ReqStreaming"
  shows "settled (px_relay env p tk reqID routeID first e n d reads s)"
  using assms
proof (induction reads arbitrary: first e n d s)
  case Nil
  then show ?case by (simp add: stream_done_settles)
next
  case (Cons r rs)
  have "settled (px_Done env tk ReqCancelled why s)" if "holding s" "px_state s = ReqStreaming" for why s
    using that by (simp add: terminal_def)
  with Cons show ?case
    by (simp add: Let_def relay_writers stream_done_settles stream_err_settles split: read_err.split)
qed

lemma px_relay_extends: "extends (px_writer s) (px_writer (px_relay env p tk r ro first e n d reads s))"
proof (induction reads arbitrary: first e n d s)
  case (Cons x rs)
  show ?case
  proof (cases "sr_line x = []")
    case True
    then show ?thesis using Cons by (simp add: Let_def split: read_err.split)
  next
    case False
    let ?s1 = "first_event env p r ro first s"
    let ?s2 = "relay_write env p r ro first (sr_line x) ?s1"
    have 1: "extends (px_writer s) (px_writer ?s1)" by (rule relay_writers)
    have 2: "extends (px_writer s) (px_writer ?s2)"
      by (rule extends_trans [OF 1 relay_writers(1)])
    have 3: "extends (px_writer s) (px_writer (px_relay env p tk r ro f e' n' d' rs ?s2))" for f e' n' d'
      by (rule extends_trans [OF 2 Cons])
    show ?thesis using False 1 2 3 by (simp add: Let_def split: read_err.split)
  qed
qed simp

lemma upstreamRequest_simps [simp]:
  "holding (snd (upstreamRequest env p b r ro s)) = holding s"
  "px_state (snd (upstreamRequest env p b r ro s)) = px_state s"
  "px_writer (snd (upstreamRequest env p b r ro s)) = px_writer s"
  by (simp_all add: upstreamRequest_def split: option.split)

lemma connect_failed_settles:
  "holding s \<Longrightarrow> ticket_step (px_state s) ReqUpstreamFail \<Longrightarrow> settled (connect_failed env p tk r ro err s)"
  "answered (connect_failed env p tk r ro err s)"
  by (simp_all add: connect_failed_def terminal_def)

lemma connected_simps [simp]:
  "holding (connected env p r ro s) = holding s" "px_state (connected env p r ro s) = px_state s"
  "px_writer (connected env p r ro s) = px_writer s"
  by (simp_all add: connected_def)

lemma px_relay_answered: "answered s \<Longrightarrow> answered (px_relay env p tk r ro first e n d reads s)"
  using px_relay_extends extends_status unfolding answered_def by (metis not_None_eq)

lemma relayJSON_settles:
  assumes "holding s" "px_state s = ReqDispatching"
  shows "settled (relayJSON env p tk body r ro s) \<and> answered (relayJSON env p tk body r ro s)"
proof (cases "fst (upstreamRequest env p body r ro
    (Transition env tk ReqWaitingFull ''await_full'' (next_mono env s) s))")
  case (ConnErr err)
  with assms show ?thesis by (simp add: relayJSON_def Let_def case_prod_beta connect_failed_settles)
next
  case (Reply st h full reads)
  with assms show ?thesis by (simp add: relayJSON_def Let_def case_prod_beta terminal_def)
qed

lemma relayStream_settles:
  assumes "holding s" "px_state s = ReqDispatching"
  shows "settled (relayStream env p tk body r ro s) \<and> answered (relayStream env p tk body r ro s)"
proof (cases "fst (upstreamRequest env p body r ro s)")
  case (ConnErr err)
  with assms show ?thesis
    by (simp add: relayStream_def Let_def case_prod_beta connect_failed_settles terminal_def)
next
  case (Reply st h full reads)
  with assms show ?thesis
    by (simp add: relayStream_def Let_def case_prod_beta terminal_def px_relay_settles px_relay_answered)
qed

lemma reserve_work_simps [simp]:
  "holding (snd (reserve_work env k pt il ex s)) = holding s"
  "px_state (snd (reserve_work env k pt il ex s)) = px_state s"
  by (simp_all add: reserve_work_def Let_def case_prod_beta split: option.split)

lemma release_work_simps [simp]:
  "settled (release_work env res s) = settled s" "answered (release_work env res s) = answered s"
  by (simp_all add: release_work_def)

lemma observe_prefix_simps [simp]:
  "path_ok (observe_prefix p k pt il s) = path_ok s" "dispatches (observe_prefix p k pt il s) = dispatches s"
  "px_state (observe_prefix p k pt il s) = px_state s" "px_dones (observe_prefix p k pt il s) = px_dones s"
  by (simp_all add: observe_prefix_def Let_def)

lemma dispatched_settles:
  assumes "path_ok s" "px_state s = ReqQueued" "dispatches s = px_dones s"
  shows "settled (dispatched env p tk body r ro k pt s) \<and> answered (dispatched env p tk body r ro k pt s)"
proof -
  let ?s1 = "observe_prefix p k pt (estimateInputTokens (pe_dec env) body)
      (px_emit env p ''QUEUE_DEQUEUED'' r ro
        [(''queue_wait_ms'', EvReal (px_ms (pe_dispatchMono env - t_enqueuedMono tk)))] s)"
  have "holding (Transition env tk ReqDispatching ''dispatch'' (next_mono env ?s1) ?s1)"
    using assms by (simp add: holding_def)
  then show ?thesis
    by (simp add: dispatched_def Let_def case_prod_beta relayStream_settles relayJSON_settles)
qed

lemma new_pstate_simps [simp]:
  "path_ok (new_pstate q w)" "dispatches (new_pstate q w) = 0" "px_dones (new_pstate q w) = 0"
  "px_trace (new_pstate q w) = []" "px_state (new_pstate q w) = ReqReceived"
  by (simp_all add: new_pstate_def path_ok_def dispatches_def)

lemma px_Admit_cases:
  assumes "px_trace s = []" "px_state s = ReqReceived" "px_dones s = 0"
  obtains err s' where "px_Admit env p r ro s = (Inl err, s')" "px_trace s' = []" "px_dones s' = 0"
      "px_state s' = ReqReceived"
  | tk s' where "px_Admit env p r ro s = (Inr tk, s')" "path_ok s'" "px_state s' = ReqQueued"
      "dispatches s' = 0" "px_dones s' = 0"
proof (cases "px_Admit env p r ro s")
  case (Pair res s')
  show ?thesis
  proof (cases res)
    case (Inl err)
    with Pair assms that(1) show ?thesis
      by (auto simp: px_Admit_def Let_def split: prod.splits sum.splits)
  next
    case (Inr tk)
    have "path_ok (s\<lparr>px_queue := q, px_state := ReqReceived\<rparr>)" for q
      using assms by (simp add: path_ok_def)
    moreover have "dispatches (s\<lparr>px_queue := q, px_state := ReqReceived\<rparr>) = 0" for q
      using assms by (simp add: dispatches_def)
    ultimately show ?thesis
      using Pair Inr assms that(2)
      by (auto simp: px_Admit_def Let_def split: prod.splits sum.splits)
  qed
qed

lemma not_dispatched_simps [simp]:
  "path_ok (not_dispatched env p r ro err s) = path_ok s"
  "dispatches (not_dispatched env p r ro err s) = dispatches s"
  "px_state (not_dispatched env p r ro err s) = px_state s"
  "px_dones (not_dispatched env p r ro err s) = px_dones s"
  by (simp_all add: not_dispatched_def)

fun rank :: "ReqState \<Rightarrow> nat" where
  "rank ReqReceived = 0" | "rank ReqQueued = 1" | "rank ReqDispatching = 2"
| "rank ReqWaitingFull = 3" | "rank ReqStreaming = 3" | "rank _ = 4"

lemma ticket_step_rank: "ticket_step s s' \<Longrightarrow> rank s < rank s'"
  by (cases s) auto

lemma linked_dispatch_once:
  "linked s es \<Longrightarrow> length (filter (\<lambda>e. tr_To e = ReqDispatching) es) \<le> (if rank s < 2 then 1 else 0)"
proof (induction s es rule: linked.induct)
  case (2 s e es)
  then have "rank s < rank (tr_To e)" by (simp add: ticket_step_rank)
  with 2 show ?case by (cases "tr_To e = ReqDispatching") (auto split: if_splits)
qed simp

lemma dispatches_once: "path_ok s \<Longrightarrow> dispatches s \<le> 1"
  using linked_dispatch_once [of ReqReceived "px_trace s"] by (simp add: path_ok_def dispatches_def)

definition run_ok :: "pstate \<Rightarrow> bool" where
  "run_ok s \<longleftrightarrow> path_ok s \<and> (px_trace s = [] \<or> terminal (px_state s)) \<and> px_dones s = dispatches s \<and>
     (answered s \<or> px_state s = ReqCancelled \<and> px_dones s = 0)"

lemma run_ok_unadmitted:
  "px_trace s = [] \<Longrightarrow> px_state s = ReqReceived \<Longrightarrow> px_dones s = 0 \<Longrightarrow> run_ok (writeErr env st c r d s)"
  by (simp add: run_ok_def path_ok_def dispatches_def)

lemma run_ok_withdrawn:
  assumes "path_ok s" "px_state s = ReqQueued" "dispatches s = 0" "px_dones s = 0"
    and "WaitForDispatch env tk s = (Some err, s')"
  shows "run_ok (not_dispatched env p r ro err s')"
proof (cases "pe_select env")
  case SelCancel
  with assms show ?thesis
    by (auto simp: WaitForDispatch_def Let_def run_ok_def terminal_def not_dispatched_def)
next
  case SelTimeout
  with assms show ?thesis
    by (auto simp: WaitForDispatch_def Let_def run_ok_def terminal_def not_dispatched_def)
qed (use assms in \<open>simp add: WaitForDispatch_def\<close>)

lemma run_ok_dispatched:
  assumes "path_ok s" "px_state s = ReqQueued" "dispatches s = 0" "px_dones s = 0"
    and "WaitForDispatch env tk s = (None, s')"
  shows "run_ok (dispatched env p tk body r ro k pt s')"
proof -
  have "s' = s\<lparr>px_queue := pe_others env 1 (px_queue s)\<rparr>"
    using assms(5) by (auto simp: WaitForDispatch_def Let_def split: select_branch.splits)
  then have "path_ok s'" "px_state s' = ReqQueued" "dispatches s' = px_dones s'" using assms by simp_all
  from dispatched_settles [OF this] show ?thesis by (simp add: run_ok_def settled_def)
qed

lemma serve_run_ok:
  assumes "px_trace s = []" "px_state s = ReqReceived" "px_dones s = 0"
  shows "run_ok (serve env p body r ro k pt s)"
  using assms
proof (cases rule: px_Admit_cases [where env = env and p = p and r = r and ro = ro])
  case (1 err s')
  then show ?thesis by (simp add: serve_def run_ok_unadmitted)
next
  case (2 tk s')
  let ?e = "px_emit env p ''QUEUE_ENTERED'' r ro [] s'"
  have e: "path_ok ?e" "px_state ?e = ReqQueued" "dispatches ?e = 0" "px_dones ?e = 0" using 2 by simp_all
  obtain werr s4 where w: "WaitForDispatch env tk ?e = (werr, s4)" by fastforce
  show ?thesis
  proof (cases werr)
    case None
    with w 2(1) run_ok_dispatched [OF e] show ?thesis by (simp add: serve_def)
  next
    case (Some err)
    with w 2(1) run_ok_withdrawn [OF e] show ?thesis by (simp add: serve_def)
  qed
qed

lemma px_ChatCompletions_run_ok: "run_ok (px_ChatCompletions env p r q w)"
  by (cases "cr_readErr r")
    (simp_all add: px_ChatCompletions_def Let_def case_prod_beta run_ok_unadmitted serve_run_ok)


section \<open>The prefix key stays secret\<close>

text \<open>The part of a request that the handler looks at, with the prefix key replaced by its hash.\<close>

definition visible :: "(string \<Rightarrow> string) \<Rightarrow> ProxyConfig \<Rightarrow> ClientRequest \<Rightarrow> string list \<times> string option" where
  "visible sha256hex cfg r =
     (let g = (\<lambda>k. hdr_get k (cr_header r)); key = g ''X-Cache-Prefix-Key''
      in ([g ''X-Request-Id'', g ''X-Route-Id'', cr_body r] @
          (if pc_ExplicitHeaderEnabled cfg \<and> key \<noteq> []
           then [sha256hex key, g ''X-Cache-Prefix-Tokens''] else []), cr_readErr r))"

lemma extract_visible:
  assumes "visible sha cfg r = visible sha cfg r'"
  shows "snd (extractAndStripPrefixHeaders sha cfg (cr_header r)) =
    snd (extractAndStripPrefixHeaders sha cfg (cr_header r'))"
  using assms
  by (auto simp: visible_def extractAndStripPrefixHeaders_def hashOpaqueKey_def Let_def split: if_splits)

lemma up_requests:
  "px_up (first_event env p r ro f s) = px_up s" "px_up (relay_write env p r ro f l s) = px_up s"
  "px_up (stream_done env p tk r ro e n d s) = px_up s" "px_up (stream_err env p tk r ro c f e n err s) = px_up s"
  "px_up (connected env p r ro s) = px_up s" "px_up (connect_failed env p tk r ro err s) = px_up s"
  "px_up (not_dispatched env p r ro qe s) = px_up s" "px_up (release_work env res s) = px_up s"
  "px_up (snd (reserve_work env k pt il ex s)) = px_up s" "px_up (observe_prefix p k pt il s) = px_up s"
  by (simp_all add: first_event_def relay_write_def stream_done_def stream_err_def connected_def Let_def
      connect_failed_def not_dispatched_def release_work_def reserve_work_def observe_prefix_def
      case_prod_beta split: option.split)

lemma px_relay_up [simp]: "px_up (px_relay env p tk r ro first e n d reads s) = px_up s"
  by (induction reads arbitrary: first e n d s) (simp_all add: Let_def up_requests split: read_err.split)

definition clean_upstream :: "up_request list \<Rightarrow> bool" where
  "clean_upstream us \<longleftrightarrow> length us \<le> 1 \<and>
     list_all (\<lambda>u. map fst (uq_header u) = [''Content-Type'', ''X-Request-Id'', ''X-Route-Id'']) us"

lemma upstreamRequest_clean: "px_up s = [] \<Longrightarrow> clean_upstream (px_up (snd (upstreamRequest env p b r ro s)))"
  by (simp add: upstreamRequest_def clean_upstream_def hdr_set_def split: option.split)

lemma relays_clean:
  assumes "px_up s = []"
  shows "clean_upstream (px_up (relayJSON env p tk b r ro s))"
    and "clean_upstream (px_up (relayStream env p tk b r ro s))"
proof -
  let ?s = "Transition env tk ReqWaitingFull ''await_full'' (next_mono env s) s"
  note c = upstreamRequest_clean [of s env p b r ro, OF assms] upstreamRequest_clean [of ?s env p b r ro]
  show "clean_upstream (px_up (relayJSON env p tk b r ro s))"
    using c(2) assms by (cases "fst (upstreamRequest env p b r ro ?s)")
      (simp_all add: relayJSON_def Let_def case_prod_beta up_requests)
  show "clean_upstream (px_up (relayStream env p tk b r ro s))"
    using c(1) assms by (cases "fst (upstreamRequest env p b r ro s)")
      (simp_all add: relayStream_def Let_def case_prod_beta up_requests, simp_all add: clean_upstream_def)
qed

lemma dispatched_clean: "px_up s = [] \<Longrightarrow> clean_upstream (px_up (dispatched env p tk b r ro k pt s))"
  by (simp add: dispatched_def Let_def case_prod_beta up_requests relays_clean)

lemma serve_clean:
  assumes "px_up s = []"
  shows "clean_upstream (px_up (serve env p b r ro k pt s))"
proof -
  have a: "px_up (snd (px_Admit env p r ro s)) = []"
    using assms by (simp add: px_Admit_def Let_def case_prod_beta split: sum.split)
  have w: "px_up (snd (WaitForDispatch env tk x)) = px_up x" for tk x
    by (simp add: WaitForDispatch_def Let_def split: select_branch.split)
  have n: "clean_upstream []" by (simp add: clean_upstream_def)
  obtain res s2 where 1: "px_Admit env p r ro s = (res, s2)" by fastforce
  show ?thesis
  proof (cases res)
    case (Inl e)
    then show ?thesis using 1 a n by (simp add: serve_def)
  next
    case (Inr tk)
    obtain werr s4 where 2: "WaitForDispatch env tk (px_emit env p ''QUEUE_ENTERED'' r ro [] s2) = (werr, s4)"
      by fastforce
    then have "px_up s4 = []" using a 1 w [of tk "px_emit env p ''QUEUE_ENTERED'' r ro [] s2"] by simp
    then show ?thesis
      using 1 2 Inr n by (cases werr) (simp_all add: serve_def up_requests dispatched_clean)
  qed
qed

text \<open>C10: The prefix key of a client stays secret. The run of the handler, with all that it emits, sends,
  observes and answers, is the same for two requests that differ in the prefix key only, as long as
  the keys have the same hash; with the experiment disabled it does not depend on the prefix headers
  at all. What is sent to vLLM, at most one request, carries exactly the three headers for content
  type, request and route.\<close>

theorem proxy_key_confidential:
  assumes "visible (pe_sha256hex env) (p_cfg p) r = visible (pe_sha256hex env) (p_cfg p) r'"
  shows "px_ChatCompletions env p r q w = px_ChatCompletions env p r' q w \<and>
    clean_upstream (px_up (px_ChatCompletions env p r q w))"
proof -
  have same: "cr_readErr r = cr_readErr r'" "cr_body r = cr_body r'"
    "hdr_get ''X-Request-Id'' (cr_header r) = hdr_get ''X-Request-Id'' (cr_header r')"
    "hdr_get ''X-Route-Id'' (cr_header r) = hdr_get ''X-Route-Id'' (cr_header r')"
    using assms by (auto simp: visible_def Let_def split: if_splits)
  have eq: "px_ChatCompletions env p r q w = px_ChatCompletions env p r' q w"
    unfolding px_ChatCompletions_def Let_def case_prod_beta same extract_visible [OF assms] by (rule refl)
  have "px_up (new_pstate q w) = []" by (simp add: new_pstate_def)
  then have "clean_upstream (px_up (px_ChatCompletions env p r q w))"
    by (cases "cr_readErr r")
      (simp_all add: px_ChatCompletions_def Let_def case_prod_beta serve_clean, simp add: clean_upstream_def)
  with eq show ?thesis by simp
qed

section \<open>Work is released\<close>

lemma px_work_kept [simp]:
  "px_work (first_event env p r ro f s) = px_work s" "px_work (relay_write env p r ro f l s) = px_work s"
  "px_work (stream_done env p tk r ro e n d s) = px_work s"
  "px_work (stream_err env p tk r ro c f e n err s) = px_work s"
  "px_work (connected env p r ro s) = px_work s" "px_work (connect_failed env p tk r ro err s) = px_work s"
  "px_work (snd (upstreamRequest env p b r ro s)) = px_work s" "px_work (observe_prefix p k pt il s) = px_work s"
  by (simp_all add: first_event_def relay_write_def stream_done_def stream_err_def connected_def Let_def
      connect_failed_def upstreamRequest_def observe_prefix_def split: option.split)

lemma px_relay_work [simp]: "px_work (px_relay env p tk r ro first e n d reads s) = px_work s"
  by (induction reads arbitrary: first e n d s) (simp_all add: Let_def split: read_err.split)

lemma relay_work [simp]:
  "px_work (relayJSON env p tk b r ro s) = px_work s" "px_work (relayStream env p tk b r ro s) = px_work s"
  by (simp_all add: relayJSON_def relayStream_def Let_def case_prod_beta split: upstream_reply.split)

definition live_counters :: "WorkAccountant \<Rightarrow> 64 word list" where
  "live_counters w = [wa_reservedUncachedPrefill w, wa_reservedDecode w, wa_activeUncachedPrefill w,
     wa_activeDecode w]"

lemma reserve_release:
  assumes "list_all (\<lambda>c. 0 \<le> sint c) (live_counters w)" and "ReserveTokens i m e conf w = (res, w1)"
  shows "live_counters (Release res (Activate res w1)) = live_counters w"
  using assms by (auto simp: live_counters_def ReserveTokens_def Release_def Activate_def case_prod_beta)

text \<open>While nothing else touches the accountant, a dispatched request leaves the live counters as it
  found them, on every path of the relay, whatever the sizes.\<close>

lemma dispatched_releases:
  assumes "px_work s = Some w" and "list_all (\<lambda>c. 0 \<le> sint c) (live_counters w)"
    and "\<And>k. pe_otherWork env k = id"
  shows "\<exists>w'. px_work (dispatched env p tk body r ro k pt s) = Some w' \<and>
    live_counters w' = live_counters w"
proof -
  obtain i m e conf where
    "px_work (dispatched env p tk body r ro k pt s) =
      Some (Release (fst (ReserveTokens i m e conf w))
        (Activate (fst (ReserveTokens i m e conf w)) (snd (ReserveTokens i m e conf w))))"
    using assms(1,3)
    by (auto simp: dispatched_def Let_def case_prod_beta release_work_def reserve_work_def)
  with reserve_release [OF assms(2), of i m e conf] show ?thesis by simp
qed

section \<open>Examples\<close>

definition demo_pe :: px_env where
  "demo_pe = \<lparr>pe_wall = int, pe_trWall = int, pe_mono = int, pe_admitMono = 1, pe_dispatchMono = 2,
     pe_firstMono = 3, pe_doneMono = 4, pe_connect = 1, pe_reqNano = 7, pe_routeNano = 8,
     pe_dec = \<lparr>pd_stream = (\<lambda>_. None), pd_maxTokens = (\<lambda>_. None), pd_input = (\<lambda>_. None)\<rparr>,
     pe_encode = (\<lambda>c d r. c), pe_sha256hex = (\<lambda>k. Itoa (int (length k))), pe_gate = None,
     pe_select = SelDispatch, pe_flusher = True, pe_badURL = None,
     pe_reply = Reply 200 [] ''ok'' [], pe_isCanceled = (\<lambda>_. False), pe_others = (\<lambda>_ q. q),
     pe_otherWork = (\<lambda>_. id)\<rparr>"

definition demo_px :: Proxy where
  "demo_px = \<lparr>p_cfg = DefaultProxyConfig\<lparr>pc_ExplicitHeaderEnabled := True\<rparr>,
     p_vllm = NewAdapter DefaultVConfig 0, p_sink = True, p_cacheObs = True\<rparr>"

definition keyed_request :: "string \<Rightarrow> ClientRequest" where
  "keyed_request key = \<lparr>cr_header = [(''X-Cache-Prefix-Key'', [key])], cr_body = ''{}'', cr_readErr = None\<rparr>"

theorem proxy_key_confidential_witness:
  "px_ChatCompletions demo_pe demo_px (keyed_request ''secret-1'') (NewQueue DefaultQueueConfig) None =
   px_ChatCompletions demo_pe demo_px (keyed_request ''secret-2'') (NewQueue DefaultQueueConfig) None"
proof -
  have "visible (pe_sha256hex demo_pe) (p_cfg demo_px) (keyed_request ''secret-1'') =
      visible (pe_sha256hex demo_pe) (p_cfg demo_px) (keyed_request ''secret-2'')"
    by (simp add: visible_def Let_def keyed_request_def demo_pe_def hdr_get_def)
  from proxy_key_confidential [OF this] show ?thesis by blast
qed

end
