(* ===== verification/Routing_Policy.thy ===== *)
theory Routing_Policy
  imports Backend_Registry Go_Strings
begin

text \<open>
  The routing policies of \<open>internal/router\<close> (\<open>policy.go\<close>, \<open>policy_cache_aware.go\<close>): the four
  load-based baselines, the cache-aware analytical policy and the affinity-only baseline. A policy
  is a pure function of the request features and the materialized snapshot; only round robin has a
  state, its atomic counter, which is a \<open>64 word\<close> because its conversion to \<open>int\<close> changes sign at
  \<open>2^63\<close>. The cache locator is an argument, \<open>None\<close> for nil.

  The interface that the gateway relies on is the locale \<open>routing_policy\<close>; every policy is shown to
  keep it.
\<close>

section \<open>Requests and decisions\<close>

record RequestFeatures =
  rf_RequestID :: string
  rf_Model :: string
  rf_Stream :: bool
  rf_InputLenEst :: int
  rf_RequestedOutput :: int
  rf_SLOClass :: string
  rf_PrefixKeyHash :: string
  rf_PrefixTokens :: int
  rf_CacheEligible :: bool
  rf_SessionKeyHash :: string

record RouteDecision =
  rd_BackendID :: string
  rd_PolicyName :: string
  rd_PolicyVersion :: string
  rd_Reason :: string

text \<open>What a selection may end with besides a decision: the error of the package, or the panic of an
  index out of range.\<close>

datatype PolicyError = ErrNoEligibleBackend | PanicIndexOutOfRange

type_synonym locator = "string \<Rightarrow> string \<Rightarrow> int"

definition isEligible :: "BackendState \<Rightarrow> bool" where
  "isEligible b \<longleftrightarrow>
     (if \<not> bs_Reachable b \<or> \<not> bs_RuntimeHealthy b then False
      else if bs_LifecycleState b = ''OFFLINE'' \<or> bs_LifecycleState b = ''DRAINING'' then False
      else if bs_QueueMax b > 0 \<and> bs_QueueDepth b \<ge> bs_QueueMax b then False
      else True)"

fun eligible_loop :: "BackendState list \<Rightarrow> BackendState list \<Rightarrow> BackendState list" where
  "eligible_loop out [] = out"
| "eligible_loop out (b # bs) =
     (if \<not> bs_Reachable b \<or> \<not> bs_RuntimeHealthy b then eligible_loop out bs
      else if bs_LifecycleState b = ''OFFLINE'' \<or> bs_LifecycleState b = ''DRAINING''
        then eligible_loop out bs
      else if bs_QueueMax b > 0 \<and> bs_QueueDepth b \<ge> bs_QueueMax b then eligible_loop out bs
      else eligible_loop (out @ [b]) bs)"

definition eligible :: "BackendSnapshot \<Rightarrow> BackendState list" where
  "eligible snap = eligible_loop [] (sn_Backends snap)"

abbreviation bid :: "BackendState \<Rightarrow> string" where
  "bid b \<equiv> b_ID (bs_Backend b)"

definition decision :: "BackendState \<Rightarrow> string \<Rightarrow> string \<Rightarrow> RouteDecision" where
  "decision b name reason = \<lparr>rd_BackendID = bid b, rd_PolicyName = name, rd_PolicyVersion = ''1'',
     rd_Reason = reason\<rparr>"

section \<open>Load-based baselines\<close>

text \<open>\<open>RoundRobinPolicy\<close>: \<open>n\<close> is the counter; \<open>int(i) % len(e)\<close> has the sign of \<open>int(i)\<close>.\<close>

definition rr_SelectBackend ::
  "64 word \<Rightarrow> RequestFeatures \<Rightarrow> BackendSnapshot \<Rightarrow> (PolicyError + RouteDecision) \<times> 64 word" where
  "rr_SelectBackend n req snap =
     (let e = eligible snap
      in if length e = 0 then (Inl ErrNoEligibleBackend, n)
         else let n' = n + 1;
                  i = n' - 1;
                  ix = sgn (sint i) * (\<bar>sint i\<bar> mod int (length e))
              in if ix < 0 then (Inl PanicIndexOutOfRange, n')
                 else (Inr (decision (e ! nat ix) ''round_robin'' ''rr''), n'))"

text \<open>The loop of the two queue policies and of the pressure policy: the first of the smallest.\<close>

definition first_min :: "('a \<Rightarrow> 'k::linorder) \<Rightarrow> 'a \<Rightarrow> 'a list \<Rightarrow> 'a" where
  "first_min key x0 xs = foldl (\<lambda>best b. if key b < key best then b else best) x0 xs"

definition queue_load :: "BackendState \<Rightarrow> int" where
  "queue_load b = bs_QueueDepth b + bs_QueueInflight b"

definition lq_SelectBackend ::
  "RequestFeatures \<Rightarrow> BackendSnapshot \<Rightarrow> PolicyError + RouteDecision" where
  "lq_SelectBackend req snap =
     (case eligible snap of [] \<Rightarrow> Inl ErrNoEligibleBackend
      | b0 # bs \<Rightarrow> Inr (decision (first_min queue_load b0 bs) ''least_queued''
          ''min(queue_depth+inflight)''))"

definition lrw_SelectBackend ::
  "RequestFeatures \<Rightarrow> BackendSnapshot \<Rightarrow> PolicyError + RouteDecision" where
  "lrw_SelectBackend req snap =
     (case eligible snap of [] \<Rightarrow> Inl ErrNoEligibleBackend
      | b0 # bs \<Rightarrow> Inr (decision (first_min bs_RuntimeWaiting b0 bs) ''least_runtime_waiting''
          ''min(vllm_num_requests_waiting)''))"

definition pressure :: "BackendState \<Rightarrow> real" where
  "pressure b =
     (let p = real_of_int (bs_QueueDepth b + bs_QueueInflight b) + bs_RuntimeWaiting b +
              bs_RuntimeRunning b + 4 * bs_KVCacheUtil b
      in if bs_StabilityScore b > 0 then p / bs_StabilityScore b else p)"

definition hg_SelectBackend ::
  "RequestFeatures \<Rightarrow> BackendSnapshot \<Rightarrow> PolicyError + RouteDecision" where
  "hg_SelectBackend req snap =
     (case eligible snap of [] \<Rightarrow> Inl ErrNoEligibleBackend
      | b0 # bs \<Rightarrow> Inr (decision (first_min pressure b0 bs) ''health_gated_least_pressure''
          ''min(pressure=queue+runtime+kv / stability)''))"

section \<open>The cache-aware policy\<close>

record CacheAwareConfig =
  ca_PrefillMsPerToken :: real
  ca_DecodeMsPerToken :: real
  ca_QueueMsPerQueued :: real
  ca_RuntimeWaitingMsPerReq :: real
  ca_RuntimeRunningMsPerReq :: real
  ca_CacheStalenessPenaltyMs :: real
  ca_KVPressurePenaltyMs :: real
  ca_ConfidenceFloor :: real
  ca_DefaultDecodeTokens :: int
  ca_DefaultServiceRateTokPerSec :: real

definition DefaultCacheAwareConfig :: CacheAwareConfig where
  "DefaultCacheAwareConfig = \<lparr>ca_PrefillMsPerToken = 5 / 100, ca_DecodeMsPerToken = 30 / 100,
     ca_QueueMsPerQueued = 8, ca_RuntimeWaitingMsPerReq = 6, ca_RuntimeRunningMsPerReq = 15 / 10,
     ca_CacheStalenessPenaltyMs = 25, ca_KVPressurePenaltyMs = 40, ca_ConfidenceFloor = 30 / 100,
     ca_DefaultDecodeTokens = 128, ca_DefaultServiceRateTokPerSec = 0\<rparr>"

record CacheAwarePolicy =
  cap_cfg :: CacheAwareConfig
  cap_locator :: "locator option"

record candidateCost =
  cc_backendID :: string
  cc_uncachedPromptTokens :: int
  cc_matchedPrefixTokens :: int
  cc_matchRatio :: real
  cc_estPrefillMs :: real
  cc_estDecodeMs :: real
  cc_estQueueMs :: real
  cc_stalenessPenaltyMs :: real
  cc_kvPenaltyMs :: real
  cc_finishMs :: real
  cc_cacheUsed :: bool
  cc_cacheConfidence :: real

definition router_clamp01 :: "real \<Rightarrow> real" where
  "router_clamp01 x = (if x < 0 then 0 else if x > 1 then 1 else x)"

definition matchedTokensFor ::
  "CacheAwarePolicy \<Rightarrow> RequestFeatures \<Rightarrow> BackendState \<Rightarrow> int \<times> bool \<times> real" where
  "matchedTokensFor p req b =
     (if \<not> bs_CacheObservationSupported b then (0, False, 0)
      else if bs_CacheConfidence b < ca_ConfidenceFloor (cap_cfg p)
        then (0, False, bs_CacheConfidence b)
      else if \<not> rf_CacheEligible req \<or> rf_PrefixKeyHash req = []
        then (0, True, bs_CacheConfidence b)
      else let m0 = bs_PrefixMatchedTokens b;
               m1 = (case cap_locator p of None \<Rightarrow> m0
                     | Some loc \<Rightarrow> let m = loc (bid b) (rf_PrefixKeyHash req) in if m > 0 then m else m0);
               m2 = (if rf_PrefixTokens req > 0 \<and> m1 > rf_PrefixTokens req
                     then rf_PrefixTokens req else m1);
               m3 = (if rf_InputLenEst req > 0 \<and> m2 > rf_InputLenEst req
                     then rf_InputLenEst req else m2)
           in (m3, True, bs_CacheConfidence b))"

definition decodeMsPerToken :: "CacheAwarePolicy \<Rightarrow> BackendState \<Rightarrow> real" where
  "decodeMsPerToken p b =
     (if bs_ServiceRateSupported b \<and> bs_GenTokensPerSec b > 1 then 1000 / bs_GenTokensPerSec b
      else if ca_DefaultServiceRateTokPerSec (cap_cfg p) > 1
        then 1000 / ca_DefaultServiceRateTokPerSec (cap_cfg p)
      else ca_DecodeMsPerToken (cap_cfg p))"

definition cost :: "CacheAwarePolicy \<Rightarrow> RequestFeatures \<Rightarrow> BackendState \<Rightarrow> candidateCost" where
  "cost p req b =
     (let cfg = cap_cfg p;
          inputLen = (if rf_InputLenEst req < 0 then 0 else rf_InputLenEst req);
          (matched, used, conf) = matchedTokensFor p req b;
          uncached = (if inputLen - matched < 0 then 0 else inputLen - matched);
          out = (if rf_RequestedOutput req \<le> 0 then ca_DefaultDecodeTokens cfg
                 else rf_RequestedOutput req);
          prefill = real_of_int uncached * ca_PrefillMsPerToken cfg;
          dec = real_of_int out * decodeMsPerToken p b;
          queue = real_of_int (bs_QueueDepth b + bs_QueueInflight b) * ca_QueueMsPerQueued cfg +
                  bs_RuntimeWaiting b * ca_RuntimeWaitingMsPerReq cfg +
                  bs_RuntimeRunning b * ca_RuntimeRunningMsPerReq cfg;
          stale = (if bs_CacheObservationSupported b
                   then ca_CacheStalenessPenaltyMs cfg * (1 - router_clamp01 (bs_CacheConfidence b))
                   else 0);
          kv = (if bs_KVHeadroomSupported b
                then ca_KVPressurePenaltyMs cfg * (1 - router_clamp01 (bs_KVHeadroom b)) else 0)
      in \<lparr>cc_backendID = bid b, cc_uncachedPromptTokens = uncached,
          cc_matchedPrefixTokens = matched,
          cc_matchRatio = (if inputLen > 0 then real_of_int matched / real_of_int inputLen else 0),
          cc_estPrefillMs = prefill, cc_estDecodeMs = dec, cc_estQueueMs = queue,
          cc_stalenessPenaltyMs = stale, cc_kvPenaltyMs = kv,
          cc_finishMs = queue + prefill + dec + stale + kv,
          cc_cacheUsed = (used \<and> matched > 0), cc_cacheConfidence = conf\<rparr>)"

text \<open>The order in which \<open>sort.Slice\<close> arranges costs: by finish time, then by identifier.\<close>

datatype cost_rank = Rank real string

instantiation cost_rank :: linorder
begin

definition less_eq_cost_rank :: "cost_rank \<Rightarrow> cost_rank \<Rightarrow> bool" where
  "less_eq_cost_rank x y =
     (case x of Rank f i \<Rightarrow> case y of Rank g j \<Rightarrow> if f \<noteq> g then f < g else i \<le> j)"

definition less_cost_rank :: "cost_rank \<Rightarrow> cost_rank \<Rightarrow> bool" where
  "less_cost_rank x y =
     (case x of Rank f i \<Rightarrow> case y of Rank g j \<Rightarrow> if f \<noteq> g then f < g else i < j)"

instance
  by standard (auto simp: less_eq_cost_rank_def less_cost_rank_def split: cost_rank.splits if_splits)

end

definition cost_key :: "candidateCost \<Rightarrow> cost_rank" where
  "cost_key c = Rank (cc_finishMs c) (cc_backendID c)"

text \<open>\<open>sort.Slice\<close> is not stable; costs that it may order either way have the same finish time and
  identifier, and the decision is the same.\<close>

definition sorted_costs :: "CacheAwarePolicy \<Rightarrow> RequestFeatures \<Rightarrow> BackendSnapshot \<Rightarrow> candidateCost list" where
  "sorted_costs p req snap = sort_key cost_key (map (cost p req) (eligible snap))"

text \<open>\<open>reason\<close> is the formatting of the breakdown with \<open>fmt.Sprintf\<close>.\<close>

definition ca_SelectBackend ::
  "(candidateCost \<Rightarrow> string) \<Rightarrow> CacheAwarePolicy \<Rightarrow> RequestFeatures \<Rightarrow> BackendSnapshot \<Rightarrow>
   PolicyError + RouteDecision" where
  "ca_SelectBackend reason p req snap =
     (if length (eligible snap) = 0 then Inl ErrNoEligibleBackend
      else let best = sorted_costs p req snap ! 0
           in Inr \<lparr>rd_BackendID = cc_backendID best,
                   rd_PolicyName = ''cache_aware_estimated_finish'', rd_PolicyVersion = ''1'',
                   rd_Reason = reason best\<rparr>)"

record CandidateScore =
  sc_BackendID :: string
  sc_UncachedPromptTokens :: int
  sc_MatchedPrefixTokens :: int
  sc_MatchRatio :: real
  sc_EstQueueMs :: real
  sc_EstPrefillMs :: real
  sc_EstDecodeMs :: real
  sc_StalenessPenaltyMs :: real
  sc_KVPenaltyMs :: real
  sc_EstPrefillSavedMs :: real
  sc_FinalScoreMs :: real
  sc_CacheUsed :: bool
  sc_CacheConfidence :: real

definition score_of :: "CacheAwarePolicy \<Rightarrow> candidateCost \<Rightarrow> CandidateScore" where
  "score_of p c = \<lparr>sc_BackendID = cc_backendID c,
     sc_UncachedPromptTokens = cc_uncachedPromptTokens c,
     sc_MatchedPrefixTokens = cc_matchedPrefixTokens c, sc_MatchRatio = cc_matchRatio c,
     sc_EstQueueMs = cc_estQueueMs c, sc_EstPrefillMs = cc_estPrefillMs c,
     sc_EstDecodeMs = cc_estDecodeMs c, sc_StalenessPenaltyMs = cc_stalenessPenaltyMs c,
     sc_KVPenaltyMs = cc_kvPenaltyMs c,
     sc_EstPrefillSavedMs =
       real_of_int (cc_matchedPrefixTokens c) * ca_PrefillMsPerToken (cap_cfg p),
     sc_FinalScoreMs = cc_finishMs c, sc_CacheUsed = cc_cacheUsed c,
     sc_CacheConfidence = cc_cacheConfidence c\<rparr>"

definition ScoreBreakdown ::
  "CacheAwarePolicy \<Rightarrow> RequestFeatures \<Rightarrow> BackendSnapshot \<Rightarrow> CandidateScore list" where
  "ScoreBreakdown p req snap =
     sort_key (\<lambda>s. Rank (sc_FinalScoreMs s) (sc_BackendID s))
       (map (\<lambda>b. score_of p (cost p req b)) (eligible snap))"

section \<open>Affinity only\<close>

definition affinity_match :: "locator option \<Rightarrow> RequestFeatures \<Rightarrow> BackendState \<Rightarrow> int" where
  "affinity_match loc req b =
     (let m = bs_PrefixMatchedTokens b
      in case loc of None \<Rightarrow> m
         | Some f \<Rightarrow>
             if rf_PrefixKeyHash req \<noteq> [] \<and> bs_CacheObservationSupported b
             then (let v = f (bid b) (rf_PrefixKeyHash req) in if v > m then v else m) else m)"

text \<open>The state of the loop is \<open>(bestIdx, bestMatch)\<close>.\<close>

definition affinity_step ::
  "locator option \<Rightarrow> RequestFeatures \<Rightarrow> BackendState list \<Rightarrow> nat \<times> int \<Rightarrow> nat \<Rightarrow> nat \<times> int" where
  "affinity_step loc req e acc i =
     (let m = affinity_match loc req (e ! i)
      in if m > snd acc \<or> (m = snd acc \<and> bid (e ! i) < bid (e ! fst acc)) then (i, m) else acc)"

definition aff_SelectBackend ::
  "locator option \<Rightarrow> RequestFeatures \<Rightarrow> BackendSnapshot \<Rightarrow> PolicyError + RouteDecision" where
  "aff_SelectBackend loc req snap =
     (let e = eligible snap
      in if length e = 0 then Inl ErrNoEligibleBackend
         else let (bestIdx, bestMatch) = foldl (affinity_step loc req e) (0, - 1) [0..<length e]
              in Inr (decision (e ! bestIdx) ''cache_affinity_only''
                   (''max_matched_prefix='' @ Itoa bestMatch)))"

section \<open>Policies by name\<close>

datatype Policy = RoundRobinPolicy "64 word" | LeastQueuedPolicy | LeastRuntimeWaitingPolicy
  | HealthGatedLeastPressurePolicy | CacheAware CacheAwarePolicy | CacheAffinityOnly "locator option"

definition PolicyByNameWithLocator :: "string \<Rightarrow> locator option \<Rightarrow> Policy" where
  "PolicyByNameWithLocator name loc =
     (if name = ''round_robin'' then RoundRobinPolicy 0
      else if name = ''least_queued'' then LeastQueuedPolicy
      else if name = ''least_runtime_waiting'' then LeastRuntimeWaitingPolicy
      else if name = ''health_gated_least_pressure'' then HealthGatedLeastPressurePolicy
      else if name = ''cache_aware_estimated_finish''
        then CacheAware \<lparr>cap_cfg = DefaultCacheAwareConfig, cap_locator = loc\<rparr>
      else if name = ''cache_affinity_only'' then CacheAffinityOnly loc
      else LeastQueuedPolicy)"

definition PolicyByName :: "string \<Rightarrow> Policy" where
  "PolicyByName name = PolicyByNameWithLocator name None"

fun SelectBackend ::
  "(candidateCost \<Rightarrow> string) \<Rightarrow> Policy \<Rightarrow> RequestFeatures \<Rightarrow> BackendSnapshot \<Rightarrow>
   (PolicyError + RouteDecision) \<times> Policy" where
  "SelectBackend reason (RoundRobinPolicy n) req snap =
     (let (r, n') = rr_SelectBackend n req snap in (r, RoundRobinPolicy n'))"
| "SelectBackend reason LeastQueuedPolicy req snap = (lq_SelectBackend req snap, LeastQueuedPolicy)"
| "SelectBackend reason LeastRuntimeWaitingPolicy req snap =
     (lrw_SelectBackend req snap, LeastRuntimeWaitingPolicy)"
| "SelectBackend reason HealthGatedLeastPressurePolicy req snap =
     (hg_SelectBackend req snap, HealthGatedLeastPressurePolicy)"
| "SelectBackend reason (CacheAware p) req snap = (ca_SelectBackend reason p req snap, CacheAware p)"
| "SelectBackend reason (CacheAffinityOnly loc) req snap =
     (aff_SelectBackend loc req snap, CacheAffinityOnly loc)"

section \<open>Eligibility\<close>

lemma eligible_loop_filter: "eligible_loop out bs = out @ filter isEligible bs"
  by (induction out bs rule: eligible_loop.induct) (auto simp: isEligible_def)

lemma eligible_filter: "eligible snap = filter isEligible (sn_Backends snap)"
  by (simp add: eligible_def eligible_loop_filter)

lemma eligible_nil: "eligible snap = [] \<longleftrightarrow> (\<forall>b \<in> set (sn_Backends snap). \<not> isEligible b)"
  by (simp add: eligible_filter filter_empty_conv)

lemma eligible_mem: "b \<in> set (eligible snap) \<longleftrightarrow> b \<in> set (sn_Backends snap) \<and> isEligible b"
  by (simp add: eligible_filter)

section \<open>The contract of a policy\<close>

locale routing_policy =
  fixes select :: "RequestFeatures \<Rightarrow> BackendSnapshot \<Rightarrow> PolicyError + RouteDecision"
  assumes select_in: "select req snap = Inr d \<Longrightarrow> rd_BackendID d \<in> bid ` set (eligible snap)"
    and select_err: "select req snap = Inl e \<Longrightarrow> e = ErrNoEligibleBackend \<and> eligible snap = []"
    and select_none: "eligible snap = [] \<Longrightarrow> select req snap = Inl ErrNoEligibleBackend"
begin

lemma select_decides: "eligible snap \<noteq> [] \<Longrightarrow> \<exists>d. select req snap = Inr d"
  using select_err by (cases "select req snap") auto

lemma select_cases:
  "case select req snap of
     Inr d \<Rightarrow> \<exists>b \<in> set (sn_Backends snap). isEligible b \<and> bid b = rd_BackendID d
   | Inl e \<Rightarrow> e = ErrNoEligibleBackend \<and> (\<forall>b \<in> set (sn_Backends snap). \<not> isEligible b)"
  using select_in select_err
  by (cases "select req snap") (fastforce simp: eligible_mem eligible_nil)+

end

lemma first_min_props:
  "first_min key x xs \<in> set (x # xs)" "y \<in> set (x # xs) \<Longrightarrow> key (first_min key x xs) \<le> key y"
proof -
  have "first_min key x xs \<in> set (x # xs) \<and> (\<forall>y \<in> set (x # xs). key (first_min key x xs) \<le> key y)"
  proof (induction xs arbitrary: x)
    case (Cons a xs)
    show ?case using Cons [of a] Cons [of x] by (auto simp: first_min_def)
  qed (simp add: first_min_def)
  then show "first_min key x xs \<in> set (x # xs)"
    "y \<in> set (x # xs) \<Longrightarrow> key (first_min key x xs) \<le> key y" by auto
qed

lemma first_min_policy:
  assumes "\<And>req snap. sel req snap = (case eligible snap of [] \<Rightarrow> Inl ErrNoEligibleBackend
      | b0 # bs \<Rightarrow> Inr (decision (first_min key b0 bs) name reason))"
  shows "routing_policy sel"
proof
  fix req snap d e
  show "rd_BackendID d \<in> bid ` set (eligible snap)" if "sel req snap = Inr d"
    using that first_min_props(1) [of key] 
    by (cases "eligible snap") (auto simp: assms decision_def simp del: set_simps intro!: imageI)
  show "e = ErrNoEligibleBackend \<and> eligible snap = []" if "sel req snap = Inl e"
    using that by (cases "eligible snap") (auto simp: assms)
  show "sel req snap = Inl ErrNoEligibleBackend" if "eligible snap = []"
    using that by (simp add: assms)
qed

interpretation lqp: routing_policy lq_SelectBackend
  by (rule first_min_policy) (rule lq_SelectBackend_def)

interpretation lrwp: routing_policy lrw_SelectBackend
  by (rule first_min_policy) (rule lrw_SelectBackend_def)

interpretation hgp: routing_policy hg_SelectBackend
  by (rule first_min_policy) (rule hg_SelectBackend_def)

text \<open>The cache-aware policy takes a cheapest candidate.\<close>

lemma sorted_costs_head:
  assumes "eligible snap \<noteq> []"
  shows "sorted_costs p req snap ! 0 \<in> cost p req ` set (eligible snap)"
    and "b \<in> set (eligible snap) \<Longrightarrow>
      cost_key (sorted_costs p req snap ! 0) \<le> cost_key (cost p req b)"
proof -
  let ?cs = "sorted_costs p req snap"
  have cs: "set ?cs = cost p req ` set (eligible snap)" "?cs \<noteq> []"
    using assms by (auto simp: sorted_costs_def sort_key_simps(1) dest: arg_cong [where f = set])
  then show "?cs ! 0 \<in> cost p req ` set (eligible snap)" by (metis length_greater_0_conv nth_mem)
  assume "b \<in> set (eligible snap)"
  then obtain k where k: "k < length ?cs" "?cs ! k = cost p req b"
    using cs(1) by (metis imageI in_set_conv_nth)
  then have len: "0 < length ?cs" by linarith
  have "sorted (map cost_key ?cs)" by (simp add: sorted_costs_def)
  from sorted_nth_mono [OF this, of 0 k] k len show "cost_key (?cs ! 0) \<le> cost_key (cost p req b)"
    by simp
qed

lemma cost_id [simp]: "cc_backendID (cost p req b) = bid b"
  by (simp add: cost_def Let_def split: prod.split)

interpretation cap: routing_policy "ca_SelectBackend reason p"
proof
  fix req snap d e
  show "rd_BackendID d \<in> bid ` set (eligible snap)" if "ca_SelectBackend reason p req snap = Inr d"
    using that sorted_costs_head(1) [of snap p req]
    by (auto simp: ca_SelectBackend_def Let_def split: if_splits)
  show "e = ErrNoEligibleBackend \<and> eligible snap = []" if "ca_SelectBackend reason p req snap = Inl e"
    using that by (auto simp: ca_SelectBackend_def Let_def split: if_splits)
  show "ca_SelectBackend reason p req snap = Inl ErrNoEligibleBackend" if "eligible snap = []"
    using that by (simp add: ca_SelectBackend_def)
qed

text \<open>The affinity loop keeps the index of the first part's best candidate.\<close>

lemma affinity_loop:
  assumes "k \<le> length e" and "0 < k" and "\<forall>b \<in> set e. 0 \<le> bs_PrefixMatchedTokens b"
  shows "fst (foldl (affinity_step loc req e) (0, - 1) [0..<k]) < k \<and>
    snd (foldl (affinity_step loc req e) (0, - 1) [0..<k]) =
      affinity_match loc req (e ! fst (foldl (affinity_step loc req e) (0, - 1) [0..<k])) \<and>
    (\<forall>i < k. affinity_match loc req (e ! i) \<le> snd (foldl (affinity_step loc req e) (0, - 1) [0..<k]))"
  using assms(1,2)
proof (induction k)
  case (Suc k)
  let ?acc = "foldl (affinity_step loc req e) (0, - 1) [0..<k]"
  have "0 \<le> bs_PrefixMatchedTokens (e ! k)" using assms(3) Suc.prems by simp
  then have "0 \<le> affinity_match loc req (e ! k)"
    by (auto simp: affinity_match_def Let_def split: option.split)
  then show ?case
    using Suc by (cases "k = 0") (auto simp: affinity_step_def Let_def less_Suc_eq)
qed simp

lemma affinity_range:
  "0 < length e \<Longrightarrow> fst (foldl (affinity_step loc req e) (0, m) [0..<length e]) < length e"
proof -
  have "fst acc < length e \<Longrightarrow> set is \<subseteq> {..<length e} \<Longrightarrow>
      fst (foldl (affinity_step loc req e) acc is) < length e" for acc "is"
    by (induction "is" arbitrary: acc) (auto simp: affinity_step_def Let_def)
  then show "0 < length e \<Longrightarrow> ?thesis" by (auto simp: atLeast0LessThan)
qed

interpretation affp: routing_policy "aff_SelectBackend loc"
proof
  fix req snap d e
  show "rd_BackendID d \<in> bid ` set (eligible snap)" if "aff_SelectBackend loc req snap = Inr d"
    using that affinity_range [of "eligible snap" loc req "- 1"]
    by (auto simp: aff_SelectBackend_def Let_def decision_def split: if_splits prod.splits)
  show "e = ErrNoEligibleBackend \<and> eligible snap = []" if "aff_SelectBackend loc req snap = Inl e"
    using that by (auto simp: aff_SelectBackend_def Let_def split: if_splits prod.splits)
  show "aff_SelectBackend loc req snap = Inl ErrNoEligibleBackend" if "eligible snap = []"
    using that by (simp add: aff_SelectBackend_def)
qed

text \<open>Round robin, as long as its counter is below \<open>2^63\<close>.\<close>

lemma sint_nonneg_unat:
  fixes n :: "64 word"
  assumes "0 \<le> sint n"
  shows "sint n = int (unat n)"
proof -
  have "sint n < 2 ^ 63" using sint_range_size [of n] by (simp add: word_size)
  with assms have "uint n = sint n" by (simp add: uint_sint take_bit_int_eq_self)
  then show ?thesis by simp
qed

lemma sint_ucast_63: "0 \<le> sint (ucast (n :: 63 word) :: 64 word)"
proof -
  have "uint n < 2 ^ 63" using uint_lt2p [of n] by simp
  moreover from this have "uint (ucast n :: 64 word) = uint n"
    by (simp add: unsigned_ucast_eq take_bit_int_eq_self)
  ultimately have "sint (ucast n :: 64 word) = uint n"
    using signed_take_bit_int_eq_self [of 63 "uint n"] uint_ge_0 [of n]
    by (simp add: sint_uint del: signed_take_bit_nonnegative_iff)
  then show ?thesis using uint_ge_0 [of n] by simp
qed

lemma unat_small_sint:
  fixes n :: "64 word"
  assumes "unat n < 2 ^ 63"
  shows "0 \<le> sint n"
proof -
  have "int (unat n) < int (2 ^ 63)" using assms by (simp only: of_nat_less_iff)
  then have "uint n < 2 ^ 63" by simp
  then have "sint n = uint n"
    using signed_take_bit_int_eq_self [of 63 "uint n"] uint_ge_0 [of n]
    by (simp add: sint_uint del: signed_take_bit_nonnegative_iff)
  then show ?thesis using uint_ge_0 [of n] by simp
qed

lemma rr_index:
  assumes "0 \<le> sint n" and "eligible snap \<noteq> []"
  shows "rr_SelectBackend n req snap =
    (Inr (decision (eligible snap ! (unat n mod length (eligible snap))) ''round_robin'' ''rr''), n + 1)"
proof -
  note s = sint_nonneg_unat [OF assms(1)]
  have "sgn (sint n) * (\<bar>sint n\<bar> mod int (length (eligible snap))) =
      int (unat n mod length (eligible snap))"
    unfolding s by (cases "unat n = 0") (auto simp: zmod_int simp del: uint_nat)
  then show ?thesis using assms(2) by (simp add: rr_SelectBackend_def Let_def)
qed

lemma rr_policy:
  assumes n: "0 \<le> sint n"
  shows "routing_policy (\<lambda>req snap. fst (rr_SelectBackend n req snap))"
proof
  fix req snap d e
  show "rd_BackendID d \<in> bid ` set (eligible snap)"
    if "fst (rr_SelectBackend n req snap) = Inr d"
    using that rr_index [OF n, of snap req]
    by (cases "eligible snap = []") (auto simp: decision_def rr_SelectBackend_def Let_def)
  show "e = ErrNoEligibleBackend \<and> eligible snap = []"
    if "fst (rr_SelectBackend n req snap) = Inl e"
    using that rr_index [OF n, of snap req]
    by (cases "eligible snap = []") (auto simp: rr_SelectBackend_def Let_def)
  show "fst (rr_SelectBackend n req snap) = Inl ErrNoEligibleBackend" if "eligible snap = []"
    using that by (simp add: rr_SelectBackend_def)
qed

interpretation rrp: routing_policy "\<lambda>req snap. fst (rr_SelectBackend (ucast (n :: 63 word)) req snap)"
  by (rule rr_policy) (rule sint_ucast_63)

section \<open>Order independence and gating\<close>

lemma sorted_costs_keys:
  "map cost_key (sorted_costs p req snap) = sort (map (\<lambda>b. cost_key (cost p req b)) (eligible snap))"
proof (rule properties_for_sort [symmetric])
  show "sorted (map cost_key (sorted_costs p req snap))" by (simp add: sorted_costs_def)
  show "mset (map cost_key (sorted_costs p req snap)) =
      mset (map (\<lambda>b. cost_key (cost p req b)) (eligible snap))"
    by (simp add: sorted_costs_def image_mset.compositionality comp_def)
qed

lemma sorted_costs_perm:
  assumes "mset (sn_Backends s1) = mset (sn_Backends s2)"
  shows "map cost_key (sorted_costs p req s1) = map cost_key (sorted_costs p req s2)"
proof -
  have "mset (eligible s1) = mset (eligible s2)" using assms by (simp add: eligible_filter mset_filter)
  then have "mset (map (\<lambda>b. cost_key (cost p req b)) (eligible s1)) =
      mset (map (\<lambda>b. cost_key (cost p req b)) (eligible s2))" by simp
  then have "sort (map (\<lambda>b. cost_key (cost p req b)) (eligible s1)) =
      sort (map (\<lambda>b. cost_key (cost p req b)) (eligible s2))"
    by (intro properties_for_sort) simp_all
  then show ?thesis unfolding sorted_costs_keys .
qed

lemma matched_bounds:
  assumes "matchedTokensFor p req b = (m, used, c)" and "0 \<le> bs_PrefixMatchedTokens b"
  shows "0 \<le> m" and "0 < rf_InputLenEst req \<Longrightarrow> m \<le> rf_InputLenEst req"
    and "0 < rf_PrefixTokens req \<Longrightarrow> m \<le> rf_PrefixTokens req"
  using assms by (auto simp: matchedTokensFor_def Let_def split: if_splits option.splits)

lemma decode_locator [simp]: "decodeMsPerToken (p\<lparr>cap_locator := loc\<rparr>) b = decodeMsPerToken p b"
  by (simp add: decodeMsPerToken_def)

lemma matched_gated:
  assumes "\<not> bs_CacheObservationSupported b \<or> bs_CacheConfidence b < ca_ConfidenceFloor (cap_cfg p)"
  shows "fst (matchedTokensFor p req b) = 0" "\<not> fst (snd (matchedTokensFor p req b))"
    "matchedTokensFor (p\<lparr>cap_locator := loc\<rparr>) req b = matchedTokensFor p req b"
  using assms by (auto simp: matchedTokensFor_def)

text \<open>A policy whose state is in range: the round-robin counter has not reached \<open>2^63\<close>.\<close>

definition policy_ok :: "Policy \<Rightarrow> bool" where
  "policy_ok p = (case p of RoundRobinPolicy n \<Rightarrow> 0 \<le> sint n | _ \<Rightarrow> True)"

lemma routing_contract_cases:
  assumes "policy_ok p"
  shows "case fst (SelectBackend reason p req snap) of
      Inr d \<Rightarrow> \<exists>b \<in> set (sn_Backends snap). isEligible b \<and> bid b = rd_BackendID d
    | Inl e \<Rightarrow> e = ErrNoEligibleBackend \<and> (\<forall>b \<in> set (sn_Backends snap). \<not> isEligible b)"
proof (cases p)
  case (RoundRobinPolicy n)
  from assms have "0 \<le> sint n" by (simp add: RoundRobinPolicy policy_ok_def)
  from routing_policy.select_cases [OF rr_policy [OF this], of snap req] show ?thesis
    by (simp add: RoundRobinPolicy case_prod_unfold Let_def)
qed (simp_all add: lqp.select_cases lrwp.select_cases hgp.select_cases cap.select_cases affp.select_cases)

section \<open>Properties\<close>


primrec rr_round :: "nat \<Rightarrow> 64 word \<Rightarrow> RequestFeatures \<Rightarrow> BackendSnapshot \<Rightarrow>
    (PolicyError + RouteDecision) list" where
  "rr_round 0 n req snap = []"
| "rr_round (Suc k) n req snap =
     (let (r, n') = rr_SelectBackend n req snap in r # rr_round k n' req snap)"

text \<open>C30: Round robin is fair. On an unchanged snapshot, as many consecutive selections as there are
  eligible backends visit each of them exactly once, in the order of the snapshot, starting where
  the counter stands.\<close>

theorem round_robin_fair:
  assumes "eligible snap \<noteq> []" and "unat n + length (eligible snap) \<le> 2 ^ 63"
  shows "rr_round (length (eligible snap)) n req snap =
    map (\<lambda>b. Inr (decision b ''round_robin'' ''rr'')) (rotate (unat n) (eligible snap))"
proof -
  let ?e = "eligible snap"
  have "rr_round k n req snap =
      map (\<lambda>j. Inr (decision (?e ! ((unat n + j) mod length ?e)) ''round_robin'' ''rr'')) [0..<k]"
    if "unat n + k \<le> 2 ^ 63" for k n
    using that
  proof (induction k arbitrary: n)
    case (Suc k)
    have lt: "unat n < 2 ^ 63" using Suc.prems by simp
    then have n1: "unat (n + 1) = unat n + 1" by (simp add: unat_word_ariths)
    from rr_index [OF unat_small_sint [OF lt] assms(1)] Suc n1 show ?case
      by (simp add: upt_conv_Cons comp_def del: upt_Suc flip: map_Suc_upt)
  qed simp
  from this [OF assms(2)] show ?thesis
    by (auto intro!: nth_equalityI simp: nth_rotate)
qed

text \<open>C29: The cache-aware policy is optimal and does not depend on the order of the snapshot. The chosen
  identifier is that of an eligible backend with the smallest estimated finish time, the smallest
  identifier among those that tie; and two snapshots with the same backends in any order give the
  same identifier.\<close>

theorem cache_aware_optimal:
  assumes "ca_SelectBackend reason p req snap = Inr d"
  shows "(\<exists>b \<in> set (eligible snap). bid b = rd_BackendID d \<and>
       (\<forall>b' \<in> set (eligible snap). cc_finishMs (cost p req b) < cc_finishMs (cost p req b') \<or>
          cc_finishMs (cost p req b) = cc_finishMs (cost p req b') \<and> bid b \<le> bid b')) \<and>
     (mset (sn_Backends snap') = mset (sn_Backends snap) \<longrightarrow>
       (\<exists>d'. ca_SelectBackend reason p req snap' = Inr d' \<and> rd_BackendID d' = rd_BackendID d))"
proof
  have ne: "eligible snap \<noteq> []" using assms by (auto simp: ca_SelectBackend_def)
  note h = sorted_costs_head [OF ne, where p = p and req = req]
  obtain b where b: "b \<in> set (eligible snap)" "sorted_costs p req snap ! 0 = cost p req b"
    using h(1) by auto
  moreover have "rd_BackendID d = bid b"
    using assms b by (auto simp: ca_SelectBackend_def Let_def split: if_splits)
  ultimately show "\<exists>b \<in> set (eligible snap). bid b = rd_BackendID d \<and>
      (\<forall>b' \<in> set (eligible snap). cc_finishMs (cost p req b) < cc_finishMs (cost p req b') \<or>
          cc_finishMs (cost p req b) = cc_finishMs (cost p req b') \<and> bid b \<le> bid b')"
    using h(2) by (fastforce simp: cost_key_def less_eq_cost_rank_def split: if_splits)
  show "mset (sn_Backends snap') = mset (sn_Backends snap) \<longrightarrow>
      (\<exists>d'. ca_SelectBackend reason p req snap' = Inr d' \<and> rd_BackendID d' = rd_BackendID d)"
  proof
    assume m: "mset (sn_Backends snap') = mset (sn_Backends snap)"
    note k = sorted_costs_perm [OF m, of p req]
    have len: "length (sorted_costs p req snap') = length (sorted_costs p req snap)"
      using arg_cong [OF k, of length] by simp
    have pos: "length (sorted_costs p req snap) > 0" using ne by (simp add: sorted_costs_def)
    have "cost_key (sorted_costs p req snap' ! 0) = cost_key (sorted_costs p req snap ! 0)"
      using arg_cong [OF k, of "\<lambda>xs. xs ! 0"] pos len by simp
    moreover have "eligible snap' \<noteq> []" using len pos by (auto simp: sorted_costs_def)
    ultimately show "\<exists>d'. ca_SelectBackend reason p req snap' = Inr d' \<and>
        rd_BackendID d' = rd_BackendID d"
      using assms by (auto simp: ca_SelectBackend_def Let_def cost_key_def split: if_splits)
  qed
qed

text \<open>Untrusted locality has no influence, trusted locality can only help. When cache observation
  is not supported or its confidence is below the floor, the cost of a backend is the same whatever
  the directory says, and counts no match. Otherwise, with non-negative coefficients, a directory
  lowers the estimated finish time or leaves it, and the uncached tokens stay between zero and the
  input.\<close>

lemma locality_gated:
  fixes p :: CacheAwarePolicy and loc :: locator and req :: RequestFeatures and b :: BackendState
  assumes "bs_PrefixMatchedTokens b = 0" and "0 \<le> ca_PrefillMsPerToken (cap_cfg p)"
  defines "c \<equiv> cost (p\<lparr>cap_locator := Some loc\<rparr>) req b"
    and "blind \<equiv> cost (p\<lparr>cap_locator := None\<rparr>) req b"
  shows "(\<not> bs_CacheObservationSupported b \<or> bs_CacheConfidence b < ca_ConfidenceFloor (cap_cfg p) \<longrightarrow>
       c = blind \<and> cc_matchedPrefixTokens c = 0 \<and> \<not> cc_cacheUsed c) \<and>
     cc_finishMs c \<le> cc_finishMs blind \<and>
     0 \<le> cc_uncachedPromptTokens c \<and> cc_uncachedPromptTokens c \<le> max 0 (rf_InputLenEst req)"
proof (intro conjI impI)
  obtain m u k where M: "matchedTokensFor (p\<lparr>cap_locator := Some loc\<rparr>) req b = (m, u, k)"
    by (cases "matchedTokensFor (p\<lparr>cap_locator := Some loc\<rparr>) req b") auto
  have "fst (matchedTokensFor (p\<lparr>cap_locator := None\<rparr>) req b) = 0"
    using assms(1) by (simp add: matchedTokensFor_def Let_def)
  then obtain u' k' where B: "matchedTokensFor (p\<lparr>cap_locator := None\<rparr>) req b = (0, u', k')"
    by (cases "matchedTokensFor (p\<lparr>cap_locator := None\<rparr>) req b") auto
  have m0: "0 \<le> m" using matched_bounds(1) [OF M] assms(1) by simp
  show "c = blind" if "\<not> bs_CacheObservationSupported b \<or> bs_CacheConfidence b < ca_ConfidenceFloor (cap_cfg p)"
    using matched_gated(3) [where b = b and p = p and req = req] that by (simp add: c_def blind_def cost_def)
  show "cc_matchedPrefixTokens c = 0" "\<not> cc_cacheUsed c"
    if "\<not> bs_CacheObservationSupported b \<or> bs_CacheConfidence b < ca_ConfidenceFloor (cap_cfg p)"
    using matched_gated(1,2) [where b = b and p = "p\<lparr>cap_locator := Some loc\<rparr>" and req = req] that
    by (simp_all add: c_def cost_def Let_def M)
  have "real_of_int u1 * ca_PrefillMsPerToken (cap_cfg p) \<le> real_of_int u2 * ca_PrefillMsPerToken (cap_cfg p)"
    if "u1 \<le> u2" for u1 u2 using that assms(2) by (intro mult_right_mono) simp_all
  then show "cc_finishMs c \<le> cc_finishMs blind"
    using m0 by (simp add: c_def blind_def cost_def M B Let_def)
  show "0 \<le> cc_uncachedPromptTokens c" "cc_uncachedPromptTokens c \<le> max 0 (rf_InputLenEst req)"
    using m0 by (simp_all add: c_def cost_def M Let_def)
qed

section \<open>Examples\<close>

definition sample_state :: "string \<Rightarrow> int \<Rightarrow> BackendState" where
  "sample_state i depth = (zero_BackendState \<lparr>b_ID = i, b_Vendor = [], b_SidecarURL = [],
     b_SnapshotURL = []\<rparr>)\<lparr>bs_Reachable := True, bs_RuntimeHealthy := True,
     bs_LifecycleState := ''READY'', bs_QueueDepth := depth\<rparr>"

definition sample_snap :: BackendSnapshot where
  "sample_snap = \<lparr>sn_Backends = [sample_state ''a'' 2, sample_state ''b'' 1], sn_Timestamp = 0\<rparr>"

definition sample_req :: RequestFeatures where
  "sample_req = \<lparr>rf_RequestID = ''r'', rf_Model = [], rf_Stream = False, rf_InputLenEst = 100,
     rf_RequestedOutput = 10, rf_SLOClass = [], rf_PrefixKeyHash = ''k'', rf_PrefixTokens = 50,
     rf_CacheEligible = True, rf_SessionKeyHash = []\<rparr>"

definition sample_policy :: CacheAwarePolicy where
  "sample_policy = \<lparr>cap_cfg = DefaultCacheAwareConfig, cap_locator = None\<rparr>"

lemma sample_eligible: "eligible sample_snap = sn_Backends sample_snap"
  by (simp add: eligible_def sample_snap_def sample_state_def zero_BackendState_def)


lemma sample_length: "length (eligible sample_snap) = 2" "eligible sample_snap \<noteq> []"
  by (simp_all add: sample_eligible) (simp_all add: sample_snap_def)

theorem round_robin_fair_witness:
  "rr_round 2 1 sample_req sample_snap =
   map (\<lambda>b. Inr (decision b ''round_robin'' ''rr'')) (rotate 1 (sn_Backends sample_snap))"
  using round_robin_fair [of sample_snap 1 sample_req] sample_length by (simp add: sample_eligible)

lemma sample_choice:
  "\<exists>d. ca_SelectBackend (\<lambda>_. []) sample_policy sample_req sample_snap = Inr d"
  by (rule cap.select_decides) (simp add: sample_eligible, simp add: sample_snap_def)

theorem cache_aware_optimal_witness:
  "\<exists>d. ca_SelectBackend (\<lambda>_. []) sample_policy sample_req sample_snap = Inr d \<and>
     rd_BackendID d \<in> bid ` set (eligible sample_snap)"
proof -
  obtain d where d: "ca_SelectBackend (\<lambda>_. []) sample_policy sample_req sample_snap = Inr d"
    using sample_choice by blast
  from cache_aware_optimal [OF d, of sample_snap] d show ?thesis by (metis imageI)
qed

end
