(* ===== verification/Router_Gateway.thy ===== *)
theory Router_Gateway
  imports Routing_Policy Trajectory_Emitter Http_Writer
begin

text \<open>
  The router's gateway (\<open>internal/router/gateway.go\<close>): the client-facing handler with its bounded
  retries before the first byte, the relay to one sidecar, and the events it emits.

  A run of the handler is a function of the request, the policy, and an environment that holds what
  comes from outside: the snapshots and sidecar replies that the attempts meet, the clock, the
  decoding of JSON bodies by the standard library, SHA-256. The locator of the policy answers from
  the directory as it is when the request arrives. A relayed stream is the list of what the reads
  of the sidecar's body return; when the list ends, the next read returns the end of the stream.
\<close>

section \<open>Requests and environment\<close>

record gw_env =
  ge_wall :: "nat \<Rightarrow> walltime"
  ge_read :: "nat \<Rightarrow> walltime"
  ge_start :: walltime
  ge_decStart :: "nat \<Rightarrow> walltime"
  ge_encode :: "string \<Rightarrow> string \<Rightarrow> string \<Rightarrow> string"
  ge_flusher :: bool
  ge_emitter :: bool
  ge_snaps :: "nat \<Rightarrow> BackendSnapshot"
  ge_replies :: "nat \<Rightarrow> upstream_reply"
  ge_reason :: "candidateCost \<Rightarrow> string"
  ge_dec :: body_decoder
  ge_nano :: int
  ge_sha256hex :: "string \<Rightarrow> string"
  ge_reg :: Registry

record Gateway =
  gw_policy :: Policy
  gw_maxRetries :: int

definition NewGateway :: "Policy \<Rightarrow> int \<Rightarrow> Gateway" where
  "NewGateway policy maxRetries = \<lparr>gw_policy = policy, gw_maxRetries = maxRetries\<rparr>"

text \<open>A request that was sent to a sidecar; \<open>fq_sofar\<close> records the body that the client had received
  by then.\<close>

record fwd_request =
  fq_backendID :: string
  fq_url :: string
  fq_header :: header
  fq_body :: string
  fq_sofar :: string

record gstate =
  gs_writer :: Writer
  gs_log :: "TEvent list"
  gs_fwd :: "fwd_request list"
  gs_panic :: bool

section \<open>Helpers\<close>

definition detectStream :: "body_decoder \<Rightarrow> string \<Rightarrow> bool" where
  "detectStream dec body = (case bd_stream dec body of Some b \<Rightarrow> b | None \<Rightarrow> False)"

definition extractModel :: "body_decoder \<Rightarrow> string \<Rightarrow> string" where
  "extractModel dec body = bd_model dec body"

definition extractMaxTokens :: "body_decoder \<Rightarrow> string \<Rightarrow> int" where
  "extractMaxTokens dec body = bd_maxTokens dec body"

definition estimateTokens :: "body_decoder \<Rightarrow> string \<Rightarrow> int" where
  "estimateTokens dec body =
     (case bd_contents dec body of None \<Rightarrow> 0
      | Some cs \<Rightarrow> go_quot (int (foldl (\<lambda>c m. c + length m) 0 cs)) 4)"

definition orGen :: "int \<Rightarrow> string \<Rightarrow> string \<Rightarrow> string" where
  "orGen nano v pre =
     (if length v > 0 \<and> length v \<le> 128 \<and> list_all id_char v then v
      else pre @ ''_'' @ Itoa nano)"

definition ms :: "duration \<Rightarrow> real" where
  "ms d = real_of_int (dur_Microseconds d) / 1000"

definition hopByHop :: "string list" where
  "hopByHop = [''Connection'', ''Keep-Alive'', ''Transfer-Encoding'', ''Upgrade'',
     ''Proxy-Authenticate'', ''Proxy-Authorization'', ''Te'', ''Trailers'']"

definition hashRouterKey :: "(string \<Rightarrow> string) \<Rightarrow> string \<Rightarrow> string" where
  "hashRouterKey sha256hex raw = (if raw = [] then [] else sha256hex raw)"

definition extractPrefixFeatures :: "(string \<Rightarrow> string) \<Rightarrow> header \<Rightarrow> string \<times> int \<times> string" where
  "extractPrefixFeatures sha256hex h =
     (let k = hdr_get ''X-Cache-Prefix-Key'' h;
          t = hdr_get ''X-Cache-Prefix-Tokens'' h;
          s = hdr_get ''X-Session-Key'' h
      in (if k \<noteq> [] then hashRouterKey sha256hex k else [],
          if t \<noteq> [] then (case Atoi t of
             Some n \<Rightarrow> if n > 0 then (if n > 2 ^ 20 then 2 ^ 20 else n) else 0
           | None \<Rightarrow> 0) else 0,
          if s \<noteq> [] then hashRouterKey sha256hex s else []))"

definition httpErr :: "gw_env \<Rightarrow> int \<Rightarrow> string \<Rightarrow> string \<Rightarrow> string \<Rightarrow> Writer \<Rightarrow> Writer" where
  "httpErr env status code reqID detail w =
     wr_write (ge_encode env code detail reqID)
       (WriteHeader status (wr_set ''X-Request-Id'' reqID (wr_set ''Content-Type'' ''application/json'' w)))"

definition emit :: "gw_env \<Rightarrow> string \<Rightarrow> string \<Rightarrow> string \<Rightarrow> string \<Rightarrow>
    (string \<times> EvidenceValue) list \<Rightarrow> gstate \<Rightarrow> gstate" where
  "emit env kind reqID routeID backendID flds gs =
     (if \<not> ge_emitter env then gs
      else gs\<lparr>gs_log := gs_log gs @ [\<lparr>te_Kind = kind, te_Source = ''router'', te_RequestID = reqID,
        te_RouteID = routeID, te_BackendID = backendID, te_HostID = [], te_DeviceID = [],
        te_Wall = ge_wall env (length (gs_log gs)), te_Fields = flds\<rparr>]\<rparr>)"

text \<open>The reading of the clock for a field of the next event.\<close>

definition elapsed_ms :: "gw_env \<Rightarrow> walltime \<Rightarrow> gstate \<Rightarrow> EvidenceValue" where
  "elapsed_ms env since gs = EvReal (ms (ge_read env (length (gs_log gs)) - since))"

definition backendByID :: "BackendSnapshot \<Rightarrow> string \<Rightarrow> BackendState option" where
  "backendByID snap i = find (\<lambda>b. bid b = i) (sn_Backends snap)"

definition pickAlternative :: "BackendSnapshot \<Rightarrow> string list \<Rightarrow> string" where
  "pickAlternative snap tried =
     (case find (\<lambda>b. bid b \<notin> set tried) (eligible snap) of Some b \<Rightarrow> bid b | None \<Rightarrow> [])"

section \<open>Candidate state\<close>

definition score_fields :: "CandidateScore \<Rightarrow> (string \<times> EvidenceValue) list" where
  "score_fields s =
     [(''matched_prefix_tokens'', EvInt (sc_MatchedPrefixTokens s)),
      (''match_ratio'', EvReal (sc_MatchRatio s)),
      (''uncached_prompt_tokens'', EvInt (sc_UncachedPromptTokens s)),
      (''estimated_prefill_saved_ms'', EvReal (sc_EstPrefillSavedMs s)),
      (''est_queue_ms'', EvReal (sc_EstQueueMs s)), (''est_prefill_ms'', EvReal (sc_EstPrefillMs s)),
      (''est_decode_ms'', EvReal (sc_EstDecodeMs s)),
      (''cache_staleness_penalty_ms'', EvReal (sc_StalenessPenaltyMs s)),
      (''kv_pressure_penalty_ms'', EvReal (sc_KVPenaltyMs s)),
      (''final_analytical_score_ms'', EvReal (sc_FinalScoreMs s)),
      (''cache_used'', EvBool (sc_CacheUsed s))]"

definition state_fields :: "BackendState \<Rightarrow> (string \<times> EvidenceValue) list" where
  "state_fields b =
     [(''queue_depth'', EvInt (bs_QueueDepth b)), (''queue_inflight'', EvInt (bs_QueueInflight b)),
      (''queue_max'', EvInt (bs_QueueMax b)), (''runtime_running'', EvReal (bs_RuntimeRunning b)),
      (''runtime_waiting'', EvReal (bs_RuntimeWaiting b)),
      (''kv_cache_util'', EvReal (bs_KVCacheUtil b)), (''kv_headroom'', EvReal (bs_KVHeadroom b)),
      (''kv_headroom_supported'', EvBool (bs_KVHeadroomSupported b)),
      (''lifecycle_state'', EvString (bs_LifecycleState b)),
      (''stability_score'', EvReal (bs_StabilityScore b)),
      (''snapshot_age_ms'', EvInt (bs_SnapshotAgeMs b)),
      (''gen_tokens_per_sec'', EvReal (bs_GenTokensPerSec b)),
      (''service_rate_supported'', EvBool (bs_ServiceRateSupported b)),
      (''cache_observation_supported'', EvBool (bs_CacheObservationSupported b)),
      (''cache_match_supported'', EvBool (bs_CacheMatchSupported b)),
      (''cache_confidence'', EvReal (bs_CacheConfidence b)),
      (''cache_ready'', EvBool (bs_CacheReady b)),
      (''cache_snapshot_age_ms'', EvInt (bs_CacheSnapshotAgeMs b)),
      (''cache_event_sequence'', EvInt (bs_CacheEventSequence b)),
      (''cache_reset_epoch'', EvInt (bs_CacheResetEpoch b)),
      (''cache_index_size'', EvInt (bs_CacheIndexSize b)), (''eligible'', EvBool (isEligible b))]"

text \<open>A later score of the same identifier replaces an earlier one in the map.\<close>

definition emitCandidateState ::
  "gw_env \<Rightarrow> string \<Rightarrow> RequestFeatures \<Rightarrow> BackendSnapshot \<Rightarrow> gstate \<Rightarrow> gstate" where
  "emitCandidateState env reqID feat snap gs0 =
     (let scorer = \<lparr>cap_cfg = DefaultCacheAwareConfig,
                    cap_locator = Some (LookupPrefixTokens (ge_reg env))\<rparr>;
          scores = ScoreBreakdown scorer feat snap;
          byID = map_of (rev (map (\<lambda>s. (sc_BackendID s, s)) scores))
      in foldl (\<lambda>gs b. emit env ''CANDIDATE_STATE'' reqID [] (bid b)
             (state_fields b @ (case byID (bid b) of Some s \<Rightarrow> score_fields s | None \<Rightarrow> [])) gs)
           gs0 (sn_Backends snap))"

section \<open>Forwarding to one sidecar\<close>

definition fwd_header :: "header \<Rightarrow> string \<Rightarrow> string \<Rightarrow> string \<Rightarrow> header" where
  "fwd_header h reqID routeID backendID =
     (let h1 = hdr_set ''X-Backend-Id'' backendID (hdr_set ''X-Route-Id'' routeID
                 (hdr_set ''X-Request-Id'' reqID (hdr_set ''Content-Type'' ''application/json'' [])));
          k = hdr_get ''X-Cache-Prefix-Key'' h;
          h2 = (if k \<noteq> [] then hdr_set ''X-Cache-Prefix-Key'' k h1 else h1);
          t = hdr_get ''X-Cache-Prefix-Tokens'' h
      in if t \<noteq> [] then hdr_set ''X-Cache-Prefix-Tokens'' t h2 else h2)"

definition copy_headers :: "header \<Rightarrow> Writer \<Rightarrow> Writer" where
  "copy_headers h w = copy_except hopByHop h w"

text \<open>The relay loop. \<open>first\<close> says that the first byte was seen; the result is the pair that \<open>forward\<close>
  returns: the reason for a retry, and whether the response is settled.\<close>

definition relay_done :: "gw_env \<Rightarrow> string \<Rightarrow> string \<Rightarrow> string \<Rightarrow> int \<Rightarrow> int \<Rightarrow> gstate \<Rightarrow>
    (string \<times> bool) \<times> gstate" where
  "relay_done env reqID routeID backendID events bytesn gs =
     (([], True), emit env ''REQUEST_COMPLETED'' reqID routeID backendID
        [(''stream'', EvBool True), (''events'', EvInt events), (''bytes'', EvInt bytesn),
         (''e2e_ms'', elapsed_ms env (ge_start env) gs)] gs)"

primrec relay :: "gw_env \<Rightarrow> string \<Rightarrow> string \<Rightarrow> string \<Rightarrow> bool \<Rightarrow> int \<Rightarrow> int \<Rightarrow> stream_read list \<Rightarrow> gstate \<Rightarrow>
    (string \<times> bool) \<times> gstate" where
  "relay env reqID routeID backendID first events bytesn [] gs =
     relay_done env reqID routeID backendID events bytesn gs"
| "relay env reqID routeID backendID first events bytesn (r # rs) gs =
     (let gs1 = (if sr_line r \<noteq> [] \<and> \<not> first
                 then emit env ''FIRST_CLIENT_BYTE'' reqID routeID backendID
                        [(''ttft_ms'', elapsed_ms env (ge_start env) gs)] gs else gs);
          first1 = (first \<or> sr_line r \<noteq> [])
      in if sr_line r \<noteq> [] \<and> sr_writeFails r
         then (([], True), emit env ''CLIENT_CANCELLED'' reqID routeID backendID
                 [(''phase'', EvString ''downstream_write_fail''), (''events'', EvInt events)] gs1)
         else
          let gs2 = (if sr_line r \<noteq> [] then gs1\<lparr>gs_writer := wr_write (sr_line r) (gs_writer gs1)\<rparr> else gs1);
              events1 = (if sr_line r \<noteq> [] then events + 1 else events);
              bytes1 = (if sr_line r \<noteq> [] then bytesn + int (length (sr_line r)) else bytesn)
          in case sr_err r of
               EOF \<Rightarrow> relay_done env reqID routeID backendID events1 bytes1 gs2
             | ReadErr err \<Rightarrow>
                 if \<not> first1 then
                   (if sr_ctxDone r
                    then (([], True), emit env ''CLIENT_CANCELLED'' reqID routeID backendID
                            [(''phase'', EvString ''pre_first_byte'')] gs2)
                    else ((''stream_err_pre_first_byte:'' @ err, False), gs2))
                 else if sr_ctxDone r
                 then (([], True), emit env ''CLIENT_CANCELLED'' reqID routeID backendID
                         [(''phase'', EvString ''mid_stream''), (''events'', EvInt events1)] gs2)
                 else (([], True), emit env ''PARTIAL_STREAM_FAILED'' reqID routeID backendID
                         [(''err'', EvString err), (''events'', EvInt events1), (''bytes'', EvInt bytes1)] gs2)
             | NoErr \<Rightarrow>
                 if sr_ctxDone r
                 then (([], True), emit env ''CLIENT_CANCELLED'' reqID routeID backendID
                         [(''phase'', EvString ''mid_stream''), (''events'', EvInt events1)] gs2)
                 else relay env reqID routeID backendID first1 events1 bytes1 rs gs2)"

definition forward ::
  "gw_env \<Rightarrow> ClientRequest \<Rightarrow> BackendState \<Rightarrow> string \<Rightarrow> string \<Rightarrow> bool \<Rightarrow> upstream_reply \<Rightarrow> gstate \<Rightarrow>
   (string \<times> bool) \<times> gstate" where
  "forward env r b reqID routeID stream reply gs0 =
     (let gs = gs0\<lparr>gs_fwd := gs_fwd gs0 @ [\<lparr>fq_backendID = bid b,
                 fq_url = b_SidecarURL (bs_Backend b) @ ''/v1/chat/completions'',
                 fq_header = fwd_header (cr_header r) reqID routeID (bid b),
                 fq_body = take (16 * 1024 * 1024) (cr_body r),
                 fq_sofar = wr_body (gs_writer gs0)\<rparr>]\<rparr>
      in case reply of
           ConnErr err \<Rightarrow> ((''sidecar_connect_failed:'' @ err, False), gs)
         | Reply status h out reads \<Rightarrow>
             if status = 429 \<or> status = 503 then ((''sidecar_reject_'' @ Itoa status, False), gs)
             else if \<not> stream then
               let w = wr_write (take (64 * 1024 * 1024) out) (WriteHeader status
                         (wr_set ''X-Backend-Id'' (bid b) (wr_set ''X-Request-Id'' reqID
                           (copy_headers h (gs_writer gs)))));
                   gs1 = gs\<lparr>gs_writer := w\<rparr>;
                   gs2 = emit env ''FIRST_CLIENT_BYTE'' reqID routeID (bid b)
                           [(''ttft_ms'', elapsed_ms env (ge_start env) gs1)] gs1
               in (([], True), emit env ''REQUEST_COMPLETED'' reqID routeID (bid b)
                     [(''status'', EvInt status), (''stream'', EvBool False),
                      (''e2e_ms'', elapsed_ms env (ge_start env) gs2)] gs2)
             else if \<not> ge_flusher env then ((''no_flusher'', False), gs)
             else relay env reqID routeID (bid b) False 0 0 reads
               (gs\<lparr>gs_writer := WriteHeader 200 (wr_set ''X-Backend-Id'' (bid b)
                    (wr_set ''X-Request-Id'' reqID (wr_set ''Cache-Control'' ''no-cache''
                      (wr_set ''Content-Type'' ''text/event-stream'' (gs_writer gs)))))\<rparr>))"

section \<open>The handler\<close>

text \<open>The attempts: \<open>left\<close> is the number of iterations that the bound of the loop still allows.\<close>

primrec attempts ::
  "gw_env \<Rightarrow> ClientRequest \<Rightarrow> RequestFeatures \<Rightarrow> bool \<Rightarrow> nat \<Rightarrow> nat \<Rightarrow> BackendSnapshot \<Rightarrow> Policy \<Rightarrow>
   string list \<Rightarrow> string \<Rightarrow> gstate \<Rightarrow> gstate \<times> Policy" where
  "attempts env r feat stream 0 attempt snap pol tried lastErr gs =
     (gs\<lparr>gs_writer := httpErr env 502 ''ALL_ATTEMPTS_FAILED'' (rf_RequestID feat) lastErr
           (gs_writer gs)\<rparr>, pol)"
| "attempts env r feat stream (Suc left) attempt snap pol tried lastErr gs =
     (let reqID = rf_RequestID feat;
          (res, pol') = SelectBackend (ge_reason env) pol feat snap
      in case res of
           Inl PanicIndexOutOfRange \<Rightarrow> (gs\<lparr>gs_panic := True\<rparr>, pol')
         | Inl ErrNoEligibleBackend \<Rightarrow>
             let gs1 = emit env ''ROUTE_ATTEMPT_FAILED'' reqID [] []
                   [(''reason'', EvString ''no_eligible_backend''), (''attempt'', EvInt (int attempt))] gs
             in (gs1\<lparr>gs_writer := httpErr env 503 ''NO_ELIGIBLE_BACKEND'' reqID ''no healthy backend''
                   (gs_writer gs1)\<rparr>, pol')
         | Inr dec0 \<Rightarrow>
             let alt = pickAlternative snap tried;
                 dec = (if rd_BackendID dec0 \<in> set tried \<and> alt \<noteq> []
                        then dec0\<lparr>rd_BackendID := alt, rd_Reason := rd_Reason dec0 @ ''+retry_alt''\<rparr>
                        else dec0);
                 tried' = rd_BackendID dec # tried;
                 routeID = reqID @ ''.a'' @ Itoa (int attempt)
             in case backendByID snap (rd_BackendID dec) of
                  None \<Rightarrow> attempts env r feat stream left (Suc attempt) snap pol' tried'
                            ''backend_not_in_snapshot'' gs
                | Some b \<Rightarrow>
                    let gs1 = emit env ''ROUTE_DECIDED'' reqID routeID (rd_BackendID dec)
                          [(''policy'', EvString (rd_PolicyName dec)),
                           (''policy_version'', EvString (rd_PolicyVersion dec)),
                           (''reason'', EvString (rd_Reason dec)),
                           (''decision_latency_ms'', elapsed_ms env (ge_decStart env attempt) gs),
                           (''attempt'', EvInt (int attempt))] gs;
                        gs2 = emit env ''ROUTE_ATTEMPT_STARTED'' reqID routeID (rd_BackendID dec) [] gs1;
                        ((retryable, sent), gs3) =
                          forward env r b reqID routeID stream (ge_replies env attempt) gs2
                    in if sent then (gs3, pol')
                       else attempts env r feat stream left (Suc attempt)
                              (ge_snaps env (Suc attempt)) pol' tried' retryable
                              (emit env ''ROUTE_ATTEMPT_FAILED'' reqID routeID (rd_BackendID dec)
                                [(''reason'', EvString retryable), (''attempt'', EvInt (int attempt)),
                                 (''wasted_ms'', elapsed_ms env (ge_decStart env attempt) gs3)] gs3))"

definition request_features :: "gw_env \<Rightarrow> ClientRequest \<Rightarrow> RequestFeatures" where
  "request_features env r =
     (let body = take (16 * 1024 * 1024) (cr_body r);
          (k, t, s) = extractPrefixFeatures (ge_sha256hex env) (cr_header r)
      in \<lparr>rf_RequestID = orGen (ge_nano env) (hdr_get ''X-Request-Id'' (cr_header r)) ''creq'',
          rf_Model = extractModel (ge_dec env) body, rf_Stream = detectStream (ge_dec env) body,
          rf_InputLenEst = estimateTokens (ge_dec env) body,
          rf_RequestedOutput = extractMaxTokens (ge_dec env) body,
          rf_SLOClass = hdr_get ''X-Slo-Class'' (cr_header r), rf_PrefixKeyHash = k,
          rf_PrefixTokens = t, rf_CacheEligible = (k \<noteq> []), rf_SessionKeyHash = s\<rparr>)"

definition new_gstate :: gstate where
  "new_gstate = \<lparr>gs_writer = new_writer, gs_log = [], gs_fwd = [], gs_panic = False\<rparr>"

definition ChatCompletions :: "gw_env \<Rightarrow> Gateway \<Rightarrow> ClientRequest \<Rightarrow> gstate \<times> Gateway" where
  "ChatCompletions env g r =
     (let reqID = orGen (ge_nano env) (hdr_get ''X-Request-Id'' (cr_header r)) ''creq''
      in case cr_readErr r of
           Some err \<Rightarrow> (new_gstate\<lparr>gs_writer := httpErr env 400 ''READ_BODY'' reqID err new_writer\<rparr>, g)
         | None \<Rightarrow>
             let feat = request_features env r;
                 snap = ge_snaps env 0;
                 gs1 = emit env ''REQUEST_RECEIVED'' reqID [] []
                   ([(''stream'', EvBool (rf_Stream feat)), (''model'', EvString (rf_Model feat)),
                     (''input_len_est'', EvInt (rf_InputLenEst feat))] @
                    (if rf_CacheEligible feat
                     then [(''cache_eligible'', EvBool True),
                           (''prefix_key_hash'', EvString (rf_PrefixKeyHash feat)),
                           (''prefix_tokens'', EvInt (rf_PrefixTokens feat))] else [])) new_gstate;
                 gs2 = emit env ''BACKEND_SNAPSHOT_READ'' reqID [] []
                   [(''snapshot_age_ms'', elapsed_ms env (sn_Timestamp snap) gs1),
                    (''n_backends'', EvInt (int (length (sn_Backends snap))))] gs1;
                 gs3 = emitCandidateState env reqID feat snap gs2;
                 (gs4, pol) = attempts env r feat (rf_Stream feat) (nat (gw_maxRetries g + 1)) 0 snap
                   (gw_policy g) [] [] gs3
             in (gs4, g\<lparr>gw_policy := pol\<rparr>))"

section \<open>What a forward does\<close>

lemma emit_simps [simp]:
  "gs_writer (emit env k r ro b f gs) = gs_writer gs" "gs_fwd (emit env k r ro b f gs) = gs_fwd gs"
  "gs_panic (emit env k r ro b f gs) = gs_panic gs"
  by (simp_all add: emit_def)

lemma relay_done_simps [simp]:
  "fst (relay_done env r ro b e n gs) = ([], True)"
  "gs_writer (snd (relay_done env r ro b e n gs)) = gs_writer gs"
  "gs_fwd (snd (relay_done env r ro b e n gs)) = gs_fwd gs"
  "gs_panic (snd (relay_done env r ro b e n gs)) = gs_panic gs"
  by (simp_all add: relay_done_def)

text \<open>The relay only appends to what the client has; it asks for a retry only while nothing was
  written.\<close>

lemma relay_fwd [simp]: "gs_fwd (snd (relay env r ro b first e n reads gs)) = gs_fwd gs"
  by (induction reads arbitrary: first e n gs) (auto simp: Let_def split: read_err.split)

lemma relay_panic [simp]: "gs_panic (snd (relay env r ro b first e n reads gs)) = gs_panic gs"
  by (induction reads arbitrary: first e n gs) (auto simp: Let_def split: read_err.split)

lemma relay_extends: "extends (gs_writer gs) (gs_writer (snd (relay env r ro b first e n reads gs)))"
proof (induction reads arbitrary: first e n gs)
  case (Cons x reads)
  have w: "extends (gs_writer gs) (gs_writer (snd (relay env r ro b f e' n' reads g)))"
    if "gs_writer g = wr_write l (gs_writer gs) \<or> gs_writer g = gs_writer gs" for f e' n' g l
    using Cons [of g f e' n'] that by (metis extends_ops(2) extends_trans)
  show ?case using w [where l = "sr_line x"] by (simp add: Let_def split: read_err.split)
qed simp

lemma relay_retry:
  assumes "\<not> snd (fst (relay env r ro b first e n reads gs))"
  shows "\<not> first \<and> wr_body (gs_writer (snd (relay env r ro b first e n reads gs))) = wr_body (gs_writer gs)"
  using assms
  by (induction reads arbitrary: first e n gs)
     (auto simp: Let_def split: read_err.splits if_splits)

lemma copy_headers_extends [simp]: "extends w (copy_headers h w)"
  by (simp add: copy_headers_def)

lemma stream_writer_extends:
  "extends w (WriteHeader 200 (wr_set a b (wr_set c d (wr_set e f (wr_set g h w)))))"
  by (meson extends_ops(1,3) extends_trans)

lemma plain_writer_extends:
  "extends w (wr_write out (WriteHeader st (wr_set a b (wr_set c d (copy_headers h w)))))"
  by (meson extends_ops extends_trans copy_headers_extends)

lemma forward_frame:
  "gs_panic (snd (forward env rq b r ro stream reply gs)) = gs_panic gs"
  "map fq_backendID (gs_fwd (snd (forward env rq b r ro stream reply gs))) =
     map fq_backendID (gs_fwd gs) @ [bid b]"
  by (simp_all add: forward_def Let_def split: upstream_reply.split)

lemma forward_sofar:
  "map fq_sofar (gs_fwd (snd (forward env rq b r ro stream reply gs))) =
     map fq_sofar (gs_fwd gs) @ [wr_body (gs_writer gs)]"
  by (simp add: forward_def Let_def split: upstream_reply.split)

lemma forward_extends:
  "extends (gs_writer gs) (gs_writer (snd (forward env rq b r ro stream reply gs)))"
proof -
  have "extends (gs_writer gs) (gs_writer (snd (relay env r ro (bid b) False 0 0 reads g)))"
    if "gs_writer g = WriteHeader 200 (wr_set a1 a2 (wr_set a3 a4 (wr_set a5 a6 (wr_set a7 a8 (gs_writer gs)))))"
    for g reads a1 a2 a3 a4 a5 a6 a7 a8
    using that relay_extends [of g] stream_writer_extends extends_trans by metis
  then show ?thesis
    by (simp add: forward_def Let_def plain_writer_extends split: upstream_reply.split)
qed

lemma forward_retry:
  assumes "\<not> snd (fst (forward env rq b r ro stream reply gs))"
  shows "wr_body (gs_writer (snd (forward env rq b r ro stream reply gs))) = wr_body (gs_writer gs)"
  using assms by (auto simp: forward_def Let_def relay_retry split: upstream_reply.splits if_splits)

lemma forward_sent:
  assumes "snd (fst (forward env rq b r ro stream reply gs))"
  shows "wr_status (gs_writer (snd (forward env rq b r ro stream reply gs))) \<noteq> None"
proof (cases reply)
  case (Reply st h out reads)
  have "wr_status (gs_writer (snd (relay env r ro i first e n reads g))) \<noteq> None"
    if "wr_status (gs_writer g) \<noteq> None" for i first e n g
    using relay_extends that extends_status by (metis not_None_eq)
  then show ?thesis using assms
    by (auto simp: forward_def Reply Let_def split: if_splits option.split)
qed (use assms in \<open>simp add: forward_def Let_def\<close>)

section \<open>The choice of an attempt\<close>

lemma select_eligible:
  assumes "fst (SelectBackend reason p req snap) = Inr d"
  shows "rd_BackendID d \<in> bid ` set (eligible snap)"
proof (cases p)
  case (RoundRobinPolicy n)
  have "nat (sgn k * (\<bar>k\<bar> mod int (length (eligible snap)))) < length (eligible snap)"
    if "eligible snap \<noteq> []" "0 \<le> sgn k * (\<bar>k\<bar> mod int (length (eligible snap)))" for k :: int
  proof -
    have "\<bar>k\<bar> mod int (length (eligible snap)) < int (length (eligible snap))" using that(1) by simp
    then show ?thesis using that by (cases "k = 0"; cases "0 < k") (auto simp: nat_less_iff)
  qed
  then show ?thesis using assms
    by (auto simp: RoundRobinPolicy rr_SelectBackend_def Let_def decision_def split: if_splits)
qed (use assms lqp.select_in lrwp.select_in hgp.select_in cap.select_in affp.select_in in auto)

definition chosen :: "BackendSnapshot \<Rightarrow> string list \<Rightarrow> RouteDecision \<Rightarrow> RouteDecision" where
  "chosen snap tried dec0 =
     (if rd_BackendID dec0 \<in> set tried \<and> pickAlternative snap tried \<noteq> []
      then dec0\<lparr>rd_BackendID := pickAlternative snap tried, rd_Reason := rd_Reason dec0 @ ''+retry_alt''\<rparr>
      else dec0)"

lemma pickAlternative_in:
  assumes "pickAlternative snap tried \<noteq> []"
  shows "pickAlternative snap tried \<in> bid ` set (eligible snap)" "pickAlternative snap tried \<notin> set tried"
proof -
  obtain b where b: "find (\<lambda>b. bid b \<notin> set tried) (eligible snap) = Some b"
    using assms by (auto simp: pickAlternative_def split: option.splits)
  then have "b \<in> set (eligible snap)" "bid b \<notin> set tried" by (auto simp: find_Some_iff)
  with b show "pickAlternative snap tried \<in> bid ` set (eligible snap)"
    "pickAlternative snap tried \<notin> set tried" by (simp_all add: pickAlternative_def)
qed

lemma pickAlternative_none:
  assumes "pickAlternative snap tried = []" and "[] \<notin> bid ` set (eligible snap)"
  shows "bid ` set (eligible snap) \<subseteq> set tried"
proof (cases "find (\<lambda>b. bid b \<notin> set tried) (eligible snap)")
  case None
  then show ?thesis by (auto simp: find_None_iff)
next
  case (Some b)
  then have "b \<in> set (eligible snap)" by (auto simp: find_Some_iff)
  with Some assms show ?thesis by (force simp: pickAlternative_def)
qed

lemma chosen_props:
  assumes "rd_BackendID dec0 \<in> bid ` set (eligible snap)"
  shows "rd_BackendID (chosen snap tried dec0) \<in> bid ` set (eligible snap)"
    and "[] \<notin> bid ` set (eligible snap) \<Longrightarrow> rd_BackendID (chosen snap tried dec0) \<in> set tried \<Longrightarrow>
      bid ` set (eligible snap) \<subseteq> set tried"
  using assms pickAlternative_in [of snap tried] pickAlternative_none [of snap tried]
  by (auto simp: chosen_def split: if_splits)

lemma chosen_found:
  assumes "i \<in> bid ` set (eligible snap)"
  obtains b where "backendByID snap i = Some b" and "bid b = i"
proof (cases "backendByID snap i")
  case None
  then show ?thesis using assms by (auto simp: backendByID_def find_None_iff eligible_mem)
next
  case (Some b)
  with that show ?thesis by (auto simp: backendByID_def find_Some_iff)
qed

section \<open>Runs of the attempt loop\<close>

text \<open>One iteration, with the choice resolved: the backend is always found in the snapshot.\<close>

lemma attempts_cases:
  obtains (panic) pol' where "attempts env r feat stream (Suc left) n snap pol tried err gs = (gs\<lparr>gs_panic := True\<rparr>, pol')"
      and "fst (SelectBackend (ge_reason env) pol feat snap) = Inl PanicIndexOutOfRange"
  | (none) gs' pol' where "attempts env r feat stream (Suc left) n snap pol tried err gs = (gs', pol')"
      and "fst (SelectBackend (ge_reason env) pol feat snap) = Inl ErrNoEligibleBackend"
      and "gs_fwd gs' = gs_fwd gs" and "gs_panic gs' = gs_panic gs"
      and "gs_writer gs' = httpErr env 503 ''NO_ELIGIBLE_BACKEND'' (rf_RequestID feat) ''no healthy backend'' (gs_writer gs)"
  | (forwarded) b i ro gs2 retryable sent gs3 pol' gs4 where
      "i = bid b" and "i \<in> bid ` set (eligible snap)"
      and "[] \<notin> bid ` set (eligible snap) \<Longrightarrow> i \<in> set tried \<Longrightarrow> bid ` set (eligible snap) \<subseteq> set tried"
      and "pol' = snd (SelectBackend (ge_reason env) pol feat snap)"
      and "gs_writer gs2 = gs_writer gs" and "gs_fwd gs2 = gs_fwd gs" and "gs_panic gs2 = gs_panic gs"
      and "forward env r b (rf_RequestID feat) ro stream (ge_replies env n) gs2 = ((retryable, sent), gs3)"
      and "gs_writer gs4 = gs_writer gs3" and "gs_fwd gs4 = gs_fwd gs3" and "gs_panic gs4 = gs_panic gs3"
      and "attempts env r feat stream (Suc left) n snap pol tried err gs =
        (if sent then (gs3, pol')
         else attempts env r feat stream left (Suc n) (ge_snaps env (Suc n)) pol' (i # tried) retryable gs4)"
proof -
  obtain res pol' where S: "SelectBackend (ge_reason env) pol feat snap = (res, pol')" by fastforce
  consider (p) "res = Inl PanicIndexOutOfRange" | (e) "res = Inl ErrNoEligibleBackend" | (d) dec0 where "res = Inr dec0"
    by (metis PolicyError.exhaust sum.exhaust)
  then show thesis
  proof cases
    case p
    with S show ?thesis by (intro panic) auto
  next
    case e
    let ?a = "attempts env r feat stream (Suc left) n snap pol tried err gs"
    show ?thesis by (rule none [of "fst ?a" "snd ?a"]) (simp_all add: S e Let_def)
  next
    case (d dec0)
    let ?dec = "chosen snap tried dec0" and ?ro = "rf_RequestID feat @ ''.a'' @ Itoa (int n)"
    have el: "rd_BackendID dec0 \<in> bid ` set (eligible snap)" using select_eligible S d by (metis fst_conv)
    note ch = chosen_props [OF el, of tried]
    obtain b where b: "backendByID snap (rd_BackendID ?dec) = Some b" "bid b = rd_BackendID ?dec"
      using chosen_found [OF ch(1)] .
    define gs2 where "gs2 = emit env ''ROUTE_ATTEMPT_STARTED'' (rf_RequestID feat) ?ro (rd_BackendID ?dec) []
      (emit env ''ROUTE_DECIDED'' (rf_RequestID feat) ?ro (rd_BackendID ?dec)
        [(''policy'', EvString (rd_PolicyName ?dec)), (''policy_version'', EvString (rd_PolicyVersion ?dec)),
         (''reason'', EvString (rd_Reason ?dec)),
         (''decision_latency_ms'', elapsed_ms env (ge_decStart env n) gs), (''attempt'', EvInt (int n))] gs)"
    obtain retryable sent gs3 where f: "forward env r b (rf_RequestID feat) ?ro stream (ge_replies env n) gs2 =
        ((retryable, sent), gs3)" by (metis surj_pair)
    show ?thesis
      by (rule forwarded [of "rd_BackendID ?dec" b pol' gs2 ?ro retryable sent gs3
            "emit env ''ROUTE_ATTEMPT_FAILED'' (rf_RequestID feat) ?ro (rd_BackendID ?dec)
              [(''reason'', EvString retryable), (''attempt'', EvInt (int n)),
               (''wasted_ms'', elapsed_ms env (ge_decStart env n) gs3)] gs3"])
         (use b ch f S d in \<open>simp_all add: gs2_def Let_def chosen_def [symmetric]\<close>)
  qed
qed

lemma httpErr_simps [simp]:
  "wr_status (httpErr env st code r d w) = (case wr_status w of None \<Rightarrow> Some st | Some s \<Rightarrow> Some s)"
  "extends w (httpErr env st code r d w)"
proof -
  show "extends w (httpErr env st code r d w)"
    unfolding httpErr_def by (meson extends_ops extends_trans)
qed (simp add: httpErr_def split: option.split)

lemma attempts_extends:
  "extends (gs_writer gs) (gs_writer (fst (attempts env r feat stream left n snap pol tried err gs)))"
proof (induction left arbitrary: n snap pol tried err gs)
  case (Suc left)
  show ?case
  proof (cases rule: attempts_cases [of env r feat stream left n snap pol tried err gs])
    case (forwarded b i ro gs2 retryable sent gs3 pol' gs4)
    then have "extends (gs_writer gs) (gs_writer gs3)" by (metis forward_extends snd_conv)
    with forwarded Suc [of gs4] show ?thesis by (auto intro: extends_trans)
  qed simp_all
qed simp

lemma attempts_answers:
  "gs_panic (fst (attempts env r feat stream left n snap pol tried err gs)) \<or>
   wr_status (gs_writer (fst (attempts env r feat stream left n snap pol tried err gs))) \<noteq> None"
proof (induction left arbitrary: n snap pol tried err gs)
  case (Suc left)
  show ?case
  proof (cases rule: attempts_cases [of env r feat stream left n snap pol tried err gs])
    case (forwarded b i ro gs2 retryable sent gs3 pol' gs4)
    have "sent \<Longrightarrow> wr_status (gs_writer gs3) \<noteq> None" using forward_sent forwarded(8) by (metis fst_conv snd_conv)
    with forwarded Suc show ?thesis by auto
  qed (auto split: option.split)
qed (simp split: option.split)

lemma attempts_bound:
  "length (gs_fwd (fst (attempts env r feat stream left n snap pol tried err gs))) \<le> length (gs_fwd gs) + left"
proof (induction left arbitrary: n snap pol tried err gs)
  case (Suc left)
  show ?case
  proof (cases rule: attempts_cases [of env r feat stream left n snap pol tried err gs])
    case (forwarded b i ro gs2 retryable sent gs3 pol' gs4)
    then have "map fq_backendID (gs_fwd gs3) = map fq_backendID (gs_fwd gs) @ [i]"
      by (metis forward_frame(2) snd_conv)
    then have "length (gs_fwd gs3) = Suc (length (gs_fwd gs))" by (metis length_append_singleton length_map)
    with forwarded Suc [of "Suc n" "ge_snaps env (Suc n)" pol' "i # tried" retryable gs4] show ?thesis by auto
  qed simp_all
qed simp

text \<open>A backend is used again only when every member of \<open>E\<close> was used before.\<close>

definition no_early_repeat :: "string set \<Rightarrow> string list \<Rightarrow> bool" where
  "no_early_repeat E xs \<longleftrightarrow> (\<forall>j < length xs. xs ! j \<in> set (take j xs) \<longrightarrow> E \<subseteq> set (take j xs))"

lemma no_early_repeat_snoc:
  "no_early_repeat E (xs @ [x]) \<longleftrightarrow> no_early_repeat E xs \<and> (x \<in> set xs \<longrightarrow> E \<subseteq> set xs)"
  by (auto simp: no_early_repeat_def less_Suc_eq nth_append)

abbreviation used_ids :: "gstate \<Rightarrow> string list" where
  "used_ids gs \<equiv> map fq_backendID (gs_fwd gs)"

lemma attempts_no_early_repeat:
  assumes "\<And>k. ge_snaps env k = snap" and "[] \<notin> bid ` set (eligible snap)"
    and "set tried = set (used_ids gs)" and "no_early_repeat (bid ` set (eligible snap)) (used_ids gs)"
  shows "no_early_repeat (bid ` set (eligible snap))
    (used_ids (fst (attempts env r feat stream left n snap pol tried err gs)))"
  using assms(3,4)
proof (induction left arbitrary: n pol tried err gs)
  case (Suc left)
  show ?case
  proof (cases rule: attempts_cases [of env r feat stream left n snap pol tried err gs])
    case (forwarded b i ro gs2 retryable sent gs3 pol' gs4)
    then have ids: "used_ids gs3 = used_ids gs @ [i]" by (metis forward_frame(2) snd_conv)
    have ok: "no_early_repeat (bid ` set (eligible snap)) (used_ids gs3)"
      unfolding ids no_early_repeat_snoc using Suc.prems forwarded(3) assms(2) by simp
    have "used_ids gs4 = used_ids gs3" "set (i # tried) = set (used_ids gs3)"
      using forwarded(10) Suc.prems(1) ids by simp_all
    with Suc.IH [of "i # tried" gs4] ok forwarded(12) assms(1) show ?thesis by simp
  qed (use Suc.prems in simp_all)
qed (use assms in simp)

lemma candidate_state_frame [simp]:
  "gs_writer (emitCandidateState env r feat snap gs) = gs_writer gs"
  "gs_fwd (emitCandidateState env r feat snap gs) = gs_fwd gs"
  "gs_panic (emitCandidateState env r feat snap gs) = gs_panic gs"
proof -
  have "gs_writer (foldl f gs bs) = gs_writer gs \<and> gs_fwd (foldl f gs bs) = gs_fwd gs \<and>
      gs_panic (foldl f gs bs) = gs_panic gs"
    if "\<And>g b. gs_writer (f g b) = gs_writer g \<and> gs_fwd (f g b) = gs_fwd g \<and> gs_panic (f g b) = gs_panic g"
    for f :: "gstate \<Rightarrow> BackendState \<Rightarrow> gstate" and bs
    using that by (induction bs arbitrary: gs) simp_all
  note fold = this
  show "gs_writer (emitCandidateState env r feat snap gs) = gs_writer gs"
    "gs_fwd (emitCandidateState env r feat snap gs) = gs_fwd gs"
    "gs_panic (emitCandidateState env r feat snap gs) = gs_panic gs"
    unfolding emitCandidateState_def Let_def by (simp_all add: fold)
qed

text \<open>The handler is the attempt loop, started with nothing sent.\<close>

lemma ChatCompletions_loop:
  assumes "cr_readErr r = None"
  obtains gs3 where "gs_writer gs3 = new_writer" and "gs_fwd gs3 = []" and "\<not> gs_panic gs3"
    and "fst (ChatCompletions env g r) = fst (attempts env r (request_features env r)
        (rf_Stream (request_features env r)) (nat (gw_maxRetries g + 1)) 0 (ge_snaps env 0) (gw_policy g) [] [] gs3)"
proof -
  define gs1 where "gs1 = emit env ''REQUEST_RECEIVED''
    (orGen (ge_nano env) (hdr_get ''X-Request-Id'' (cr_header r)) ''creq'') [] []
    ([(''stream'', EvBool (rf_Stream (request_features env r))),
      (''model'', EvString (rf_Model (request_features env r))),
      (''input_len_est'', EvInt (rf_InputLenEst (request_features env r)))] @
     (if rf_CacheEligible (request_features env r)
      then [(''cache_eligible'', EvBool True),
            (''prefix_key_hash'', EvString (rf_PrefixKeyHash (request_features env r))),
            (''prefix_tokens'', EvInt (rf_PrefixTokens (request_features env r)))] else [])) new_gstate"
  define gs3 where "gs3 = emitCandidateState env
    (orGen (ge_nano env) (hdr_get ''X-Request-Id'' (cr_header r)) ''creq'') (request_features env r)
    (ge_snaps env 0) (emit env ''BACKEND_SNAPSHOT_READ''
      (orGen (ge_nano env) (hdr_get ''X-Request-Id'' (cr_header r)) ''creq'') [] []
      [(''snapshot_age_ms'', elapsed_ms env (sn_Timestamp (ge_snaps env 0)) gs1),
       (''n_backends'', EvInt (int (length (sn_Backends (ge_snaps env 0)))))] gs1)"
  show thesis
  proof (rule that [of gs3])
    show "gs_writer gs3 = new_writer" "gs_fwd gs3 = []" "\<not> gs_panic gs3"
      by (simp_all add: gs3_def gs1_def new_gstate_def)
    show "fst (ChatCompletions env g r) = fst (attempts env r (request_features env r)
        (rf_Stream (request_features env r)) (nat (gw_maxRetries g + 1)) 0 (ge_snaps env 0) (gw_policy g) [] [] gs3)"
      by (simp add: ChatCompletions_def assms Let_def gs3_def gs1_def split: prod.split)
  qed
qed

lemma attempts_sofar:
  assumes "wr_body (gs_writer gs) = []" and "set (map fq_sofar (gs_fwd gs)) \<subseteq> {[]}"
  shows "set (map fq_sofar (gs_fwd (fst (attempts env r feat stream left n snap pol tried err gs)))) \<subseteq> {[]}"
  using assms
proof (induction left arbitrary: n snap pol tried err gs)
  case (Suc left)
  show ?case
  proof (cases rule: attempts_cases [of env r feat stream left n snap pol tried err gs])
    case (forwarded b i ro gs2 retryable sent gs3 pol' gs4)
    then have "map fq_sofar (gs_fwd gs3) = map fq_sofar (gs_fwd gs) @ [[]]"
      using Suc.prems(1) by (metis forward_sofar snd_conv)
    then have sofar: "set (map fq_sofar (gs_fwd gs3)) \<subseteq> {[]}" using Suc.prems(2) by simp
    have "wr_body (gs_writer gs3) = []" if "\<not> sent"
      using forward_retry forwarded(5,8) Suc.prems(1) that by (metis fst_conv snd_conv)
    with sofar Suc.IH [of gs4] forwarded(9-12) show ?thesis by (cases sent) simp_all
  qed (use Suc.prems in simp_all)
qed simp

text \<open>A policy that can make \<open>k\<close> more selections before a round-robin counter reaches \<open>2^63\<close>.\<close>

definition policy_room :: "nat \<Rightarrow> Policy \<Rightarrow> bool" where
  "policy_room k p = (case p of RoundRobinPolicy n \<Rightarrow> unat n + k \<le> 2 ^ 63 | _ \<Rightarrow> True)"

lemma select_room:
  assumes "policy_room (Suc k) p"
  shows "fst (SelectBackend reason p req snap) \<noteq> Inl PanicIndexOutOfRange"
    and "policy_room k (snd (SelectBackend reason p req snap))"
proof -
  have r: "rr_SelectBackend n req snap =
      (if eligible snap = [] then (Inl ErrNoEligibleBackend, n)
       else (Inr (decision (eligible snap ! (unat n mod length (eligible snap))) ''round_robin'' ''rr''), n + 1))"
    if "unat n < 2 ^ 63" for n
    using rr_index [OF unat_small_sint [OF that]] by (simp add: rr_SelectBackend_def)
  have s: "unat (n + 1) = unat n + 1" if "unat n < 2 ^ 63" for n :: "64 word"
    using that by (simp add: unat_word_ariths)
  show "policy_room k (snd (SelectBackend reason p req snap))"
    using assms r s by (cases p) (auto simp: policy_room_def)
  show "fst (SelectBackend reason p req snap) \<noteq> Inl PanicIndexOutOfRange"
  proof (cases p)
    case (RoundRobinPolicy n)
    with assms r [of n] show ?thesis by (auto simp: policy_room_def)
  qed (use lqp.select_err lrwp.select_err hgp.select_err cap.select_err affp.select_err in fastforce)+
qed

lemma attempts_no_panic:
  assumes "policy_room left pol" and "\<not> gs_panic gs"
  shows "\<not> gs_panic (fst (attempts env r feat stream left n snap pol tried err gs))"
  using assms
proof (induction left arbitrary: n snap pol tried err gs)
  case (Suc left)
  show ?case
  proof (cases rule: attempts_cases [of env r feat stream left n snap pol tried err gs])
    case (panic pol')
    then show ?thesis using select_room(1) [OF Suc.prems(1)] by simp
  next
    case (forwarded b i ro gs2 retryable sent gs3 pol' gs4)
    then have "\<not> gs_panic gs3" using Suc.prems(2) by (metis forward_frame(1) snd_conv)
    with forwarded Suc.IH [of pol' gs4] select_room(2) [OF Suc.prems(1)] show ?thesis by auto
  qed (use Suc.prems in simp)
qed simp

section \<open>Properties\<close>

text \<open>C25: Retries are bounded, early and spread. Whatever the sidecars do, the gateway sends at most
  \<open>maxRetries + 1\<close> requests for one client request; each of them is sent while the client has
  received no byte of a body; and as long as the snapshot does not change, a backend is used a
  second time only after every eligible backend was used.\<close>

theorem gateway_retries:
  fixes env :: gw_env and g :: Gateway and r :: ClientRequest
  assumes "cr_readErr r = None"
  defines "gs \<equiv> fst (ChatCompletions env g r)"
  shows "int (length (gs_fwd gs)) \<le> max 0 (gw_maxRetries g + 1) \<and>
     list_all (\<lambda>q. fq_sofar q = []) (gs_fwd gs) \<and>
     ((\<forall>k. ge_snaps env k = ge_snaps env 0) \<and> [] \<notin> bid ` set (eligible (ge_snaps env 0)) \<longrightarrow>
        no_early_repeat (bid ` set (eligible (ge_snaps env 0))) (map fq_backendID (gs_fwd gs)))"
proof -
  obtain gs3 where g: "gs_writer gs3 = new_writer" "gs_fwd gs3 = []" "\<not> gs_panic gs3"
    "gs = fst (attempts env r (request_features env r) (rf_Stream (request_features env r))
       (nat (gw_maxRetries g + 1)) 0 (ge_snaps env 0) (gw_policy g) [] [] gs3)"
    unfolding gs_def by (rule ChatCompletions_loop [OF assms(1)])
  have "int (length (gs_fwd gs)) \<le> max 0 (gw_maxRetries g + 1)"
    using attempts_bound [of env r "request_features env r" "rf_Stream (request_features env r)"
        "nat (gw_maxRetries g + 1)" 0 "ge_snaps env 0" "gw_policy g" "[]" "[]" gs3] g by simp
  moreover have "list_all (\<lambda>q. fq_sofar q = []) (gs_fwd gs)"
    using attempts_sofar [of gs3 env r "request_features env r" "rf_Stream (request_features env r)"
        "nat (gw_maxRetries g + 1)" 0 "ge_snaps env 0" "gw_policy g" "[]" "[]"] g
    by (auto simp: list_all_iff)
  moreover have "no_early_repeat (bid ` set (eligible (ge_snaps env 0))) (used_ids gs)"
    if "\<forall>k. ge_snaps env k = ge_snaps env 0" "[] \<notin> bid ` set (eligible (ge_snaps env 0))"
    unfolding g(4) by (rule attempts_no_early_repeat) (use that g(2) in \<open>auto simp: no_early_repeat_def\<close>)
  ultimately show ?thesis by blast
qed


text \<open>C31: A stream is always answered with status 200. When a streaming request reaches a sidecar that
  answers with any status other than 429 and 503, the client gets status 200: also when the
  sidecar's status was an error, and also when the stream then fails before its first byte and every
  retry fails, so that the error report of the gateway is sent as the body of a 200 response.\<close>

theorem stream_status_hidden:
  assumes "cr_readErr r = None" and "rf_Stream (request_features env r)" and "ge_flusher env"
    and "0 \<le> gw_maxRetries g" and "policy_ok (gw_policy g)"
    and "eligible (ge_snaps env 0) \<noteq> []"
    and "ge_replies env 0 = Reply st h out reads" and "st \<noteq> 429" and "st \<noteq> 503"
  shows "wr_status (gs_writer (fst (ChatCompletions env g r))) = Some 200"
proof -
  let ?f = "request_features env r" and ?left = "nat (gw_maxRetries g)"
  have left: "nat (gw_maxRetries g + 1) = Suc ?left" using assms(4) by simp
  obtain gs where g: "gs_writer gs = new_writer"
    "fst (ChatCompletions env g r) = fst (attempts env r ?f True (Suc ?left) 0 (ge_snaps env 0) (gw_policy g) [] [] gs)"
    using ChatCompletions_loop [OF assms(1), of env g] assms(2) left by metis
  have sel: "\<exists>d. fst (SelectBackend (ge_reason env) (gw_policy g) ?f (ge_snaps env 0)) = Inr d"
    using routing_contract_cases [OF assms(5), where reason = "ge_reason env" and req = ?f and snap = "ge_snaps env 0"] assms(6)
    by (auto simp: eligible_nil split: sum.splits)
  show ?thesis
  proof (cases rule: attempts_cases [of env r ?f True ?left 0 "ge_snaps env 0" "gw_policy g" "[]" "[]" gs])
    case (forwarded b i ro gs2 retryable sent gs3 pol' gs4)
    have "wr_status (gs_writer (snd (forward env r b (rf_RequestID ?f) ro True (ge_replies env 0) gs2))) = Some 200"
      using assms(3,7,8,9) g(1) forwarded(5) extends_status [OF relay_extends]
      by (simp add: forward_def Let_def)
    then have "wr_status (gs_writer gs3) = Some 200" using forwarded(8) by simp
    then show ?thesis
      using forwarded extends_status [OF attempts_extends [of gs4]] by (auto simp: g(2))
  qed (use sel in auto)
qed

section \<open>Examples\<close>

text \<open>Two backends; the first attempt meets a sidecar that answers 500 and fails before its first byte,
  every other attempt finds no connection.\<close>

definition sample_env :: gw_env where
  "sample_env = \<lparr>ge_wall = (\<lambda>_. 1), ge_read = (\<lambda>_. 1), ge_start = 0, ge_decStart = (\<lambda>_. 0),
     ge_encode = (\<lambda>code _ _. code), ge_flusher = True, ge_emitter = True,
     ge_snaps = (\<lambda>_. sample_snap),
     ge_replies = (\<lambda>n. if n = 0 then Reply 500 [] [] [\<lparr>sr_line = [], sr_err = ReadErr ''reset'',
        sr_writeFails = False, sr_ctxDone = False\<rparr>] else ConnErr ''refused''),
     ge_reason = (\<lambda>_. []),
     ge_dec = \<lparr>bd_stream = (\<lambda>_. Some True), bd_model = (\<lambda>_. []), bd_maxTokens = (\<lambda>_. 0),
       bd_contents = (\<lambda>_. None)\<rparr>,
     ge_nano = 7, ge_sha256hex = (\<lambda>s. s), ge_reg = NewRegistry [] 1 0\<rparr>"

definition sample_gateway :: Gateway where
  "sample_gateway = NewGateway LeastQueuedPolicy 1"

definition sample_request :: ClientRequest where
  "sample_request = \<lparr>cr_header = [], cr_body = [], cr_readErr = None\<rparr>"

theorem gateway_retries_witness:
  "length (gs_fwd (fst (ChatCompletions sample_env sample_gateway sample_request))) \<le> 2 \<and>
   no_early_repeat {''a'', ''b''}
     (map fq_backendID (gs_fwd (fst (ChatCompletions sample_env sample_gateway sample_request))))"
proof -
  have "ge_snaps sample_env k = sample_snap" for k by (simp add: sample_env_def)
  moreover have "bid ` set (eligible sample_snap) = {''a'', ''b''}"
    by (simp add: sample_eligible) (simp add: sample_snap_def sample_state_def zero_BackendState_def)
  ultimately show ?thesis
    using gateway_retries [of sample_request sample_env sample_gateway]
    by (simp add: sample_request_def sample_gateway_def NewGateway_def)
qed


theorem stream_status_hidden_witness:
  "wr_status (gs_writer (fst (ChatCompletions sample_env sample_gateway sample_request))) = Some 200"
  by (rule stream_status_hidden [where st = 500 and h = "[]" and out = "[]" and
        reads = "[\<lparr>sr_line = [], sr_err = ReadErr ''reset'', sr_writeFails = False, sr_ctxDone = False\<rparr>]"])
     (simp_all add: sample_request_def sample_env_def sample_gateway_def NewGateway_def policy_ok_def
      request_features_def Let_def detectStream_def sample_length split: prod.split)

end
