(* ===== verification/Daemon_Wiring.thy ===== *)
theory Daemon_Wiring
  imports Vendor_Adapters Sidecar_Config Http_Api Cache_Providers Work_Accounting Data_Proxy
    Router_Gateway
begin

text \<open>
  How the two daemons put the components together (\<open>cmd/sidecar/main.go\<close>, \<open>cmd/router/main.go\<close>): the
  choice of the adapter, the supervisor and its first poll, the admission gate, the ticker that feeds
  the cache provider, the documents served at \<open>/v1/queue\<close> and \<open>/v1/cache\<close>, and the configurations
  that the flags produce. Parsing of flags, logging, signals and the listening sockets are not
  modelled.
\<close>

section \<open>The host side of the sidecar\<close>

definition select_adapter :: "(string \<Rightarrow> string option) \<Rightarrow> string \<Rightarrow> GpuAdapter \<times> string" where
  "select_adapter path vendor =
     (if vendor = ''nvidia'' then (ANvidia (NewNVIDIA path), ''nvidia (forced)'')
      else if vendor = ''amd'' then (AAmd (NewAMD path), ''amd (forced)'')
      else if vendor = ''generic'' then (AGeneric, ''generic (forced)'')
      else Detect path)"

definition devFilter :: "string \<Rightarrow> string list" where
  "devFilter devicesCSV = (if devicesCSV \<noteq> [] then split_on (CHR '','') devicesCSV else [])"

definition sup_SetMaxTelemetryAge :: "duration \<Rightarrow> Supervisor \<Rightarrow> Supervisor" where
  "sup_SetMaxTelemetryAge d s = s\<lparr>sv_maxTelemetryAge := d\<rparr>"

definition sup_SetPollInterval :: "duration \<Rightarrow> Supervisor \<Rightarrow> Supervisor" where
  "sup_SetPollInterval d s = s\<lparr>sv_pollInterval := d\<rparr>"

definition sup_DeviceCount :: "Supervisor \<Rightarrow> nat" where
  "sup_DeviceCount s = length (sv_order s)"

text \<open>The inputs of one poll of a device: the sample and the access probe, each with the state of the
  tools at its own time.\<close>

definition adapter_probe ::
  "(string \<Rightarrow> tool_env) \<Rightarrow> (string \<Rightarrow> tool_env) \<Rightarrow> duration \<Rightarrow> GpuAdapter \<Rightarrow> duration \<Rightarrow> walltime \<Rightarrow> string \<Rightarrow> ProbeInput" where
  "adapter_probe te te' timeout a now wall d =
     probe_of (fst (ad_Sample (te d) timeout a d)) (ad_AccessProbe (te' d) timeout a d) now wall"

record boot_info =
  bi_instanceID :: string
  bi_host :: string
  bi_bootID :: string
  bi_wall :: walltime

definition Version :: string where
  "Version = ''0.1.0''"

text \<open>\<open>Discover\<close> runs under the probe timeout; its error leaves the supervisor without devices.\<close>

definition boot_supervisor ::
  "tool_env \<Rightarrow> boot_info \<Rightarrow> Config \<Rightarrow> duration \<Rightarrow> string \<Rightarrow> GpuAdapter \<Rightarrow> Supervisor \<times> GpuAdapter" where
  "boot_supervisor te bi cfg maxTelAge devicesCSV a =
     (let sup = sup_SetPollInterval (cf_PollInterval cfg) (sup_SetMaxTelemetryAge maxTelAge
            (NewSupervisor (ad_Vendor a) (bi_instanceID bi) (bi_host bi) (bi_bootID bi) Version
               (cf_Lifecycle cfg) (cf_Stability cfg) (cf_WindowSeconds cfg) (cf_ProbeRingCap cfg)
               (cf_PointRingCap cfg) (cf_EventRingCap cfg) (cf_AccessProbeEach cfg) (bi_wall bi)));
          (found, a1) = ad_Discover te (cf_ProbeTimeout cfg) a
      in (snd (Init (devFilter devicesCSV) found sup), a1))"

text \<open>The polling goroutine: one \<open>PollOnce\<close> at the start and one per tick.\<close>

definition poll_loop :: "(string \<Rightarrow> ProbeInput) list \<Rightarrow> Supervisor \<Rightarrow> Supervisor" where
  "poll_loop ticks s = foldl (\<lambda>s probe. PollOnce probe s) s ticks"

definition readFirstLine :: "(string \<Rightarrow> string option) \<Rightarrow> string \<Rightarrow> string" where
  "readFirstLine readFile path = (case readFile path of None \<Rightarrow> [] | Some b \<Rightarrow> TrimSpace b)"

section \<open>The data plane of the sidecar\<close>

record dp_flags =
  fl_vllmURL :: string
  fl_backendID :: string
  fl_dpDevice :: string
  fl_collectorURL :: string
  fl_maxQueued :: int
  fl_maxInflight :: int
  fl_queueTimeout :: duration
  fl_cacheObserver :: string
  fl_cacheEventEndpoint :: string
  fl_cacheIndexMax :: int
  fl_cacheEntryTTL :: duration
  fl_cacheStaleAfter :: duration
  fl_cacheExplicitHeader :: bool

definition dp_backendID :: "string \<Rightarrow> dp_flags \<Rightarrow> string" where
  "dp_backendID host fl =
     (if fl_backendID fl = [] then host @ ''-gpu'' @ fl_dpDevice fl else fl_backendID fl)"

definition dp_vcfg :: "dp_flags \<Rightarrow> VConfig" where
  "dp_vcfg fl = DefaultVConfig\<lparr>vc_BaseURL := fl_vllmURL fl\<rparr>"

definition dp_tcfg :: "string \<Rightarrow> dp_flags \<Rightarrow> TConfig" where
  "dp_tcfg host fl = DefaultTConfig\<lparr>tc_Enabled := fl_collectorURL fl \<noteq> [],
     tc_CollectorURL := fl_collectorURL fl, tc_Source := ''sidecar:'' @ host, tc_LocalFallbackPath := []\<rparr>"

definition dp_qcfg :: "dp_flags \<Rightarrow> QueueConfig" where
  "dp_qcfg fl = DefaultQueueConfig\<lparr>qc_MaxQueuedRequests := fl_maxQueued fl,
     qc_MaxInflightRequests := fl_maxInflight fl, qc_QueueTimeout := fl_queueTimeout fl\<rparr>"

definition dp_pcfg :: "string \<Rightarrow> dp_flags \<Rightarrow> ProxyConfig" where
  "dp_pcfg host fl = DefaultProxyConfig\<lparr>pc_HostID := host, pc_BackendID := dp_backendID host fl,
     pc_DeviceID := fl_dpDevice fl, ProxyConfig.pc_ExplicitHeaderEnabled := fl_cacheExplicitHeader fl\<rparr>"

fun req_string :: "ReqState \<Rightarrow> string" where
  "req_string ReqReceived = ''RECEIVED''"
| "req_string ReqQueued = ''QUEUED''"
| "req_string ReqDispatching = ''DISPATCHING''"
| "req_string ReqStreaming = ''STREAMING''"
| "req_string ReqWaitingFull = ''WAITING_FOR_FULL_RESPONSE''"
| "req_string ReqCompleted = ''COMPLETED''"
| "req_string ReqRejected = ''REJECTED''"
| "req_string ReqCancelled = ''CANCELLED''"
| "req_string ReqTimedOut = ''TIMED_OUT''"
| "req_string ReqUpstreamFail = ''UPSTREAM_FAILED''"
| "req_string ReqPartialStream = ''PARTIAL_STREAM_FAILED''"

text \<open>A transition of a ticket as a trajectory event.\<close>

definition transition_trajectory :: "string \<Rightarrow> TransitionEvent \<Rightarrow> TEvent" where
  "transition_trajectory host e =
     \<lparr>te_Kind = ''STATE_TRANSITION'', te_Source = ''sidecar:'' @ host, te_RequestID = tr_RequestID e,
      te_RouteID = tr_RouteID e, te_BackendID = tr_BackendID e, te_HostID = tr_HostID e,
      te_DeviceID = tr_DeviceID e, te_Wall = tr_Wall e,
      te_Fields = [(''from'', EvString (req_string (tr_From e))), (''to'', EvString (req_string (tr_To e))),
                   (''reason'', EvString (tr_Reason e))]\<rparr>"

definition admission_gate :: "bool \<Rightarrow> walltime \<Rightarrow> string \<Rightarrow> Supervisor \<Rightarrow> QueueError option" where
  "admission_gate healthy now dpDevice s =
     (if \<not> healthy then Some ErrRuntimeUnhealthy
      else if (case sup_DeviceReadiness dpDevice now s of
                 Some st \<Rightarrow> list_ex (\<lambda>rc. rc = ''LIFECYCLE_OFFLINE'') (dr_Reasons st) | None \<Rightarrow> False)
      then Some ErrBackendOffline
      else if sup_Draining dpDevice s then Some ErrBackendDraining
      else None)"

text \<open>The chat handler as it is attached: every request asks the gate.\<close>

definition sidecar_chat ::
  "px_env \<Rightarrow> Proxy \<Rightarrow> ClientRequest \<Rightarrow> walltime \<Rightarrow> Supervisor \<Rightarrow> Queue \<Rightarrow> WorkAccountant option \<Rightarrow> pstate" where
  "sidecar_chat env p r now s q w =
     px_ChatCompletions (env\<lparr>pe_gate := admission_gate (va_Health (p_vllm p)) now (pc_DeviceID (p_cfg p)) s\<rparr>)
       p r q w"

section \<open>The cache plane of the sidecar\<close>

definition dp_workAcct :: "dp_flags \<Rightarrow> WorkAccountant option" where
  "dp_workAcct fl = (if ParseMode (fl_cacheObserver fl) \<noteq> ModeDisabled then Some NewWorkAccountant else None)"

definition dp_providerConfig :: "dp_flags \<Rightarrow> ProviderConfig" where
  "dp_providerConfig fl = \<lparr>pc_Mode = ParseMode (fl_cacheObserver fl),
     pc_Index = \<lparr>ic_MaxEntries = fl_cacheIndexMax fl, ic_EntryTTL = fl_cacheEntryTTL fl,
       ic_StaleAfter = fl_cacheStaleAfter fl, ic_BlockSize = 16\<rparr>,
     pc_ExplicitHeaderEnabled = fl_cacheExplicitHeader fl, pc_EventEndpoint = fl_cacheEventEndpoint fl\<rparr>"

text \<open>\<open>None\<close> is the absent provider of the disabled mode. The daemon attaches no event source, so
  \<open>Start\<close> has no error in these modes.\<close>

definition start_provider :: "walltime \<Rightarrow> dp_flags \<Rightarrow> Provider option" where
  "start_provider now fl =
     (if ParseMode (fl_cacheObserver fl) \<noteq> ModeDisabled
      then Some (prov_apply (NewProvider (dp_providerConfig fl) now) PStart) else None)"

definition observes_dispatch :: "Provider option \<Rightarrow> bool" where
  "observes_dispatch p = (case p of Some (PExplicit _) \<Rightarrow> True | _ \<Rightarrow> False)"

text \<open>One tick of the goroutine that feeds the provider; the flag is \<open>lastUp\<close>.\<close>

definition cache_tick :: "f64 Field \<Rightarrow> bool \<Rightarrow> walltime \<Rightarrow> Provider \<times> bool \<Rightarrow> Provider \<times> bool" where
  "cache_tick kv up now pl =
     (let (p, lastUp) = pl;
          p1 = (if fSupported kv then prov_apply p (PHeadroom (f64_sub (Fin 1) (fValue kv)) True)
                else prov_apply p (PHeadroom (Fin 0) False));
          p2 = (if up \<and> \<not> lastUp then prov_apply p1 (PRestart now) else p1)
      in (p2, up))"

definition cache_loop :: "(f64 Field \<times> bool \<times> walltime) list \<Rightarrow> Provider \<Rightarrow> Provider \<times> bool" where
  "cache_loop ticks p = foldl (\<lambda>pl (kv, up, now). cache_tick kv up now pl) (p, True) ticks"

definition dirMax :: "dp_flags \<Rightarrow> int" where
  "dirMax fl = (if fl_cacheIndexMax fl > 4096 then 4096 else fl_cacheIndexMax fl)"

section \<open>Documents\<close>

text \<open>The JSON object of \<open>/v1/queue\<close>, with the work accounting when there is an accountant.\<close>

definition queue_fields :: "QueueSnapshot \<Rightarrow> jobj" where
  "queue_fields qs =
     [(''queued_requests'', JNum (real (sn_Queued qs))),
      (''inflight_requests'', JNum (real_of_int (sn_Inflight qs))),
      (''max_queued_requests'', JNum (real_of_int (sn_MaxQueued qs))),
      (''max_inflight_requests'', JNum (real_of_int (sn_MaxInflight qs))),
      (''oldest_queued_age_ms'', JNum (sn_OldestAgeMs qs)),
      (''arrival_rate_per_s'', JNum (sn_ArrivalRate qs)),
      (''dispatch_rate_per_s'', JNum (sn_DispatchRate qs)),
      (''completion_rate_per_s'', JNum (sn_CompletionRate qs)),
      (''arrivals_total'', JNum (real (sn_Arrivals qs))),
      (''dispatched_total'', JNum (real (sn_Dispatched qs))),
      (''completed_total'', JNum (real (sn_Completed qs))),
      (''rejected_total'', JNum (real (sn_Rejected qs))),
      (''queue_timeout_total'', JNum (real (sn_TimedOut qs))),
      (''cancelled_total'', JNum (real (sn_Cancelled qs))),
      (''queue_wait_p50_ms'', JNum (sn_WaitP50Ms qs)),
      (''queue_wait_p95_ms'', JNum (sn_WaitP95Ms qs)),
      (''enabled'', JBool (sn_Enabled qs))]"

definition work_json :: "WorkSnapshot \<Rightarrow> json" where
  "work_json ws = JObj
     [(''reserved_uncached_prefill_tokens'', JNum (real_of_int (wsn_ReservedUncachedPrefillTokens ws))),
      (''reserved_decode_tokens'', JNum (real_of_int (wsn_ReservedDecodeTokens ws))),
      (''active_uncached_prefill_work'', JNum (real_of_int (wsn_ActiveUncachedPrefillTokens ws))),
      (''active_decode_work'', JNum (real_of_int (wsn_ActiveDecodeTokens ws))),
      (''reserved_prefill_tokens_total'', JNum (real_of_int (wsn_TotalReservedPrefillTokens ws))),
      (''reserved_decode_tokens_total'', JNum (real_of_int (wsn_TotalReservedDecodeTokens ws)))]"

definition queue_body :: "QueueSnapshot \<Rightarrow> WorkAccountant option \<Rightarrow> jobj" where
  "queue_body qs w =
     (case w of None \<Rightarrow> queue_fields qs
      | Some wa \<Rightarrow> queue_fields qs @ [(''work_accounting'', work_json (w_Snapshot wa))])"

text \<open>The object of \<open>/v1/cache\<close>: the tags of the two structs, an empty directory left out. The encoder
  refuses a number that is not finite, then nothing is sent: \<open>None\<close>. The format of the time is a
  parameter.\<close>

definition cache_fields :: "(walltime \<Rightarrow> string) \<Rightarrow> CacheSnapshot \<Rightarrow> real \<Rightarrow> jobj" where
  "cache_fields fmtT cs headroom =
     [(''enabled'', JBool (cs_Enabled cs)), (''provider'', JStr (cs_Provider cs)),
      (''supported'', JBool (cs_Supported cs)), (''match_supported'', JBool (cs_MatchSupported cs)),
      (''ready'', JBool (cs_Ready cs)), (''confidence'', JNum (cs_Confidence cs)),
      (''snapshot_age_ms'', JNum (real_of_int (cs_SnapshotAgeMs cs))),
      (''last_event_sequence'', JNum (real_of_int (cs_LastEventSequence cs))),
      (''cache_reset_epoch'', JNum (real_of_int (cs_CacheResetEpoch cs))),
      (''index_entries'', JNum (real (cs_IndexEntries cs))),
      (''index_max_entries'', JNum (real_of_int (cs_IndexMaxEntries cs))),
      (''kv_headroom'', JNum headroom),
      (''kv_headroom_supported'', JBool (cs_KVHeadroomSupported cs)),
      (''events_received_total'', JNum (real (cs_EventsReceivedTotal cs))),
      (''events_dropped_total'', JNum (real (cs_EventsDroppedTotal cs))),
      (''sequence_gaps_total'', JNum (real (cs_SequenceGapsTotal cs))),
      (''stale_invalidations_total'', JNum (real (cs_StaleInvalidations cs))),
      (''duplicate_events_total'', JNum (real (cs_DuplicateEventsTotal cs))),
      (''out_of_order_events_total'', JNum (real (cs_OutOfOrderEventsTotal cs))),
      (''resets_total'', JNum (real (cs_ResetsTotal cs))),
      (''updated_at'', JStr (fmtT (cs_UpdatedAt cs)))]"

definition cache_body ::
  "(walltime \<Rightarrow> string) \<Rightarrow> CacheSnapshot \<Rightarrow> (string \<times> int) list \<Rightarrow> jobj option" where
  "cache_body fmtT cs dir =
     (case cs_KVHeadroom cs of
        Fin x \<Rightarrow> Some (cache_fields fmtT cs x @
          (if dir = [] then []
           else [(''directory'', JObj (map (\<lambda>(k, n). (k, JNum (real_of_int n))) dir))]))
      | _ \<Rightarrow> None)"

text \<open>What a request of \<open>/v1/cache\<close> is answered, and the provider afterwards.\<close>

definition serve_cache ::
  "(walltime \<Rightarrow> string) \<Rightarrow> (entries \<Rightarrow> entries) \<Rightarrow> walltime \<Rightarrow> dp_flags \<Rightarrow> Provider \<Rightarrow> Provider \<times> jobj option" where
  "serve_cache fmtT perm now fl p =
     (let (p1, cs, dir) = BuildPublicSnapshot perm now p (dirMax fl) in (p1, cache_body fmtT cs dir))"

section \<open>The router\<close>

definition router_tcfg :: "string \<Rightarrow> TConfig" where
  "router_tcfg collectorURL = DefaultTConfig\<lparr>tc_Enabled := collectorURL \<noteq> [],
     tc_CollectorURL := collectorURL, tc_Source := ''router''\<rparr>"

text \<open>\<open>unmarshal\<close> decodes the flag, \<open>Inl\<close> an error text; both failures end the process.\<close>

definition router_backends :: "(string \<Rightarrow> string + Backend list) \<Rightarrow> string \<Rightarrow> string + Backend list" where
  "router_backends unmarshal backendsJSON =
     (case (if backendsJSON \<noteq> [] then unmarshal backendsJSON else Inr []) of
        Inl e \<Rightarrow> Inl (''parse -backends: '' @ e)
      | Inr bs \<Rightarrow> if length bs = 0 then Inl ''no backends configured (use -backends)'' else Inr bs)"

definition router_gateway :: "string \<Rightarrow> Registry \<Rightarrow> int \<Rightarrow> Gateway" where
  "router_gateway policyName reg maxRetries =
     NewGateway (PolicyByNameWithLocator policyName (Some (LookupPrefixTokens reg))) maxRetries"

section \<open>A drained device\<close>

lemma pollDevice_Draining [simp]: "sup_Draining dev (pollDevice d inp s) = sup_Draining dev s"
  by (simp add: sup_Draining_def pollDevice_def pollState_machine split: option.split)

lemma poll_loop_Draining [simp]: "sup_Draining dev (poll_loop ticks s) = sup_Draining dev s"
proof -
  have "sup_Draining dev (foldl (\<lambda>s d. pollDevice d (probe d) s) s ds) = sup_Draining dev s" for probe s ds
    by (induction ds arbitrary: s) simp_all
  then have "sup_Draining dev (PollOnce probe s) = sup_Draining dev s" for probe s
    by (simp add: PollOnce_def)
  then show ?thesis by (induction ticks arbitrary: s) (simp_all add: poll_loop_def)
qed

lemma gate_drained: "sup_Draining dev s \<Longrightarrow> admission_gate healthy now dev s \<noteq> None"
  by (simp add: admission_gate_def)

text \<open>A request that the gate refuses: nothing reaches vLLM and the queue only counts the rejection.\<close>

lemma refused_run:
  assumes "pe_gate env = Some err" and "cr_readErr r = None"
  shows "px_up (px_ChatCompletions env p r q w) = []"
    and "px_trace (px_ChatCompletions env p r q w) = []"
    and "q_waiting (px_queue (px_ChatCompletions env p r q w)) = q_waiting q"
    and "wr_status (px_writer (px_ChatCompletions env p r q w)) =
      Some (rejectionStatus (if q_closed q then ErrBackendOffline else err))"
  using assms
  by (simp_all add: px_ChatCompletions_def Let_def case_prod_beta serve_def px_Admit_def Admit_def
      new_pstate_def writeErr_def)

section \<open>The cache document\<close>

lemma go_trunc_nat [simp]: "go_trunc (real k) = int k"
  by (simp add: go_trunc_def)

lemma cache_body_polled:
  assumes "cache_body fmtT cs dir = Some m"
  shows "reply_dir (Some m) = (if dir = [] then None else Some dir)"
    and "bs_CacheReady (fst (poll_cache (Some m) st)) = cs_Ready cs"
    and "bs_CacheConfidence (fst (poll_cache (Some m) st)) = cs_Confidence cs"
    and "bs_CacheMatchSupported (fst (poll_cache (Some m) st)) = cs_MatchSupported cs"
    and "bs_CacheSnapshotAgeMs (fst (poll_cache (Some m) st)) = cs_SnapshotAgeMs cs"
    and "bs_CacheResetEpoch (fst (poll_cache (Some m) st)) = cs_CacheResetEpoch cs"
    and "bs_CacheIndexSize (fst (poll_cache (Some m) st)) = int (cs_IndexEntries cs)"
    and "bs_CacheProvider (fst (poll_cache (Some m) st)) = cs_Provider cs"
proof -
  obtain x where m: "m = cache_fields fmtT cs x @ (if dir = [] then []
      else [(''directory'', JObj (map (\<lambda>(k, n). (k, JNum (real_of_int n))) dir))])"
    using assms by (cases "cs_KVHeadroom cs") (auto simp: cache_body_def)
  have d: "map_of m ''directory'' =
      (if dir = [] then None else Some (JObj (map (\<lambda>(k, n). (k, JNum (real_of_int n))) dir)))"
    by (simp add: m cache_fields_def)
  show "reply_dir (Some m) = (if dir = [] then None else Some dir)"
    by (simp add: reply_dir_def poll_cache_def d as_object_def intOf_def as_float_def comp_def
        case_prod_beta')
  show "bs_CacheReady (fst (poll_cache (Some m) st)) = cs_Ready cs"
    "bs_CacheConfidence (fst (poll_cache (Some m) st)) = cs_Confidence cs"
    "bs_CacheMatchSupported (fst (poll_cache (Some m) st)) = cs_MatchSupported cs"
    "bs_CacheSnapshotAgeMs (fst (poll_cache (Some m) st)) = cs_SnapshotAgeMs cs"
    "bs_CacheResetEpoch (fst (poll_cache (Some m) st)) = cs_CacheResetEpoch cs"
    "bs_CacheIndexSize (fst (poll_cache (Some m) st)) = int (cs_IndexEntries cs)"
    "bs_CacheProvider (fst (poll_cache (Some m) st)) = cs_Provider cs"
    by (simp_all add: poll_cache_def m cache_fields_def as_bool_def as_float_def as_string_def intOf_def)
qed

text \<open>The directory of the document, looked up: a row of the index or nothing.\<close>

definition dir_tokens :: "(string \<times> int) list \<Rightarrow> string \<Rightarrow> int" where
  "dir_tokens d k = (case map_of d k of None \<Rightarrow> 0 | Some n \<Rightarrow> n)"

lemma directory_lookup:
  assumes "index_inv i" and "\<And>es. mset (perm es) = mset es" and "0 < mx"
    and "ix_entries i = [] \<or> ix_lastUpdate i \<noteq> 0"
  shows "dir_tokens (Directory perm now mx i) k \<in> {0, fst (LookupKey now k i)}"
    and "int (length (ix_entries i)) \<le> mx \<Longrightarrow>
      dir_tokens (Directory perm now mx i) k = fst (LookupKey now k i)"
proof -
  have p: "\<forall>es. mset (perm es) = mset es" using assms(2) by blast
  note agree = directory_agrees [OF assms(1) p assms(3), of now]
  have row: "n = fst (LookupKey now k i)" if "map_of (Directory perm now mx i) k = Some n" for n
    using map_of_SomeD [OF that] agree by auto
  then show "dir_tokens (Directory perm now mx i) k \<in> {0, fst (LookupKey now k i)}"
    unfolding dir_tokens_def by (cases "map_of (Directory perm now mx i) k") simp_all
  show "dir_tokens (Directory perm now mx i) k = fst (LookupKey now k i)"
    if size: "int (length (ix_entries i)) \<le> mx"
  proof (cases "map_of (Directory perm now mx i) k")
    case None
    then have no: "k \<notin> fst ` set (Directory perm now mx i)" by (simp add: map_of_eq_None_iff)
    have "fst (LookupKey now k i) = 0"
    proof (cases "ix_lastUpdate i = 0")
      case True
      then have "ix_entries i = []" using assms(4) by simp
      then show ?thesis by (simp add: LookupKey_def lookupKeyLocked_def)
    next
      case False
      then show ?thesis using agree size no by blast
    qed
    then show ?thesis by (simp add: dir_tokens_def None)
  qed (simp add: dir_tokens_def row)
qed

text \<open>Taking a snapshot changes a counter that no lookup reads.\<close>

lemma SnapshotMeta_index:
  "\<exists>c. fst (SnapshotMeta now i) = i\<lparr>ix_staleInvalidated := c\<rparr>"
  unfolding SnapshotMeta_def Let_def by (auto intro: exI [of _ "ix_staleInvalidated i"])

lemma counter_unread [simp]:
  "Directory perm now mx (i\<lparr>ix_staleInvalidated := c\<rparr>) = Directory perm now mx i"
  by (simp add: Directory_def isStaleLocked_def fresh_entry_def)

lemma serve_cache_explicit:
  assumes "ep_kvHeadroom p = Fin x"
  shows "\<exists>m cs. snd (serve_cache fmtT perm now fl (PExplicit p)) = Some m \<and>
    cache_body fmtT cs (Directory perm now (dirMax fl) (ep_index p)) = Some m \<and>
    cs = snd (ep_Snapshot now p)"
proof -
  obtain c where i: "fst (SnapshotMeta now (ep_index p)) = ep_index p\<lparr>ix_staleInvalidated := c\<rparr>"
    using SnapshotMeta_index by blast
  show ?thesis
    using assms i by (simp add: serve_cache_def BuildPublicSnapshot_def Let_def case_prod_beta
        ep_Snapshot_def ep_Directory_def cache_body_def)
qed

lemma queue_body_polled:
  "bs_QueueDepth (poll_queue (Some (queue_body qs w)) st) = int (sn_Queued qs)"
  "bs_QueueInflight (poll_queue (Some (queue_body qs w)) st) = sn_Inflight qs"
  "bs_QueueMax (poll_queue (Some (queue_body qs w)) st) = sn_MaxQueued qs"
  by (simp_all add: poll_queue_def queue_body_def queue_fields_def intOf_def as_float_def
      split: option.split)

section \<open>A restarted runtime\<close>

text \<open>The tick after which the runtime is up again empties the provider: no prefix is warm.\<close>

lemmas restart_defs = cache_tick_def Let_def ep_OnRuntimeRestart_def ep_SetKVHeadroom_def Reset_def
  vp_OnRuntimeRestart_def vp_SetKVHeadroom_def case_prod_beta

lemma restart_empties_directory:
  assumes "\<And>es. mset (perm es) = mset es"
  shows "prov_Directory perm t mx (fst (cache_tick kv True now (p, False))) = []"
proof -
  have "perm [] = []" using assms [of "[]"] by simp
  then show ?thesis
    by (cases p) (simp_all add: restart_defs ep_Directory_def Directory_def vp_Directory_def dis_Directory_def)
qed

lemma restart_matches_nothing:
  "mr_MatchedPrefixTokens (prov_Lookup (fst (cache_tick kv True now (p, False))) t q) = 0"
  by (cases p) (simp_all add: restart_defs ep_Lookup_def LookupKey_def lookupKeyLocked_def vp_Lookup_def
      dis_Lookup_def NoMatch_def)

lemma cache_tick_up: "snd (cache_tick kv up now pl) = up"
  by (simp add: cache_tick_def Let_def case_prod_beta)

lemma cache_loop_restart:
  "\<exists>p'. fst (cache_loop (ticks @ [(kv1, False, t1), (kv2, True, t2)]) p) =
    fst (cache_tick kv2 True t2 (p', False))"
proof -
  obtain p' lu where down: "cache_tick kv1 False t1 (cache_loop ticks p) = (p', lu)" by (rule prod.exhaust)
  with cache_tick_up [of kv1 False t1] have "lu = False" by (metis snd_conv)
  with down have "cache_loop (ticks @ [(kv1, False, t1), (kv2, True, t2)]) p = cache_tick kv2 True t2 (p', False)"
    by (simp add: cache_loop_def)
  then show ?thesis by metis
qed

section \<open>The answer of a sidecar on the wire\<close>

text \<open>What a client reads of a body that ended regularly, line by line.\<close>

function clean_reads :: "string \<Rightarrow> stream_read list" where
  "clean_reads body =
     (case break_at (\<lambda>c. c = CHR 0x0A) body of
        None \<Rightarrow> [\<lparr>sr_line = body, sr_err = EOF, sr_writeFails = False, sr_ctxDone = False\<rparr>]
      | Some (l, rest) \<Rightarrow> \<lparr>sr_line = l @ [CHR 0x0A], sr_err = NoErr, sr_writeFails = False,
                             sr_ctxDone = False\<rparr> # clean_reads (tl rest))"
  by pat_completeness auto
termination
proof (relation "measure length")
  fix body x l rest
  assume "break_at (\<lambda>c. c = CHR 0x0A) body = Some x" and "(l, rest) = x"
  then have "\<exists>c \<in> set body. c = CHR 0x0A" and r: "rest = dropWhile (\<lambda>c. c \<noteq> CHR 0x0A) body"
    by (auto simp: break_at_def split: if_splits)
  then have "rest \<noteq> []" by (simp add: dropWhile_eq_Nil_conv)
  then show "(tl rest, body) \<in> measure length"
    using length_dropWhile_le [of "\<lambda>c. c \<noteq> CHR 0x0A" body] unfolding r
    by (cases "dropWhile (\<lambda>c. c \<noteq> CHR 0x0A) body") auto
qed simp

declare clean_reads.simps [simp del]

definition wire_reply :: "Writer \<Rightarrow> upstream_reply" where
  "wire_reply w =
     (case wr_sent w of
        None \<Rightarrow> Reply 200 (wr_header w) (wr_body w) (clean_reads (wr_body w))
      | Some (st, h) \<Rightarrow> Reply st h (wr_body w) (clean_reads (wr_body w)))"

end
