(* ===== verification/Spec2Isabelle.thy ===== *)
theory Spec2Isabelle
  imports Mesh_Collector Daemon_Wiring
begin

text \<open>
  A verification library for the GPU sidecar: the Go programs under \<open>src/cmd\<close> and the packages
  under \<open>src/internal\<close>.

  \<^bold>\<open>The program.\<close> A sidecar runs beside one vLLM process and its GPU. Its control plane polls the device
  through a vendor adapter, feeds a lifecycle state machine, a stability score and a bounded history,
  and serves the result over HTTP. Its data plane is an OpenAI-compatible proxy: it admits chat
  requests into a bounded queue, accounts for the work, observes which prompt prefixes are cached, and
  relays to vLLM. A router polls the sidecars into an immutable snapshot, chooses a backend by a
  policy and relays, with bounded retries before the first byte. Both emit trajectory events to a
  collector; a second collector merges the status of all sidecars.

  \<^bold>\<open>How Go is represented.\<close> Structs are records whose fields carry the Go name behind a short prefix;
  enums and interfaces with known implementations are datatypes; every function, method or handler is
  one function on explicit state. Integers are \<open>int\<close>, and \<open>64 word\<close> where wrap-around can be provoked
  from outside (work counters, round robin, error counters). Floats computed from counts and clocks
  are \<open>real\<close>, without rounding; floats read from outside are \<open>f64\<close>, with infinities and NaN. A mutex
  section is one operation. Goroutines that matter for a property are an inductive step relation (the
  queue, the work accountant, the emitter) or an argument that says what the others did in between
  (the proxy). Map iteration order, the order of ties in a sort and the order in which goroutines end
  are permutation arguments. What comes from outside the sources (HTTP replies, tool output, clock
  readings, JSON coding, \<open>strconv.ParseFloat\<close>, SHA-256) is an argument, collected in environment
  records; a theorem that relies on such code says so in its premises.

  \<^bold>\<open>Foundations.\<close>
  \<^item> \<open>Go_Prelude\<close>: numbers, times, \<open>f64\<close>, list lemmas; the locales \<open>inv_machine\<close> and \<open>guarded_machine\<close>,
    an invariant of all runs of an operation, which the stateful components interpret.
  \<^item> \<open>Go_Strings\<close>, \<open>Http_Writer\<close>: what the sources use of \<open>strings\<close>, \<open>strconv\<close>, \<open>fmt\<close> and \<open>net/http\<close>.
  \<^item> \<open>Core_Model\<close> (\<open>core/model.go\<close>): the records that the components exchange.

  \<^bold>\<open>Control plane.\<close>
  \<^item> \<open>Lifecycle\<close> (\<open>core/lifecycle.go\<close>): \<open>Step\<close> along its early returns. Shown: the recovery latch and
    what the counters count over a whole history, and from these when a device goes OFFLINE, that
    recovery is never bypassed, and the exact number of confirming samples.
  \<^item> \<open>Stability_Score\<close> (\<open>core/stability.go\<close>): bounds and the direction of the smoothing.
  \<^item> \<open>Device_History\<close> (\<open>core/history.go\<close>): ring buffers with array and head index, which refine the
    bounded log of locale \<open>bounded_log\<close>; window statistics.
  \<^item> \<open>Host_Supervisor\<close> (\<open>engine/supervisor.go\<close>): \<open>pollDevice\<close> stage by stage, worker tracking, drain,
    readiness. Shown: disconnects and rejoins balance, the readiness contract, no claimed causes.
  \<^item> \<open>Command_Exec\<close> (\<open>exec/exec.go\<close>) and \<open>Vendor_Adapters\<close> (\<open>adapters/*.go\<close>): tool output to health
    records. Locale \<open>gpu_adapter\<close> is what the supervisor relies on; every adapter interprets it.
  \<^item> \<open>Sidecar_Config\<close> (\<open>config/config.go\<close>) and \<open>Http_Api\<close> (\<open>api/server.go\<close>): every handler and the
    metrics text. Shown: the contract of the drain endpoint.

  \<^bold>\<open>Data plane.\<close>
  \<^item> \<open>Admission_Queue\<close> (\<open>dataplane/queue.go\<close>): limits, ticket accounting and first-in first-out
    dispatch under every interleaving (locale \<open>fifo_buffer\<close>), termination of a dispatcher pass, and the
    slot that is lost when a timeout races with the dispatch.
  \<^item> \<open>Work_Accounting\<close> (\<open>dataplane/work.go\<close>): exact sums, and the overflow that loses a reservation.
  \<^item> \<open>Cache_Index\<close>, \<open>Cache_Providers\<close> (\<open>cache/*.go\<close>): the bounded prefix index and the three providers;
    locale \<open>cache_lookup\<close> is their contract with the router, \<open>keyed_store\<close> the refinement of a map.
  \<^item> \<open>Vllm_Runtime\<close> (\<open>runtime/model.go\<close>, \<open>runtime/vllm/*.go\<close>): metrics parser with a round trip, the
    mapping to normalised metrics, the quantile estimate, scrape and health check.
  \<^item> \<open>Data_Proxy\<close> (\<open>dataplane/proxy.go\<close>): the whole handler. Shown: every ticket is settled exactly once
    and answered; the raw prefix key has no influence on anything but its hash.

  \<^bold>\<open>Router and collectors.\<close>
  \<^item> \<open>Backend_Registry\<close> (\<open>router/registry.go\<close>), \<open>Routing_Policy\<close> (\<open>router/policy.go\<close>,
    \<open>router/policy_cache_aware.go\<close>; locale \<open>routing_policy\<close>, interpreted by all six policies) and
    \<open>Router_Gateway\<close> (\<open>router/gateway.go\<close>): eligibility, optimality, fairness, bounded retries, and that
    every request is answered.
  \<^item> \<open>Trajectory_Emitter\<close> (\<open>trajectory/*.go\<close>): every event is accounted for; stopping drains.
  \<^item> \<open>Mesh_Collector\<close> (\<open>cmd/collector\<close>, \<open>cmd/trajcollector\<close>): merged views, persisted events.
  \<^item> \<open>Daemon_Wiring\<close> (\<open>cmd/sidecar/main.go\<close>, \<open>cmd/router/main.go\<close>): how the daemons compose the
    components, and the lemmas that carry a fact from one component to the next.

  \<^bold>\<open>This theory\<close> has the properties that span components. A drain request at the HTTP interface stops
  traffic at the proxy, through supervisor and admission gate. The router's directory agrees with the
  index of the sidecar, through the provider, the JSON document, the poll and the registry. A
  restarted runtime has a cold cache. A stream that breaks early at vLLM is reported as complete by
  the router, because the proxy had already written its status line.

  \<^bold>\<open>Loops and bounds.\<close> No definition uses fuel. Loops over data are structural recursion; the attempts
  of the gateway, the two shipping attempts and the eviction count down a number that the code bounds;
  the dispatcher pass, the line reader, the search for XID messages and the exchange sort of the
  histogram have termination proofs. A stream is the finite list of its reads, after which the end of the stream is read: a stream that never ends is not covered. Tickers
  are lists of ticks of any length.

  \<^bold>\<open>Not modelled.\<close>
  \<^item> Process plumbing of the four commands: flag parsing, logging, signals, start of goroutines,
    listening sockets, opening of files. It has no result that the other components read.
  \<^item> Output for people: the table of \<open>cmd/collector\<close>; the \<open>/stats\<close> document of \<open>cmd/trajcollector\<close>.
  \<^item> The text of JSON and of formatted floats, and floating point rounding.
  \<^item> Real time: that a timeout fires, or a ticker ticks, is an input; how long it takes is not.
  \<^item> Hooks that only tests use (\<open>SetClock\<close>, \<open>vllm/testhelper.go\<close>), the tests, and the programs under
    \<open>src/experiments\<close> and \<open>src/scripts\<close>.
\<close>

section \<open>Draining, end to end\<close>

text \<open>C4: Draining works across the daemon. Once the drain endpoint has accepted a request for the
  device that the data plane serves, then after any number of polls every chat request is refused
  with 503: nothing is sent to vLLM, no ticket is created and the queue stays as it was.\<close>

theorem drained_device_gets_no_traffic:
  fixes s :: Supervisor and srv :: "'c Server" and env :: px_env and p :: Proxy and c :: ClientRequest
    and an :: api_env and r :: ApiRequest and w :: Writer and ticks :: "(string \<Rightarrow> ProbeInput) list"
    and now :: walltime and q :: Queue and wk :: "WorkAccountant option"
  assumes "aq_path r = ''/v1/drain''" and "aq_method r \<in> {''POST'', ''PUT''}"
    and "drain_request an r = Some (pc_DeviceID (p_cfg p), True)"
    and "sv_devices s (pc_DeviceID (p_cfg p)) = Some ds" and "cr_readErr c = None"
  defines "run \<equiv> sidecar_chat env p c now (poll_loop ticks (snd (serve_api an srv r s w))) q wk"
  shows "px_up run = [] \<and> px_trace run = [] \<and> q_waiting (px_queue run) = q_waiting q \<and>
    wr_status (px_writer run) = Some 503"
proof -
  let ?dev = "pc_DeviceID (p_cfg p)"
  let ?s = "poll_loop ticks (snd (serve_api an srv r s w))"
  have "snd (serve_api an srv r s w) = fst (sup_SetDraining ?dev True (aq_remote r) (an_now an) s)"
    using assms(1) api_drain_request(1) [OF assms(2,3)] by (simp add: serve_api_def Let_def case_prod_beta)
  then have "sup_Draining ?dev ?s" using SetDraining_simps(3) [OF assms(4)] by simp
  then obtain err where g: "admission_gate (va_Health (p_vllm p)) now ?dev ?s = Some err"
    using gate_drained by blast
  then have "err \<in> {ErrRuntimeUnhealthy, ErrBackendOffline, ErrBackendDraining}"
    by (auto simp: admission_gate_def split: if_splits)
  then have "rejectionStatus (if q_closed q then ErrBackendOffline else err) = 503"
    by (auto simp: rejectionStatus_def)
  then show ?thesis
    using refused_run [where env = "env\<lparr>pe_gate := Some err\<rparr>" and err = err and r = c and p = p and q = q and w = wk]
      assms(5) by (simp add: run_def sidecar_chat_def g)
qed

section \<open>Cache locality, from the index of a sidecar to the router\<close>

text \<open>C5: The router sees what the sidecar knows. When a router refreshes and a backend's answer to the
  cache request is the document its sidecar builds, then the router's lookup of a prefix key gives
  what the sidecar's own index gives for that key or zero, and exactly that if the index is not
  larger than the published directory.\<close>

theorem router_sees_sidecar_cache:
  fixes r :: Registry and b :: Backend and p :: ExplicitProvider and fl :: dp_flags and now t :: walltime
  assumes "distinct (map b_ID (rg_backends r))" and "b \<in> set (rg_backends r)" and "k \<noteq> []"
    and "pr_cache (net (b_SnapshotURL b)) = snd (serve_cache fmtT perm now fl (PExplicit p))"
    and "ep_kvHeadroom p = Fin x" and "index_inv (ep_index p)" and "\<And>es. mset (perm es) = mset es"
    and "0 < fl_cacheIndexMax fl" and "ix_entries (ep_index p) = [] \<or> ix_lastUpdate (ep_index p) \<noteq> 0"
  shows "LookupPrefixTokens (refresh t net r) (b_ID b) k \<in> {0, fst (LookupKey now k (ep_index p))} \<and>
    (int (length (ix_entries (ep_index p))) \<le> dirMax fl \<longrightarrow>
       LookupPrefixTokens (refresh t net r) (b_ID b) k = fst (LookupKey now k (ep_index p)))"
proof -
  let ?dir = "Directory perm now (dirMax fl) (ep_index p)"
  obtain m cs where m: "pr_cache (net (b_SnapshotURL b)) = Some m" "cache_body fmtT cs ?dir = Some m"
    using serve_cache_explicit [OF assms(5), of fmtT perm now fl] assms(4) by auto
  have "LookupPrefixTokens (refresh t net r) (b_ID b) k = dir_tokens ?dir k"
    using refresh_replaces_directory [OF assms(1,3), of t net] assms(2) cache_body_polled(1) [OF m(2)]
    by (auto simp: m(1) dir_tokens_def)
  moreover have "0 < dirMax fl" using assms(8) by (simp add: dirMax_def)
  ultimately show ?thesis using directory_lookup [OF assms(6,7) _ assms(9), of "dirMax fl" now k] by simp
qed


section \<open>A failure that is lost between sidecar and router\<close>

text \<open>A run that ended as an upstream failure with nothing but the status line sent.\<close>

definition broke_silently :: "pstate \<Rightarrow> bool" where
  "broke_silently s \<longleftrightarrow> px_state s = ReqUpstreamFail \<and> wr_status (px_writer s) = Some 200 \<and>
     wr_body (px_writer s) = []"

definition breaks_first :: "px_env \<Rightarrow> bool" where
  "breaks_first env \<longleftrightarrow> pe_flusher env \<and> pe_badURL env = None \<and>
     (case pe_reply env of
        Reply st h full [rd] \<Rightarrow> st = 200 \<and> sr_line rd = [] \<and> \<not> sr_ctxDone rd \<and>
          (case sr_err rd of ReadErr e \<Rightarrow> \<not> pe_isCanceled env e | _ \<Rightarrow> False)
      | _ \<Rightarrow> False)"

lemma relayStream_broken:
  assumes "breaks_first env" and "px_writer s = new_writer"
  shows "broke_silently (relayStream env p tk body reqID routeID s)"
  using assms
  by (auto simp: breaks_first_def broke_silently_def relayStream_def upstreamRequest_def Let_def
      stream_err_def sse_open_def split: upstream_reply.splits list.splits read_err.splits)

lemma accounting_writer [simp]:
  "px_writer (snd (reserve_work env k n i x s)) = px_writer s"
  "px_writer (observe_prefix p k n i s) = px_writer s"
  "broke_silently (release_work env res s) = broke_silently s"
  by (simp_all add: reserve_work_def observe_prefix_def broke_silently_def release_work_def Let_def
      case_prod_beta split: option.split)

lemma dispatched_broken:
  assumes "breaks_first env" and "px_writer s = new_writer" and "px_detectStream (pe_dec env) body"
  shows "broke_silently (dispatched env p tk body reqID routeID k n s)"
  using relayStream_broken [OF assms(1)] assms(2,3)
  by (simp add: dispatched_def Let_def case_prod_beta)

lemma serve_broken:
  assumes "breaks_first env" and "px_writer s = new_writer" and "px_detectStream (pe_dec env) body"
    and "\<not> q_closed (px_queue s)" and "pe_gate env = None" and "pe_select env = SelDispatch"
    and "int (length (q_waiting (px_queue s))) < qc_MaxQueuedRequests (q_cfg (px_queue s))"
  shows "broke_silently (serve env p body reqID routeID k n s)"
  using assms(4-7) dispatched_broken [OF assms(1) _ assms(3)] assms(2)
  by (simp add: serve_def px_Admit_def Admit_def WaitForDispatch_def Let_def)

text \<open>C40: A stream that fails before its first event is reported as completed. vLLM answers 200 and its
  stream breaks before the first event; the sidecar has sent the status line by then, records an
  upstream failure and returns. What arrives at the router is a regular empty stream: the router
  counts the request as completed and does not try another backend, although nothing reached the
  client.\<close>

theorem broken_stream_reported_complete:
  fixes env :: px_env and p :: Proxy and c :: ClientRequest and q :: Queue and wk :: "WorkAccountant option"
    and genv :: gw_env and r :: ClientRequest and b :: BackendState and gs :: gstate
    and reqID routeID :: string
  assumes "breaks_first env" and "cr_readErr c = None"
    and "px_detectStream (pe_dec env) (take (16 * 1024 * 1024) (cr_body c))"
    and "\<not> q_closed q" and "pe_gate env = None" and "pe_select env = SelDispatch"
    and "int (length (q_waiting q)) < qc_MaxQueuedRequests (q_cfg q)"
    and "ge_flusher genv" and "ge_emitter genv"
  defines "run \<equiv> px_ChatCompletions env p c q wk"
    and "out \<equiv> forward genv r b reqID routeID True
          (wire_reply (px_writer (px_ChatCompletions env p c q wk))) gs"
  shows "px_state run = ReqUpstreamFail \<and> fst out = ([], True) \<and>
    te_Kind (last (gs_log (snd out))) = ''REQUEST_COMPLETED'' \<and>
    wr_body (gs_writer (snd out)) = wr_body (gs_writer gs)"
proof -
  have "broke_silently run"
    unfolding run_def using assms(2-7) serve_broken [OF assms(1)]
    by (simp add: px_ChatCompletions_def Let_def case_prod_beta new_pstate_def)
  then have s: "px_state run = ReqUpstreamFail" and w: "wr_status (px_writer run) = Some 200"
    "wr_body (px_writer run) = []"
    by (simp_all add: broke_silently_def)
  then obtain h where "wire_reply (px_writer run) = Reply 200 h [] [\<lparr>sr_line = [], sr_err = EOF,
      sr_writeFails = False, sr_ctxDone = False\<rparr>]"
    by (auto simp: wire_reply_def wr_status_def clean_reads.simps [of "[]"] break_at_def)
  then show ?thesis
    using s assms(8,9) unfolding out_def run_def
    by (simp add: forward_def Let_def relay_done_def emit_def)
qed

section \<open>Examples\<close>

definition device_px :: Proxy where
  "device_px = demo_px\<lparr>p_cfg := DefaultProxyConfig\<lparr>pc_DeviceID := ''0''\<rparr>\<rparr>"

theorem drained_device_gets_no_traffic_witness:
  "wr_status (px_writer (sidecar_chat demo_pe device_px (keyed_request ''k'') 9
     (poll_loop [\<lambda>_. gone_probe] (snd (serve_api sample_api (NewServer ''v'' :: unit Server) drain_post
       sample_host new_writer))) (NewQueue DefaultQueueConfig) None)) = Some 503"
proof -
  have "aq_path drain_post = ''/v1/drain''" "aq_method drain_post \<in> {''POST'', ''PUT''}"
    by (simp_all add: drain_post_def)
  moreover have "pc_DeviceID (p_cfg device_px) = ''0''" by (simp add: device_px_def)
  moreover have "cr_readErr (keyed_request ''k'') = None" by (simp add: keyed_request_def)
  ultimately show ?thesis
    using drained_device_gets_no_traffic [where p = device_px and r = drain_post and an = sample_api
        and s = sample_host and c = "keyed_request ''k''" and srv = "NewServer ''v'' :: unit Server"
        and ds = "newDeviceState sample_supervisor sample_identity"]
      drain_post_request sample_host_device by metis
qed

definition cache_flags :: dp_flags where
  "cache_flags = \<lparr>fl_vllmURL = [], fl_backendID = [], fl_dpDevice = [], fl_collectorURL = [],
     fl_maxQueued = 256, fl_maxInflight = 32, fl_queueTimeout = 30 * Second,
     fl_cacheObserver = ''explicit'', fl_cacheEventEndpoint = [], fl_cacheIndexMax = 100,
     fl_cacheEntryTTL = 600 * Second, fl_cacheStaleAfter = 30 * Second, fl_cacheExplicitHeader = True\<rparr>"

definition warm_provider :: ExplicitProvider where
  "warm_provider = (NewExplicitProvider (dp_providerConfig cache_flags) 1)
     \<lparr>ep_index := sample_index, ep_kvHeadroom := Fin (1 / 2), ep_kvSupported := True\<rparr>"

definition warm_replies :: "string \<Rightarrow> poll_replies" where
  "warm_replies url = \<lparr>pr_readyz = None, pr_status = None, pr_queue = None, pr_runtime = None,
     pr_cache = snd (serve_cache (\<lambda>_. []) (\<lambda>es. es) 7 cache_flags (PExplicit warm_provider)), pr_now = 1\<rparr>"

definition one_backend :: Registry where
  "one_backend = NewRegistry [\<lparr>b_ID = ''a'', b_Vendor = [], b_SidecarURL = [], b_SnapshotURL = ''ua''\<rparr>] 1 0"

theorem router_sees_sidecar_cache_witness:
  "LookupPrefixTokens (refresh 8 warm_replies one_backend) ''a'' ''a'' = 64"
proof -
  have "fst (LookupKey 7 ''a'' sample_index) = 64"
    by (simp add: LookupKey_def lookupKeyLocked_def isStaleLocked_def time_IsZero_def Second_def)
  then show ?thesis
    using router_sees_sidecar_cache [where r = one_backend and k = "''a''" and net = warm_replies
        and b = "\<lparr>b_ID = ''a'', b_Vendor = [], b_SidecarURL = [], b_SnapshotURL = ''ua''\<rparr>" and x = "1 / 2"
        and fmtT = "\<lambda>_. []" and perm = "\<lambda>es. es" and now = 7 and fl = cache_flags and p = warm_provider
        and t = 8] sample_index_inv
    by (simp add: one_backend_def NewRegistry_def warm_replies_def warm_provider_def cache_flags_def
        dirMax_def)
qed

definition warm_query :: PrefixQuery where
  "warm_query = \<lparr>pq_PrefixKeyHash = ''a'', pq_PrefixTokens = 64\<rparr>"


definition broken_pe :: px_env where
  "broken_pe = demo_pe\<lparr>pe_dec := \<lparr>pd_stream = (\<lambda>_. Some True), pd_maxTokens = (\<lambda>_. None),
     pd_input = (\<lambda>_. None)\<rparr>, pe_reply := Reply 200 [] [] [\<lparr>sr_line = [], sr_err = ReadErr ''reset'',
       sr_writeFails = False, sr_ctxDone = False\<rparr>]\<rparr>"

definition broken_run :: pstate where
  "broken_run = px_ChatCompletions broken_pe demo_px (keyed_request ''k'') (NewQueue DefaultQueueConfig) None"

theorem broken_stream_reported_complete_witness:
  "px_state broken_run = ReqUpstreamFail \<and>
   te_Kind (last (gs_log (snd (forward sample_env sample_request (hd (sn_Backends sample_snap)) ''r'' ''r.a0''
     True (wire_reply (px_writer broken_run)) new_gstate)))) = ''REQUEST_COMPLETED''"
  unfolding broken_run_def
  using broken_stream_reported_complete [where env = broken_pe and c = "keyed_request ''k''"
      and q = "NewQueue DefaultQueueConfig" and genv = sample_env and p = demo_px and wk = None
      and r = sample_request and b = "hd (sn_Backends sample_snap)" and gs = new_gstate and reqID = "''r''"
      and routeID = "''r.a0''"]
  by (simp add: broken_pe_def demo_pe_def breaks_first_def keyed_request_def px_detectStream_def
      NewQueue_def DefaultQueueConfig_def sample_env_def)

end
